(* ===== verification/Vk_Prelude.thy ===== *)
theory Vk_Prelude
  imports Main "HOL-Library.Word"
begin

unbundle bit_operations_syntax

text \<open>
  Prelude of the valkyrie-rs development: the names of Rust's machine integers, the operations of
  Rust's standard library on them that the emulator uses (\<open>saturating_add\<close>, \<open>saturating_sub\<close>,
  \<open>saturating_mul\<close>, \<open>is_multiple_of\<close>), the outcome of a fallible call, and the operator \<open>?\<close> on
  a state-passing computation (\<open>and_then\<close>). The plain operators \<open>+\<close>, \<open>-\<close>, \<open>*\<close> of a release build
  wrap around, as they do on words. The lemmas move word goals to \<open>nat\<close>, where the component
  theories reason about addresses.
\<close>

section \<open>Machine integers\<close>

type_synonym u8 = "8 word"
type_synonym u16 = "16 word"
type_synonym u32 = "32 word"
type_synonym u64 = "64 word"

text \<open>A signed integer is the word of its two's complement; \<open>sint\<close> reads it.\<close>

type_synonym i32 = "32 word"
type_synonym i64 = "64 word"
type_synonym bytes = "8 word list"

named_theorems nat_of_word
  \<comment> \<open>equations that turn an operation on words into one on \<open>nat\<close>\<close>

named_theorems outcome_elim
  \<comment> \<open>rules that take apart a successful or failed call\<close>

subsection \<open>Saturating arithmetic\<close>

definition sat_add :: "'a::len word \<Rightarrow> 'a word \<Rightarrow> 'a word" where
  "sat_add a b = (if unat a + unat b < 2 ^ LENGTH('a) then a + b else - 1)"

definition sat_sub :: "'a::len word \<Rightarrow> 'a word \<Rightarrow> 'a word" where
  "sat_sub a b = (if b \<le> a then a - b else 0)"

definition sat_mul :: "'a::len word \<Rightarrow> 'a word \<Rightarrow> 'a word" where
  "sat_mul a b = (if unat a * unat b < 2 ^ LENGTH('a) then a * b else - 1)"

definition is_multiple_of :: "u64 \<Rightarrow> u64 \<Rightarrow> bool" where
  "is_multiple_of a b = (if b = 0 then a = 0 else a mod b = 0)"

lemma unat_max_word: "unat (- 1 :: 'a::len word) = 2 ^ LENGTH('a) - 1"
  by (simp add: unsigned_minus_1_eq_mask mask_eq_exp_minus_1)

lemma unat_bound [simp]: "unat (a :: u64) < 18446744073709551616"
  using unsigned_less [of a, where 'a = nat] by simp

lemma unat_bound_le [simp]: "unat (a :: u64) \<le> 18446744073709551615"
  using unat_bound [of a] by linarith

lemma unat_add_no_wrap:
  "unat a + unat b < 2 ^ LENGTH('a) \<Longrightarrow> unat (a + b) = unat a + unat (b :: 'a::len word)"
  by (simp add: unat_plus_if')

lemma unat_sub_no_wrap: "b \<le> a \<Longrightarrow> unat (a - b) = unat a - unat (b :: 'a::len word)"
  by (simp add: unat_sub)

lemma unat_sat_add [nat_of_word]:
  "unat (sat_add a b) = min (2 ^ LENGTH('a) - 1) (unat a + unat (b :: 'a::len word))"
proof (cases "unat a + unat b < 2 ^ LENGTH('a)")
  case True
  then show ?thesis
    by (auto simp: sat_add_def unat_add_no_wrap)
next
  case False
  then show ?thesis
    by (simp add: sat_add_def unat_max_word)
qed

lemma unat_sat_sub [nat_of_word]:
  "unat (sat_sub a b) = unat a - unat (b :: 'a::len word)"
  by (auto simp: sat_sub_def unat_sub_no_wrap word_le_nat_alt)

lemma sat_add_0 [simp]: "sat_add a 0 = a"
  by (simp add: sat_add_def)

lemma sat_add_no_wrap:
  "unat a + unat b < 2 ^ LENGTH('a) \<Longrightarrow> sat_add a b = a + (b :: 'a::len word)"
  by (simp add: sat_add_def)

lemma le_sat_add: "a \<le> sat_add a (b :: 'a::len word)"
proof -
  have "unat a < 2 ^ LENGTH('a)" by simp
  then have "unat a \<le> 2 ^ LENGTH('a) - 1" by linarith
  then show ?thesis
    by (simp add: word_le_nat_alt unat_sat_add)
qed

lemma is_multiple_of_unat: "b \<noteq> 0 \<Longrightarrow> is_multiple_of a b \<longleftrightarrow> unat a mod unat b = 0"
  by (auto simp: is_multiple_of_def unat_mod_distrib [symmetric] unat_eq_zero)

section \<open>The outcome of a call\<close>

text \<open>
  A Rust function of type \<open>Result<T, E>\<close> that returns has outcome \<open>Ok\<close> or \<open>Err\<close>; a panic (a
  slice out of bounds, an \<open>unwrap\<close> of an error) is the third outcome, and \<open>Diverges\<close> stands for a
  call that does not return because a loop of the source does not end. The state the function
  mutated is returned beside the outcome, whatever it is: a mutation made before an \<open>Err\<close> stays.
\<close>

datatype ('e, 'a) outcome = Ok 'a | Err 'e | Panic | Diverges

fun and_then ::
  "('e, 'a) outcome \<times> 's \<Rightarrow> ('a \<Rightarrow> 's \<Rightarrow> ('e, 'b) outcome \<times> 's) \<Rightarrow> ('e, 'b) outcome \<times> 's"
where
  "and_then (Ok a, s) k = k a s"
| "and_then (Err e, s) k = (Err e, s)"
| "and_then (Panic, s) k = (Panic, s)"
| "and_then (Diverges, s) k = (Diverges, s)"

lemma and_then_assoc:
  "and_then (and_then r f) g = and_then r (\<lambda>a s. and_then (f a s) g)"
  by (cases "(r, f)" rule: and_then.cases) simp_all

lemma and_then_return [simp]: "and_then r (\<lambda>a s. (Ok a, s)) = r"
  by (cases r; cases "fst r") auto

lemma and_then_Ok [outcome_elim]:
  "and_then r k = (Ok b, t) \<longleftrightarrow> (\<exists>a s. r = (Ok a, s) \<and> k a s = (Ok b, t))"
  by (cases "(r, k)" rule: and_then.cases) auto

lemma and_then_Err:
  "and_then r k = (Err e, t) \<longleftrightarrow>
     r = (Err e, t) \<or> (\<exists>a s. r = (Ok a, s) \<and> k a s = (Err e, t))"
  by (cases "(r, k)" rule: and_then.cases) auto

lemma and_then_keeps:
  assumes "P (snd r)"
    and "\<And>a s. r = (Ok a, s) \<Longrightarrow> P s \<Longrightarrow> P (snd (k a s))"
  shows "P (snd (and_then r k))"
  using assms by (cases "(r, k)" rule: and_then.cases) auto

lemma and_then_cong [fundef_cong]:
  assumes "r = r'" and "\<And>a s. r' = (Ok a, s) \<Longrightarrow> k a s = k' a s"
  shows "and_then r k = and_then r' k'"
  using assms by (cases "(r', k')" rule: and_then.cases) auto

text \<open>\<open>keeps I f\<close>: running \<open>f\<close> from a state where \<open>I\<close> holds ends in one where \<open>I\<close> holds.\<close>

definition keeps :: "('s \<Rightarrow> bool) \<Rightarrow> ('s \<Rightarrow> 'r \<times> 's) \<Rightarrow> bool" where
  "keeps I f \<longleftrightarrow> (\<forall>s. I s \<longrightarrow> I (snd (f s)))"

lemma keepsI [intro]: "(\<And>s. I s \<Longrightarrow> I (snd (f s))) \<Longrightarrow> keeps I f"
  by (simp add: keeps_def)

lemma keepsD [dest]: "keeps I f \<Longrightarrow> I s \<Longrightarrow> I (snd (f s))"
  by (simp add: keeps_def)

section \<open>Lists\<close>

lemma find_None_iff_none: "List.find p xs = None \<longleftrightarrow> (\<forall>x \<in> set xs. \<not> p x)"
  by (auto simp: find_None_iff)

lemma find_Some_mem: "List.find p xs = Some x \<Longrightarrow> x \<in> set xs \<and> p x"
  by (auto simp: find_Some_iff)

end
