(* ===== verification/Vk_Types.thy ===== *)
theory Vk_Types
  imports Vk_Prelude
begin

text \<open>
  The enumerations and constants of \<open>src/src/vtype.rs\<close>, the error types of
  \<open>src/src/error.rs\<close> and the architecture defaults of \<open>src/src/arch/mod.rs\<close>. The messages of the
  errors are the source's strings. Unicorn's \<open>uc_error\<close> is the integer of the C enum, an
  \<open>io::Error\<close> is the errno it was made from.
\<close>

section \<open>vtype.rs\<close>

datatype Arch = X86 | X86_64

datatype Endianess = LittleEndian | BigEndian

datatype OsType = BareMetal | Linux

datatype LoaderType = Raw | Elf

datatype VState = NotSet | Running | Stopped | Ended

definition PAGE_SIZE :: u64 where "PAGE_SIZE = 0x1000"
definition MAX_PATH_LEN :: nat where "MAX_PATH_LEN = 4096"
definition ARCH_SET_GS :: u64 where "ARCH_SET_GS = 0x1001"
definition ARCH_SET_FS :: u64 where "ARCH_SET_FS = 0x1002"
definition ARCH_GET_FS :: u64 where "ARCH_GET_FS = 0x1003"
definition ARCH_GET_GS :: u64 where "ARCH_GET_GS = 0x1004"
definition UTSNAME_LEN :: nat where "UTSNAME_LEN = 65"

lemmas arch_prctl_codes = ARCH_SET_GS_def ARCH_SET_FS_def ARCH_GET_FS_def ARCH_GET_GS_def

lemma unat_PAGE_SIZE [nat_of_word]: "unat PAGE_SIZE = 4096"
  by (simp add: PAGE_SIZE_def)

lemma PAGE_SIZE_not_0 [simp]: "PAGE_SIZE \<noteq> 0"
  by (simp add: PAGE_SIZE_def)

section \<open>error.rs\<close>

type_synonym uc_error = nat
type_synonym errno = i32

datatype FsError =
    FileAlreadyHasFd u64
  | SocketAlreadyHasFd u64
  | NoFileAtFd u64
  | PoisonedFdTable
  | CurrentDirError

datatype StructError =
    UnsupportedBitness
  | BufferTooSmall (expected: nat) (got: nat)

datatype ValkyrieError =
    BadConfig string
  | Io errno
  | NotImplemented string
  | StructConversion string
  | UnsupportedArch Arch
  | UnicornGeneralError string
  | UnicornErr uc_error
  | HookErr string
  | HookNotHandled string
  | LoaderErr string
  | Disassembler string
  | UnknownSyscall u64
  | UnknownSyscallName string
  | FsErr FsError

type_synonym 'a vk_outcome = "(ValkyrieError, 'a) outcome"

section \<open>arch/mod.rs\<close>

definition defaults_for_arch :: "Arch \<Rightarrow> Endianess \<times> u16" where
  "defaults_for_arch a = (case a of X86 \<Rightarrow> (LittleEndian, 32) | X86_64 \<Rightarrow> (LittleEndian, 64))"

end
