(* ===== verification/Vk_Bytes.thy ===== *)
theory Vk_Bytes
  imports Vk_Types
begin

text \<open>
  Rust's \<open>to_le_bytes\<close>, \<open>from_le_bytes\<close> and their big-endian twins on words of any width, and the
  interface \<open>fixed_codec\<close> of a fixed-width encoding. The integer encodings of the emulator
  (little and big endian, 16, 32 and 64 bits) are interpretations of it; packed structures and
  guest memory words use the laws through them.
\<close>

section \<open>Bytes of a word\<close>

definition le_bytes :: "nat \<Rightarrow> 'a::len word \<Rightarrow> bytes" where
  "le_bytes n x = map (\<lambda>i. ucast (drop_bit (8 * i) x)) [0..<n]"

fun from_le :: "bytes \<Rightarrow> 'a::len word" where
  "from_le [] = 0"
| "from_le (b # bs) = ucast b OR push_bit 8 (from_le bs)"

definition to_le_bytes :: "'a::len word \<Rightarrow> bytes" where
  "to_le_bytes x = le_bytes (LENGTH('a) div 8) x"

definition to_be_bytes :: "'a::len word \<Rightarrow> bytes" where
  "to_be_bytes x = rev (to_le_bytes x)"

definition from_be :: "bytes \<Rightarrow> 'a::len word" where
  "from_be bs = from_le (rev bs)"

lemma length_le_bytes [simp]: "length (le_bytes n x) = n"
  by (simp add: le_bytes_def)

lemma length_to_le_bytes [simp]: "length (to_le_bytes (x :: 'a::len word)) = LENGTH('a) div 8"
  by (simp add: to_le_bytes_def)

lemma length_to_be_bytes [simp]: "length (to_be_bytes (x :: 'a::len word)) = LENGTH('a) div 8"
  by (simp add: to_be_bytes_def)

lemma take_le_bytes: "k \<le> n \<Longrightarrow> take k (le_bytes n x) = le_bytes k x"
  by (simp add: le_bytes_def take_map take_upt)

lemma bit_from_le:
  "bit (from_le bs :: 'a::len word) i \<longleftrightarrow>
     i < LENGTH('a) \<and> i div 8 < length bs \<and> bit (bs ! (i div 8)) (i mod 8)"
proof (induction bs arbitrary: i)
  case Nil
  then show ?case by simp
next
  case (Cons b bs)
  show ?case
  proof (cases "i < 8")
    case True
    then show ?thesis
      by (simp add: bit_or_iff bit_push_bit_iff bit_ucast_iff)
  next
    case False
    then obtain j where j: "i = 8 + j"
      using le_Suc_ex not_less by blast
    have "\<not> bit b i"
      using False by (auto dest: bit_imp_le_length)
    moreover have "i div 8 = Suc (j div 8)" and "i mod 8 = j mod 8"
      using j by simp_all
    ultimately show ?thesis
      using j Cons.IH [of j] by (auto simp: bit_or_iff bit_push_bit_iff bit_ucast_iff)
  qed
qed

lemma bit_nth_le_bytes:
  "k < n \<Longrightarrow> bit (le_bytes n x ! k) i \<longleftrightarrow> i < 8 \<and> bit x (8 * k + i)"
  by (auto simp: le_bytes_def bit_ucast_iff bit_drop_bit_eq add.commute)

text \<open>Reading the first \<open>n\<close> bytes back gives the value truncated to \<open>8 * n\<close> bits.\<close>

lemma from_le_le_bytes:
  "(from_le (le_bytes n x) :: 'b::len word) = ucast (take_bit (8 * n) (x :: 'a::len word))"
proof (rule bit_word_eqI)
  fix i assume "i < LENGTH('b)"
  have "i div 8 < n \<longleftrightarrow> i < 8 * n"
    by (simp add: div_less_iff_less_mult mult.commute)
  then show "bit (from_le (le_bytes n x) :: 'b word) i \<longleftrightarrow> bit (ucast (take_bit (8 * n) x) :: 'b word) i"
    using \<open>i < LENGTH('b)\<close>
    by (auto simp: bit_from_le bit_nth_le_bytes bit_ucast_iff bit_take_bit_iff)
qed

lemma le_bytes_from_le:
  assumes "length bs = n" and "8 * n \<le> LENGTH('a)"
  shows "le_bytes n (from_le bs :: 'a::len word) = bs"
proof (rule nth_equalityI)
  fix k assume "k < length (le_bytes n (from_le bs :: 'a word))"
  then have k: "k < n" by simp
  show "le_bytes n (from_le bs :: 'a word) ! k = bs ! k"
  proof (rule bit_word_eqI)
    fix i assume "i < LENGTH(8)"
    then have "i < 8" by simp
    with k assms show "bit (le_bytes n (from_le bs :: 'a word) ! k) i \<longleftrightarrow> bit (bs ! k) i"
      by (auto simp: bit_nth_le_bytes bit_from_le)
  qed
qed (simp add: assms)

lemma from_le_append_zeros: "from_le (bs @ replicate m 0) = from_le bs"
proof (rule bit_word_eqI)
  fix i
  show "bit (from_le (bs @ replicate m 0) :: 'a word) i \<longleftrightarrow> bit (from_le bs :: 'a word) i"
    by (auto simp: bit_from_le nth_append)
qed

section \<open>The interface of a fixed-width encoding\<close>

locale fixed_codec =
  fixes enc :: "'v \<Rightarrow> bytes" and dec :: "bytes \<Rightarrow> 'v" and width :: nat
  assumes length_enc: "length (enc v) = width"
    and dec_enc: "dec (enc v) = v"
    and enc_dec: "length bs = width \<Longrightarrow> enc (dec bs) = bs"
begin

lemma enc_eq_iff: "enc v = enc w \<longleftrightarrow> v = w"
  by (metis dec_enc)

lemma dec_take: "dec (take width (enc v @ rest)) = v"
  by (simp add: length_enc dec_enc)

lemma enc_append_eq_iff: "enc v @ xs = enc w @ ys \<longleftrightarrow> v = w \<and> xs = ys"
  by (metis append_eq_append_conv enc_eq_iff length_enc)

lemma dec_eq_iff: "length bs = width \<Longrightarrow> dec bs = v \<longleftrightarrow> bs = enc v"
  by (metis dec_enc enc_dec)

end

lemma from_le_to_le:
  assumes "8 dvd LENGTH('a)"
  shows "from_le (to_le_bytes x) = (x :: 'a::len word)"
  using assms by (simp add: to_le_bytes_def from_le_le_bytes take_bit_word_eq_self)

lemma to_le_from_le:
  assumes "8 dvd LENGTH('a)" and "length bs = LENGTH('a) div 8"
  shows "to_le_bytes (from_le bs :: 'a::len word) = bs"
  using assms by (simp add: to_le_bytes_def le_bytes_from_le)

interpretation le16: fixed_codec "to_le_bytes :: u16 \<Rightarrow> bytes" from_le 2
  by unfold_locales (simp_all add: from_le_to_le to_le_from_le)

interpretation le32: fixed_codec "to_le_bytes :: u32 \<Rightarrow> bytes" from_le 4
  by unfold_locales (simp_all add: from_le_to_le to_le_from_le)

interpretation le64: fixed_codec "to_le_bytes :: u64 \<Rightarrow> bytes" from_le 8
  by unfold_locales (simp_all add: from_le_to_le to_le_from_le)

interpretation be16: fixed_codec "to_be_bytes :: u16 \<Rightarrow> bytes" from_be 2
  by unfold_locales (simp_all add: to_be_bytes_def from_be_def from_le_to_le to_le_from_le)

interpretation be32: fixed_codec "to_be_bytes :: u32 \<Rightarrow> bytes" from_be 4
  by unfold_locales (simp_all add: to_be_bytes_def from_be_def from_le_to_le to_le_from_le)

interpretation be64: fixed_codec "to_be_bytes :: u64 \<Rightarrow> bytes" from_be 8
  by unfold_locales (simp_all add: to_be_bytes_def from_be_def from_le_to_le to_le_from_le)

end
