(* ===== verification/Vk_Vstruct.thy ===== *)
theory Vk_Vstruct
  imports Vk_Bytes
begin

text \<open>
  \<open>src/src/vstruct.rs\<close>: packing and unpacking of integers at the guest's width and byte order. A
  signed value is the word of its two's complement; widening a signed result is sign extension
  (\<open>scast\<close>), widening an unsigned one is \<open>ucast\<close>. The \<open>unreachable!()\<close> arms are \<open>Panic\<close>.
\<close>

section \<open>The structure and its constructor\<close>

record VCoreStructs =
  vs_endian :: Endianess
  vs_bit :: u16

definition vcs_new :: "Endianess \<Rightarrow> u16 \<Rightarrow> (StructError, VCoreStructs) outcome" where
  "vcs_new e b =
     (if b = 16 \<or> b = 32 \<or> b = 64 then Ok \<lparr>vs_endian = e, vs_bit = b\<rparr>
      else Err UnsupportedBitness)"

section \<open>Reading a fixed number of bytes\<close>

definition take_exact :: "nat \<Rightarrow> bytes \<Rightarrow> (StructError, bytes) outcome" where
  "take_exact n buf =
     (if length buf < n then Err (BufferTooSmall n (length buf)) else Ok (take n buf))"

section \<open>One width at a time\<close>

definition pack64 :: "VCoreStructs \<Rightarrow> u64 \<Rightarrow> bytes" where
  "pack64 s x = (case vs_endian s of LittleEndian \<Rightarrow> to_le_bytes x | BigEndian \<Rightarrow> to_be_bytes x)"

definition pack64s :: "VCoreStructs \<Rightarrow> i64 \<Rightarrow> bytes" where
  "pack64s s x = (case vs_endian s of LittleEndian \<Rightarrow> to_le_bytes x | BigEndian \<Rightarrow> to_be_bytes x)"

definition unpack64 :: "VCoreStructs \<Rightarrow> bytes \<Rightarrow> (StructError, u64) outcome" where
  "unpack64 s buf = map_outcome id
     (\<lambda>b. case vs_endian s of LittleEndian \<Rightarrow> from_le b | BigEndian \<Rightarrow> from_be b)
     (take_exact 8 buf)"

definition unpack64s :: "VCoreStructs \<Rightarrow> bytes \<Rightarrow> (StructError, i64) outcome" where
  "unpack64s s buf = map_outcome id
     (\<lambda>b. case vs_endian s of LittleEndian \<Rightarrow> from_le b | BigEndian \<Rightarrow> from_be b)
     (take_exact 8 buf)"

definition pack32 :: "VCoreStructs \<Rightarrow> u32 \<Rightarrow> bytes" where
  "pack32 s x = (case vs_endian s of LittleEndian \<Rightarrow> to_le_bytes x | BigEndian \<Rightarrow> to_be_bytes x)"

definition pack32s :: "VCoreStructs \<Rightarrow> i32 \<Rightarrow> bytes" where
  "pack32s s x = (case vs_endian s of LittleEndian \<Rightarrow> to_le_bytes x | BigEndian \<Rightarrow> to_be_bytes x)"

definition unpack32 :: "VCoreStructs \<Rightarrow> bytes \<Rightarrow> (StructError, u32) outcome" where
  "unpack32 s buf = map_outcome id
     (\<lambda>b. case vs_endian s of LittleEndian \<Rightarrow> from_le b | BigEndian \<Rightarrow> from_be b)
     (take_exact 4 buf)"

definition unpack32s :: "VCoreStructs \<Rightarrow> bytes \<Rightarrow> (StructError, i32) outcome" where
  "unpack32s s buf = map_outcome id
     (\<lambda>b. case vs_endian s of LittleEndian \<Rightarrow> from_le b | BigEndian \<Rightarrow> from_be b)
     (take_exact 4 buf)"

definition pack16 :: "VCoreStructs \<Rightarrow> u16 \<Rightarrow> bytes" where
  "pack16 s x = (case vs_endian s of LittleEndian \<Rightarrow> to_le_bytes x | BigEndian \<Rightarrow> to_be_bytes x)"

definition pack16s :: "VCoreStructs \<Rightarrow> u16 \<Rightarrow> bytes" where
  "pack16s s x = (case vs_endian s of LittleEndian \<Rightarrow> to_le_bytes x | BigEndian \<Rightarrow> to_be_bytes x)"

definition unpack16 :: "VCoreStructs \<Rightarrow> bytes \<Rightarrow> (StructError, u16) outcome" where
  "unpack16 s buf = map_outcome id
     (\<lambda>b. case vs_endian s of LittleEndian \<Rightarrow> from_le b | BigEndian \<Rightarrow> from_be b)
     (take_exact 2 buf)"

definition unpack16s :: "VCoreStructs \<Rightarrow> bytes \<Rightarrow> (StructError, u16) outcome" where
  "unpack16s s buf = map_outcome id
     (\<lambda>b. case vs_endian s of LittleEndian \<Rightarrow> from_le b | BigEndian \<Rightarrow> from_be b)
     (take_exact 2 buf)"

definition pack8 :: "u8 \<Rightarrow> bytes" where "pack8 x = [x]"

definition pack8s :: "u8 \<Rightarrow> bytes" where "pack8s x = [x]"

definition unpack8 :: "bytes \<Rightarrow> (StructError, u8) outcome" where
  "unpack8 buf = (case buf of [] \<Rightarrow> Err (BufferTooSmall 1 (length buf)) | b # _ \<Rightarrow> Ok b)"

definition unpack8s :: "bytes \<Rightarrow> (StructError, u8) outcome" where
  "unpack8s buf = (case buf of [] \<Rightarrow> Err (BufferTooSmall 1 (length buf)) | b # _ \<Rightarrow> Ok b)"

lemmas vstruct_defs =
  pack64_def pack64s_def unpack64_def unpack64s_def pack32_def pack32s_def unpack32_def
  unpack32s_def pack16_def pack16s_def unpack16_def unpack16s_def take_exact_def

section \<open>At the guest's width\<close>

definition pack :: "VCoreStructs \<Rightarrow> u64 \<Rightarrow> (StructError, bytes) outcome" where
  "pack s x =
     (if vs_bit s = 64 then Ok (pack64 s x)
      else if vs_bit s = 32 then Ok (pack32 s (ucast x))
      else if vs_bit s = 16 then Ok (pack16 s (ucast x))
      else Panic)"

definition packs :: "VCoreStructs \<Rightarrow> i64 \<Rightarrow> (StructError, bytes) outcome" where
  "packs s x =
     (if vs_bit s = 64 then Ok (pack64s s x)
      else if vs_bit s = 32 then Ok (pack32s s (ucast x))
      else if vs_bit s = 16 then Ok (pack16s s (ucast x))
      else Panic)"

definition unpack :: "VCoreStructs \<Rightarrow> bytes \<Rightarrow> (StructError, u64) outcome" where
  "unpack s buf =
     (if vs_bit s = 64 then unpack64 s buf
      else if vs_bit s = 32 then map_outcome id ucast (unpack32 s buf)
      else if vs_bit s = 16 then map_outcome id ucast (unpack16 s buf)
      else Panic)"

definition unpacks :: "VCoreStructs \<Rightarrow> bytes \<Rightarrow> (StructError, i64) outcome" where
  "unpacks s buf =
     (if vs_bit s = 64 then unpack64s s buf
      else if vs_bit s = 32 then map_outcome id scast (unpack32s s buf)
      else if vs_bit s = 16 then map_outcome id scast (unpack16s s buf)
      else Panic)"

section \<open>Round trips\<close>

lemma vcs_new_Ok [outcome_elim]:
  "vcs_new e b = Ok s \<longleftrightarrow> s = \<lparr>vs_endian = e, vs_bit = b\<rparr> \<and> (b = 16 \<or> b = 32 \<or> b = 64)"
  by (auto simp: vcs_new_def)

lemma unpack64_pack64 [simp]: "unpack64 s (pack64 s x @ rest) = Ok x"
  by (cases "vs_endian s") (simp_all add: vstruct_defs le64.dec_enc be64.dec_enc)

lemma unpack32_pack32 [simp]: "unpack32 s (pack32 s x @ rest) = Ok x"
  by (cases "vs_endian s") (simp_all add: vstruct_defs le32.dec_enc be32.dec_enc)

lemma unpack16_pack16 [simp]: "unpack16 s (pack16 s x @ rest) = Ok x"
  by (cases "vs_endian s") (simp_all add: vstruct_defs le16.dec_enc be16.dec_enc)

text \<open>The signed functions work on the same two's complement words.\<close>

lemma signed_same [simp]:
  "pack64s = pack64" "pack32s = pack32" "pack16s = pack16"
  "unpack64s = unpack64" "unpack32s = unpack32" "unpack16s = unpack16"
  by (simp_all add: fun_eq_iff vstruct_defs)

lemma length_pack [simp]:
  "length (pack64 s x) = 8" "length (pack32 s y) = 4" "length (pack16 s z) = 2"
  by (cases "vs_endian s"; simp add: vstruct_defs)+

lemma ucast_down_up: "(ucast (ucast (x :: u64) :: 'a::len word) :: u64) = take_bit LENGTH('a) x"
  by (rule bit_word_eqI) (auto simp: bit_ucast_iff bit_take_bit_iff)

lemma scast_ucast_32: "(scast (ucast (x :: u64) :: u32) :: u64) = signed_take_bit 31 x"
  by (rule bit_word_eqI) (auto simp: bit_signed_iff bit_ucast_iff bit_signed_take_bit_iff min_def)

lemma scast_ucast_16: "(scast (ucast (x :: u64) :: u16) :: u64) = signed_take_bit 15 x"
  by (rule bit_word_eqI) (auto simp: bit_signed_iff bit_ucast_iff bit_signed_take_bit_iff min_def)

lemma signed_take_bit_full: "signed_take_bit 63 (x :: u64) = x"
proof (rule bit_word_eqI)
  fix n assume "n < LENGTH(64)"
  then have "min 63 n = n" by simp
  then show "bit (signed_take_bit 63 x) n \<longleftrightarrow> bit x n"
    using \<open>n < LENGTH(64)\<close> by (simp add: bit_signed_take_bit_iff)
qed

text \<open>
  C37: packing at the guest's width then unpacking, whatever follows in the buffer, gives the value
  truncated to that width; a structure built by the constructor never panics.
\<close>

theorem unpack_pack_truncates:
  assumes "vcs_new e b = Ok s"
  shows "\<exists>bs. pack s x = Ok bs \<and> length bs = unat b div 8
           \<and> unpack s (bs @ rest) = Ok (take_bit (unat b) x)"
  using assms
  by (auto simp: outcome_elim pack_def unpack_def ucast_down_up take_bit_word_eq_self)

theorem unpack_pack_truncates_witness:
  "\<exists>bs. pack \<lparr>vs_endian = BigEndian, vs_bit = 16\<rparr> 0x12345 = Ok bs \<and> length bs = 2
      \<and> unpack \<lparr>vs_endian = BigEndian, vs_bit = 16\<rparr> (bs @ [7]) = Ok 0x2345"
  using unpack_pack_truncates [of BigEndian 16 "\<lparr>vs_endian = BigEndian, vs_bit = 16\<rparr>" "0x12345" "[7]"]
  by (simp add: vcs_new_def)

text \<open>
  The signed round trip gives the value sign-extended from the guest's width.
\<close>

theorem unpacks_packs_sign_extends:
  assumes "vcs_new e b = Ok s"
  shows "\<exists>bs. packs s x = Ok bs \<and> length bs = unat b div 8
           \<and> unpacks s (bs @ rest) = Ok (signed_take_bit (unat b - 1) x)"
  using assms
  by (auto simp: outcome_elim packs_def unpacks_def scast_ucast_32 scast_ucast_16
      signed_take_bit_full)

theorem unpacks_packs_sign_extends_witness:
  "\<exists>bs. packs \<lparr>vs_endian = LittleEndian, vs_bit = 32\<rparr> (- 2) = Ok bs \<and> length bs = 4
      \<and> unpacks \<lparr>vs_endian = LittleEndian, vs_bit = 32\<rparr> (bs @ []) = Ok (- 2)"
  using unpacks_packs_sign_extends
    [of LittleEndian 32 "\<lparr>vs_endian = LittleEndian, vs_bit = 32\<rparr>" "- 2" "[]"]
  by (simp add: vcs_new_def)

text \<open>
  Unpacking fails on exactly the buffers shorter than the width, with the two lengths in the
  error, and otherwise reads the first bytes only; it never panics.
\<close>

theorem unpack_error_iff_short:
  assumes "vcs_new e b = Ok s"
  shows "unpack s buf =
    (if length buf < unat b div 8 then Err (BufferTooSmall (unat b div 8) (length buf))
     else unpack s (take (unat b div 8) buf))
    \<and> (unat b div 8 \<le> length buf \<longrightarrow> (\<exists>v. unpack s buf = Ok v \<and> unat v < 2 ^ unat b))"
proof -
  have small: "unat (ucast (w :: u32) :: u64) < 2 ^ 32" "unat (ucast (v :: u16) :: u64) < 2 ^ 16"
    for w v
    using unsigned_less [of w, where 'a = nat] unsigned_less [of v, where 'a = nat]
    by (simp_all add: unsigned_ucast_eq take_bit_nat_eq_self)
  show ?thesis
    using assms small
    by (auto simp: outcome_elim unpack_def vstruct_defs split: Endianess.splits)
qed

theorem unpack_error_iff_short_witness:
  "unpack \<lparr>vs_endian = LittleEndian, vs_bit = 32\<rparr> [1, 2, 3] = Err (BufferTooSmall 4 3)"
  using unpack_error_iff_short
    [of LittleEndian 32 "\<lparr>vs_endian = LittleEndian, vs_bit = 32\<rparr>" "[1, 2, 3]"]
  by (simp add: vcs_new_def)

end
