(* ===== verification/Vk_Align.thy ===== *)
theory Vk_Align
  imports Vk_Types
begin

text \<open>
  Alignment of addresses (\<open>align_down\<close> and \<open>align_up\<close> of \<open>src/src/common.rs\<close>). The additions wrap
  around as in a release build: aligning up an address of the last page gives 0, which
  \<open>align_up_wraps\<close> states and the callers have to exclude.
\<close>

definition align_down :: "u64 \<Rightarrow> u64 \<Rightarrow> u64" where
  "align_down value align = (if align = 0 then value else value AND NOT (align - 1))"

definition align_up :: "u64 \<Rightarrow> u64 \<Rightarrow> u64" where
  "align_up value align = (if align = 0 then value else (value + align - 1) AND NOT (align - 1))"

lemma and_not_mask: "(v :: 'a::len word) AND NOT (mask k) = v - take_bit k v"
proof -
  have "NOT v AND take_bit k v = 0"
    by (rule bit_word_eqI) (auto simp: bit_simps)
  then have "v - take_bit k v = v AND NOT (take_bit k v)"
    by (rule disjunctive_diff_eq_and_not)
  also have "\<dots> = v AND NOT (mask k)"
    by (rule bit_word_eqI) (auto simp: bit_simps)
  finally show ?thesis by simp
qed

lemma unat_and_not_mask:
  "unat ((v :: 'a::len word) AND NOT (mask k)) = 2 ^ k * (unat v div 2 ^ k)"
proof -
  have *: "unat (take_bit k v) = unat v mod 2 ^ k"
    by (simp add: unsigned_take_bit_eq flip: take_bit_eq_mod)
  then have "take_bit k v \<le> v"
    by (simp add: word_le_nat_alt)
  then show ?thesis
    by (simp add: and_not_mask unat_sub * minus_mod_eq_mult_div)
qed

lemma page_mask: "PAGE_SIZE - 1 = mask 12"
  by (simp add: PAGE_SIZE_def mask_eq_exp_minus_1)

lemma unat_align_down_page [nat_of_word]:
  "unat (align_down v PAGE_SIZE) = 4096 * (unat v div 4096)"
  unfolding align_down_def page_mask using unat_and_not_mask [of v 12] by simp

lemma align_up_page_eq: "align_up v PAGE_SIZE = (v + 4095) AND NOT (mask 12)"
proof -
  have "v + PAGE_SIZE - 1 = v + 4095"
    by (simp add: PAGE_SIZE_def)
  then show ?thesis
    by (simp only: align_up_def page_mask PAGE_SIZE_not_0 if_False)
qed

lemma unat_align_up_page:
  assumes "unat v + 4095 < 2 ^ 64"
  shows "unat (align_up v PAGE_SIZE) = 4096 * ((unat v + 4095) div 4096)"
proof -
  have "unat (v + 4095) = unat v + 4095"
    using assms by (simp add: unat_add_no_wrap)
  then show ?thesis
    unfolding align_up_page_eq using unat_and_not_mask [of "v + 4095" 12] by simp
qed

lemma round_up_ge: "0 < d \<Longrightarrow> n \<le> d * ((n + (d - 1)) div d)" for n d :: nat
proof -
  assume "0 < d"
  define q where "q = (n + (d - 1)) div d"
  have "n + (d - 1) = d * q + (n + (d - 1)) mod d"
    unfolding q_def by (rule mult_div_mod_eq [symmetric])
  moreover have "(n + (d - 1)) mod d \<le> d - 1"
    using \<open>0 < d\<close> mod_less_divisor [of d "n + (d - 1)"] by linarith
  ultimately show ?thesis
    unfolding q_def by linarith
qed

lemma round_up_least: "0 < d \<Longrightarrow> n \<le> d * k \<Longrightarrow> d * ((n + (d - 1)) div d) \<le> d * k" for n d k :: nat
proof -
  assume "0 < d" and "n \<le> d * k"
  then have "n + (d - 1) < Suc k * d"
    by (simp add: mult.commute)
  then have "(n + (d - 1)) div d < Suc k"
    by (rule less_mult_imp_div_less)
  then show ?thesis
    by (intro mult_le_mono2) (rule less_Suc_eq_le [THEN iffD1])
qed

lemma page_aligned_bound:
  assumes "unat (v :: u64) mod 4096 = 0" shows "unat v \<le> 2 ^ 64 - 4096"
proof -
  obtain k where k: "unat v = 4096 * k"
    using assms by (auto elim: dvdE simp: mod_eq_0_iff_dvd)
  then have "k < 2 ^ 52"
    using unat_bound [of v] by simp
  then show ?thesis
    using k by simp
qed

text \<open>
  Away from the top of the address space, aligning up to the page size gives the least page
  boundary not below the address.
\<close>

theorem align_up_least:
  assumes "unat v \<le> 2 ^ 64 - 4096"
  shows "unat (align_up v PAGE_SIZE) mod 4096 = 0
    \<and> unat v \<le> unat (align_up v PAGE_SIZE)
    \<and> (\<forall>m. m mod 4096 = 0 \<and> unat v \<le> m \<longrightarrow> unat (align_up v PAGE_SIZE) \<le> m)"
proof -
  have up: "unat (align_up v PAGE_SIZE) = 4096 * ((unat v + 4095) div 4096)"
    using assms by (intro unat_align_up_page) simp
  have "4096 * ((unat v + 4095) div 4096) \<le> m" if "m mod 4096 = 0" and "unat v \<le> m" for m
    using that round_up_least [of 4096 "unat v" "m div 4096"] by (auto simp: mod_eq_0_iff_dvd)
  then show ?thesis
    unfolding up using round_up_ge [of 4096 "unat v"] by simp
qed

theorem align_up_least_witness:
  "unat (align_up 0x401234 PAGE_SIZE) mod 4096 = 0
    \<and> unat (0x401234 :: u64) \<le> unat (align_up 0x401234 PAGE_SIZE)
    \<and> align_up 0x401234 PAGE_SIZE = 0x402000"
  using align_up_least [of "0x401234"] by (simp add: align_up_def PAGE_SIZE_def)

text \<open>The last page: the sum wraps around and the result is 0.\<close>

lemma align_up_wraps:
  assumes "2 ^ 64 - 4096 < unat v"
  shows "align_up v PAGE_SIZE = 0"
proof -
  have "unat (v + 4095) = unat v + 4095 - 2 ^ 64"
    using assms by (simp add: unat_plus_if')
  moreover have "unat v < 18446744073709551617"
    using unat_bound [of v] by linarith
  then have "unat v + 4095 - 2 ^ 64 < 4096"
    using assms by simp
  ultimately have "unat (align_up v PAGE_SIZE) = 0"
    unfolding align_up_page_eq using unat_and_not_mask [of "v + 4095" 12] by simp
  then show ?thesis
    by (simp add: unat_eq_zero)
qed

lemma align_up_self:
  assumes "unat v mod 4096 = 0" shows "align_up v PAGE_SIZE = v"
proof -
  obtain k where k: "unat v = 4096 * k"
    using assms by (auto elim: dvdE simp: mod_eq_0_iff_dvd)
  have "unat (align_up v PAGE_SIZE) = 4096 * ((unat v + 4095) div 4096)"
    using page_aligned_bound [OF assms] by (intro unat_align_up_page) simp
  also have "\<dots> = unat v"
    unfolding k by simp
  finally show ?thesis
    by (simp add: word_unat_eq_iff)
qed

lemma align_up_ge: "unat v \<le> 2 ^ 64 - 4096 \<Longrightarrow> v \<le> align_up v PAGE_SIZE"
  using round_up_ge [of 4096 "unat v"]
  by (simp add: word_le_nat_alt unat_align_up_page)

end
