(* ===== verification/Vk_Regions.thy ===== *)
theory Vk_Regions
  imports Vk_Align
begin

text \<open>
  The address space bookkeeping: the list of \<open>VMemRegion\<close> that \<open>VMemory\<close> of \<open>src/src/memory.rs\<close> keeps
  beside the engine's own map, with the operations that work on the list alone (\<open>region_for\<close>,
  \<open>remove_range\<close>, the search of \<open>next_mmap_addr\<close>, the limits of \<open>sys_brk\<close>, the update of
  \<open>sys_mprotect\<close>).

  The abstract view of a list is the partial map \<open>region_at\<close> from an address (a \<open>nat\<close>) to the
  protection and the label of the first region that contains it. The locale \<open>address_book\<close> is
  what the memory system calls rely on; \<open>book\<close> is its interpretation on the source's list.
\<close>

section \<open>Data\<close>

text \<open>Unicorn's \<open>Prot\<close> flags: the code builds every value from READ, WRITE and EXEC.\<close>

record Prot =
  p_read :: bool
  p_write :: bool
  p_exec :: bool

definition Prot_NONE :: Prot where
  "Prot_NONE = \<lparr>p_read = False, p_write = False, p_exec = False\<rparr>"

definition Prot_READ :: Prot where
  "Prot_READ = \<lparr>p_read = True, p_write = False, p_exec = False\<rparr>"

definition Prot_WRITE :: Prot where
  "Prot_WRITE = \<lparr>p_read = False, p_write = True, p_exec = False\<rparr>"

definition Prot_EXEC :: Prot where
  "Prot_EXEC = \<lparr>p_read = False, p_write = False, p_exec = True\<rparr>"

definition Prot_ALL :: Prot where
  "Prot_ALL = \<lparr>p_read = True, p_write = True, p_exec = True\<rparr>"

definition prot_or :: "Prot \<Rightarrow> Prot \<Rightarrow> Prot" where
  "prot_or p q = \<lparr>p_read = p_read p \<or> p_read q, p_write = p_write p \<or> p_write q,
     p_exec = p_exec p \<or> p_exec q\<rparr>"

lemmas prot_defs =
  Prot_NONE_def Prot_READ_def Prot_WRITE_def Prot_EXEC_def Prot_ALL_def prot_or_def

record VMemRegion =
  r_start :: u64
  r_size :: u64
  r_prot :: Prot
  r_info :: string

abbreviation region_end :: "VMemRegion \<Rightarrow> u64" where
  "region_end r \<equiv> sat_add (r_start r) (r_size r)"

section \<open>Operations of the list\<close>

definition region_for :: "VMemRegion list \<Rightarrow> u64 \<Rightarrow> VMemRegion option" where
  "region_for rs addr = List.find (\<lambda>r. addr \<ge> r_start r \<and> addr < r_start r + r_size r) rs"

text \<open>What one iteration of the loop of \<open>remove_range\<close> pushes for a region.\<close>

definition cut_region :: "u64 \<Rightarrow> u64 \<Rightarrow> VMemRegion \<Rightarrow> VMemRegion list" where
  "cut_region addr stop r =
     (if stop \<le> r_start r \<or> addr \<ge> region_end r then [r]
      else (if addr > r_start r then [r\<lparr>r_size := sat_sub addr (r_start r)\<rparr>] else [])
         @ (if stop < region_end r
            then [r\<lparr>r_start := stop, r_size := sat_sub (region_end r) stop\<rparr>] else []))"

definition remove_range :: "VMemRegion list \<Rightarrow> u64 \<Rightarrow> u64 \<Rightarrow> VMemRegion list" where
  "remove_range rs addr sz =
     (if sz = 0 then rs else concat (map (cut_region addr (sat_add addr sz)) rs))"

definition overlaps :: "u64 \<Rightarrow> u64 \<Rightarrow> VMemRegion \<Rightarrow> bool" where
  "overlaps candidate len r \<longleftrightarrow>
     candidate < region_end r \<and> sat_add candidate len > r_start r"

text \<open>
  The \<open>loop\<close> of \<open>next_mmap_addr\<close>. It need not end, so it is a partial function: \<open>None\<close> is a loop
  that never returns.
\<close>

partial_function (option) mmap_search :: "VMemRegion list \<Rightarrow> u64 \<Rightarrow> u64 \<Rightarrow> u64 option" where
  "mmap_search rs len candidate =
     (case List.find (overlaps candidate len) rs of
        Some r \<Rightarrow> mmap_search rs len (align_up (region_end r) PAGE_SIZE)
      | None \<Rightarrow> Some candidate)"

definition next_mmap_addr :: "VMemRegion list \<Rightarrow> u64 \<Rightarrow> u64 \<Rightarrow> u64 option" where
  "next_mmap_addr rs heap_exit len =
     mmap_search rs len (align_up (sat_add heap_exit 0x10000000) PAGE_SIZE)"

text \<open>The region updates of \<open>sys_mprotect\<close>: \<open>region.start + region.size\<close> wraps here.\<close>

definition protect_regions :: "u64 \<Rightarrow> u64 \<Rightarrow> Prot \<Rightarrow> VMemRegion list \<Rightarrow> VMemRegion list" where
  "protect_regions start stop p rs =
     map (\<lambda>r. if start < r_start r + r_size r \<and> stop > r_start r then r\<lparr>r_prot := p\<rparr> else r) rs"

text \<open>The two bounds \<open>sys_brk\<close> reads off the list; \<open>max\<close> and \<open>min\<close> of an iterator.\<close>

definition HEAP :: string where "HEAP = ''[heap]''"

definition mapped_heap_end :: "VMemRegion list \<Rightarrow> u64 \<Rightarrow> u64" where
  "mapped_heap_end rs heap_exit =
     (case map (\<lambda>r. r_start r + r_size r) (filter (\<lambda>r. r_info r = HEAP) rs) of
        [] \<Rightarrow> heap_exit
      | e # es \<Rightarrow> fold max es e)"

definition heap_limit :: "VMemRegion list \<Rightarrow> u64 \<Rightarrow> u64" where
  "heap_limit rs heap_end =
     (case map r_start (filter (\<lambda>r. r_start r \<ge> heap_end) (filter (\<lambda>r. r_info r \<noteq> HEAP) rs)) of
        [] \<Rightarrow> - 1
      | e # es \<Rightarrow> fold min es e)"

section \<open>The abstract view\<close>

definition in_region :: "VMemRegion \<Rightarrow> nat \<Rightarrow> bool" where
  "in_region r x \<longleftrightarrow> unat (r_start r) \<le> x \<and> x < unat (r_start r) + unat (r_size r)"

definition region_at :: "VMemRegion list \<Rightarrow> nat \<Rightarrow> (Prot \<times> string) option" where
  "region_at rs x = map_option (\<lambda>r. (r_prot r, r_info r)) (List.find (\<lambda>r. in_region r x) rs)"

definition covered :: "VMemRegion list \<Rightarrow> nat set" where
  "covered rs = {x. \<exists>r \<in> set rs. in_region r x}"

text \<open>A region is non-empty and its exclusive end is a \<open>u64\<close>, as the source takes it to be.\<close>

definition fit_region :: "VMemRegion \<Rightarrow> bool" where
  "fit_region r \<longleftrightarrow> 0 < r_size r \<and> unat (r_start r) + unat (r_size r) < 2 ^ 64"

definition apart :: "VMemRegion \<Rightarrow> VMemRegion \<Rightarrow> bool" where
  "apart q r \<longleftrightarrow> unat (r_start q) + unat (r_size q) \<le> unat (r_start r)
     \<or> unat (r_start r) + unat (r_size r) \<le> unat (r_start q)"

definition regions_ok :: "VMemRegion list \<Rightarrow> bool" where
  "regions_ok rs \<longleftrightarrow> list_all fit_region rs \<and> sorted_wrt apart rs"

lemma regions_ok_Nil [simp]: "regions_ok []"
  by (simp add: regions_ok_def)

lemma regions_ok_Cons:
  "regions_ok (r # rs) \<longleftrightarrow> fit_region r \<and> (\<forall>q \<in> set rs. apart r q) \<and> regions_ok rs"
  by (auto simp: regions_ok_def)

lemma regions_ok_append:
  "regions_ok (rs @ qs) \<longleftrightarrow>
     regions_ok rs \<and> regions_ok qs \<and> (\<forall>r \<in> set rs. \<forall>q \<in> set qs. apart r q)"
  by (auto simp: regions_ok_def sorted_wrt_append)

lemma regions_ok_fit: "regions_ok rs \<Longrightarrow> r \<in> set rs \<Longrightarrow> fit_region r"
  by (auto simp: regions_ok_def list_all_iff)

lemma regions_ok_all_fit: "regions_ok rs \<Longrightarrow> list_all fit_region rs"
  by (simp add: regions_ok_def)

lemma fit_region_end [nat_of_word]:
  "fit_region r \<Longrightarrow> unat (region_end r) = unat (r_start r) + unat (r_size r)"
  by (simp add: fit_region_def unat_sat_add min_def)

lemma fit_region_plus:
  "fit_region r \<Longrightarrow> r_start r + r_size r = region_end r"
  by (simp add: fit_region_def sat_add_no_wrap)

lemma fit_region_bound:
  "fit_region r \<Longrightarrow> unat (r_start r) + unat (r_size r) \<le> 2 ^ 64 - 1"
  by (simp add: fit_region_def)

lemma fit_region_pos: "fit_region r \<Longrightarrow> 0 < unat (r_size r)"
  by (simp add: fit_region_def word_less_nat_alt)

lemma region_at_Nil [simp]: "region_at [] x = None"
  by (simp add: region_at_def)

lemma region_at_Cons [simp]:
  "region_at (r # rs) x = (if in_region r x then Some (r_prot r, r_info r) else region_at rs x)"
  by (simp add: region_at_def)

lemma region_at_append:
  "region_at (rs @ qs) x = (case region_at rs x of None \<Rightarrow> region_at qs x | Some a \<Rightarrow> Some a)"
  by (induction rs) auto

lemma region_at_None: "region_at rs x = None \<longleftrightarrow> x \<notin> covered rs"
  by (auto simp: region_at_def covered_def find_None_iff)

lemma covered_dom: "covered rs = dom (region_at rs)"
  by (auto simp: region_at_None dom_def)

lemma covered_simps [simp]:
  "covered [] = {}" "covered (r # rs) = Collect (in_region r) \<union> covered rs"
  by (auto simp: covered_def)

lemma intervals_apart:
  "0 < m \<Longrightarrow> 0 < n \<Longrightarrow>
     (a + m \<le> b \<or> b + n \<le> a) \<longleftrightarrow> (\<forall>x. \<not> ((a \<le> x \<and> x < a + m) \<and> (b \<le> x \<and> x < b + n)))"
  for a b m n :: nat
proof (rule iffI)
  assume pos: "0 < m" "0 < n"
    and *: "\<forall>x. \<not> ((a \<le> x \<and> x < a + m) \<and> (b \<le> x \<and> x < b + n))"
  show "a + m \<le> b \<or> b + n \<le> a"
    using pos * [rule_format, of "max a b"] by (auto simp: max_def split: if_splits)
qed auto

lemma apart_iff:
  "fit_region q \<Longrightarrow> fit_region r \<Longrightarrow> apart q r \<longleftrightarrow> (\<forall>x. \<not> (in_region q x \<and> in_region r x))"
  unfolding apart_def in_region_def
  by (intro intervals_apart) (simp_all add: fit_region_pos)

section \<open>Looking up an address\<close>

lemma region_for_step:
  "fit_region r \<Longrightarrow> addr \<ge> r_start r \<and> addr < r_start r + r_size r \<longleftrightarrow> in_region r (unat addr)"
  by (auto simp: fit_region_plus in_region_def word_le_nat_alt word_less_nat_alt fit_region_end)

lemma region_for_find:
  "list_all fit_region rs \<Longrightarrow> region_for rs addr = List.find (\<lambda>r. in_region r (unat addr)) rs"
  unfolding region_for_def by (induction rs) (auto simp: region_for_step)

lemma apart_sym: "apart q r \<longleftrightarrow> apart r q"
  by (auto simp: apart_def)

lemma regions_ok_unique:
  assumes "regions_ok rs" "q \<in> set rs" "r \<in> set rs" "in_region q x" "in_region r x"
  shows "q = r"
  using assms
proof (induction rs)
  case (Cons p rs)
  have "\<not> (in_region p y \<and> in_region t y)" if "t \<in> set rs" for t y
    using that Cons.prems(1) apart_iff [of p t] by (auto simp: regions_ok_Cons dest: regions_ok_fit)
  with Cons show ?case
    by (auto simp: regions_ok_Cons)
qed simp

text \<open>
  On a well-formed list \<open>region_for\<close> finds a region exactly for the mapped addresses, and the
  one it finds is the only one that contains the address; the view gives its attributes.
\<close>

theorem region_for_correct:
  assumes "regions_ok rs"
  shows "(case region_for rs addr of
            None \<Rightarrow> region_at rs (unat addr) = None \<and> (\<forall>r \<in> set rs. \<not> in_region r (unat addr))
          | Some r \<Rightarrow> region_at rs (unat addr) = Some (r_prot r, r_info r)
              \<and> {q \<in> set rs. in_region q (unat addr)} = {r})"
proof -
  have "region_for rs addr = List.find (\<lambda>r. in_region r (unat addr)) rs"
    using assms by (simp add: region_for_find regions_ok_def)
  then show ?thesis
    using regions_ok_unique [OF assms]
    by (auto simp: region_at_def find_None_iff_none dest: find_Some_mem split: option.splits)
qed

theorem region_for_correct_witness:
  "region_for [\<lparr>r_start = 0x1000, r_size = 0x2000, r_prot = Prot_READ, r_info = ''a''\<rparr>] 0x2fff \<noteq> None"
proof
  let ?rs = "[\<lparr>r_start = 0x1000, r_size = 0x2000, r_prot = Prot_READ, r_info = ''a''\<rparr>]"
  assume *: "region_for ?rs 0x2fff = None"
  have "regions_ok ?rs"
    by (simp add: regions_ok_def fit_region_def)
  from region_for_correct [OF this, of "0x2fff"] show False
    by (simp add: * in_region_def)
qed

section \<open>Removing a range\<close>

lemma cut_region_at:
  assumes "fit_region r" and "n \<noteq> 0"
  shows "region_at (cut_region a (sat_add a n) r) x =
    (if unat a \<le> x \<and> x < unat a + unat n then None else region_at [r] x)"
proof -
  have s: "unat (r_start r) + unat (r_size r) \<le> 2 ^ 64 - 1" and e: "unat (sat_add a n) = min (2 ^ 64 - 1) (unat a + unat n)"
    using fit_region_bound [OF assms(1)] by (simp_all add: unat_sat_add)
  show ?thesis
    using s assms(1) 
    by (auto simp: cut_region_def in_region_def word_le_nat_alt word_less_nat_alt fit_region_end
        unat_sat_sub e min_def split: if_splits)
qed

lemma remove_range_at:
  assumes "list_all fit_region rs"
  shows "region_at (remove_range rs a n) x =
    (if unat a \<le> x \<and> x < unat a + unat n then None else region_at rs x)"
proof (cases "n = 0")
  case False
  have "region_at (concat (map (cut_region a (sat_add a n)) rs)) x =
    (if unat a \<le> x \<and> x < unat a + unat n then None else region_at rs x)"
    using assms by (induction rs) (simp_all add: region_at_append cut_region_at False)
  with False show ?thesis
    by (simp add: remove_range_def)
qed (auto simp: remove_range_def)

lemma cut_region_pieces:
  assumes "fit_region r" and "q \<in> set (cut_region a e r)"
  shows "fit_region q \<and> (\<forall>x. in_region q x \<longrightarrow> in_region r x)"
  using assms fit_region_bound [OF assms(1)]
  by (auto simp: cut_region_def in_region_def fit_region_def word_le_nat_alt word_less_nat_alt
      unat_sat_sub unat_sat_add min_def split: if_splits)

lemma cut_region_ok:
  assumes "fit_region r" and "a \<le> e"
  shows "regions_ok (cut_region a e r)"
  using assms fit_region_bound [OF assms(1)]
  by (auto simp: cut_region_def regions_ok_Cons apart_def fit_region_def word_le_nat_alt
      word_less_nat_alt unat_sat_sub unat_sat_add min_def split: if_splits)

lemma remove_range_pieces:
  assumes "list_all fit_region rs" and "q \<in> set (remove_range rs a n)"
  shows "\<exists>r \<in> set rs. fit_region q \<and> (\<forall>x. in_region q x \<longrightarrow> in_region r x)"
proof (cases "n = 0")
  case True
  then show ?thesis
    using assms by (auto simp: remove_range_def list_all_iff)
next
  case False
  then obtain r where "r \<in> set rs" and "q \<in> set (cut_region a (sat_add a n) r)"
    using assms(2) by (auto simp: remove_range_def)
  moreover have "fit_region r"
    using assms(1) \<open>r \<in> set rs\<close> by (simp add: list_all_iff)
  ultimately show ?thesis
    using cut_region_pieces by (intro bexI [of _ r])
qed

lemma remove_range_ok:
  assumes "regions_ok rs" shows "regions_ok (remove_range rs a n)"
proof (cases "n = 0")
  case False
  have "regions_ok (concat (map (cut_region a (sat_add a n)) rs))"
    using assms
  proof (induction rs)
    case (Cons r rs)
    have "apart p q" if p: "p \<in> set (cut_region a (sat_add a n) r)"
      and t: "t \<in> set rs" and q: "q \<in> set (cut_region a (sat_add a n) t)" for p q t
    proof -
      have "fit_region r" "fit_region t" "apart r t"
        using Cons.prems t by (auto simp: regions_ok_Cons dest: regions_ok_fit)
      then show ?thesis
        using cut_region_pieces [of r p] cut_region_pieces [of t q] p q by (metis apart_iff)
    qed
    with Cons show ?case
      by (auto simp: regions_ok_append cut_region_ok regions_ok_Cons le_sat_add)
  qed simp
  with False show ?thesis
    by (simp add: remove_range_def)
qed (simp add: assms remove_range_def)

text \<open>
  C24: \<open>remove_range\<close> refines the restriction of the address map: the addresses of the range lose
  their region, every other address keeps its protection and label, and the list stays well-formed.
\<close>

theorem remove_range_refines:
  assumes "regions_ok rs"
  shows "region_at (remove_range rs a n) = region_at rs |` (- {unat a ..< unat a + unat n})
    \<and> regions_ok (remove_range rs a n)"
  using assms
  by (auto simp: fun_eq_iff restrict_map_def remove_range_at remove_range_ok regions_ok_all_fit)

theorem remove_range_refines_witness:
  "region_at (remove_range
      [\<lparr>r_start = 0x1000, r_size = 0x3000, r_prot = Prot_ALL, r_info = ''a''\<rparr>] 0x2000 0x1000) 0x3fff
    = Some (Prot_ALL, ''a'')"
proof -
  let ?rs = "[\<lparr>r_start = 0x1000, r_size = 0x3000, r_prot = Prot_ALL, r_info = ''a''\<rparr>]"
  have "regions_ok ?rs"
    by (simp add: regions_ok_def fit_region_def)
  from remove_range_refines [OF this, of "0x2000" "0x1000"] show ?thesis
    by (simp add: restrict_map_def in_region_def)
qed

section \<open>The interface of the address map\<close>

text \<open>
  What the memory system calls need of the bookkeeping: a view \<open>look\<close> per address, an operation that
  adds a region and one that removes a range, and the invariant that both keep.
\<close>

locale address_book =
  fixes look :: "'b \<Rightarrow> nat \<Rightarrow> 'a option"
    and add :: "'b \<Rightarrow> u64 \<Rightarrow> u64 \<Rightarrow> 'a \<Rightarrow> 'b"
    and remove :: "'b \<Rightarrow> u64 \<Rightarrow> u64 \<Rightarrow> 'b"
    and inv :: "'b \<Rightarrow> bool"
  assumes look_add: "inv b \<Longrightarrow> look (add b a n v) x =
      (case look b x of Some w \<Rightarrow> Some w
       | None \<Rightarrow> if unat a \<le> x \<and> x < unat a + unat n then Some v else None)"
    and look_remove: "inv b \<Longrightarrow> look (remove b a n) x =
      (if unat a \<le> x \<and> x < unat a + unat n then None else look b x)"
    and inv_add: "inv b \<Longrightarrow> 0 < n \<Longrightarrow> unat a + unat n < 2 ^ 64 \<Longrightarrow>
      \<forall>x. unat a \<le> x \<and> x < unat a + unat n \<longrightarrow> look b x = None \<Longrightarrow> inv (add b a n v)"
    and inv_remove: "inv b \<Longrightarrow> inv (remove b a n)"
begin

definition free :: "'b \<Rightarrow> u64 \<Rightarrow> u64 \<Rightarrow> bool" where
  "free b a n \<longleftrightarrow> (\<forall>x. unat a \<le> x \<and> x < unat a + unat n \<longrightarrow> look b x = None)"

lemma free_after_remove: "inv b \<Longrightarrow> free (remove b a n) a n"
  by (simp add: free_def look_remove)

text \<open>Replacing the mappings of a range, as a mapping at a fixed address does.\<close>

lemma look_replace:
  "inv b \<Longrightarrow> look (add (remove b a n) a n v) x =
     (if unat a \<le> x \<and> x < unat a + unat n then Some v else look b x)"
  by (simp add: look_add look_remove inv_remove split: option.split)

lemma inv_replace:
  "inv b \<Longrightarrow> 0 < n \<Longrightarrow> unat a + unat n < 2 ^ 64 \<Longrightarrow> inv (add (remove b a n) a n v)"
  by (intro inv_add inv_remove) (simp_all add: look_remove)

lemma look_add_free:
  "inv b \<Longrightarrow> free b a n \<Longrightarrow> look (add b a n v) x =
     (if unat a \<le> x \<and> x < unat a + unat n then Some v else look b x)"
  by (auto simp: look_add free_def split: option.split)

lemma remove_add:
  "inv b \<Longrightarrow> free b a n \<Longrightarrow> 0 < n \<Longrightarrow> unat a + unat n < 2 ^ 64 \<Longrightarrow>
     look (remove (add b a n v) a n) = look b"
  by (rule ext) (auto simp: look_remove look_add inv_add free_def split: option.split)

lemma remove_commute:
  "inv b \<Longrightarrow> look (remove (remove b a n) a' n') = look (remove (remove b a' n') a n)"
  by (rule ext) (simp add: look_remove inv_remove)

end

definition push_region :: "VMemRegion list \<Rightarrow> u64 \<Rightarrow> u64 \<Rightarrow> Prot \<times> string \<Rightarrow> VMemRegion list" where
  "push_region rs a n v =
     rs @ [\<lparr>r_start = a, r_size = n, r_prot = fst v, r_info = snd v\<rparr>]"

lemma push_region_at:
  "region_at (push_region rs a n v) x =
      (case region_at rs x of Some w \<Rightarrow> Some w
       | None \<Rightarrow> if unat a \<le> x \<and> x < unat a + unat n then Some v else None)"
  by (simp add: push_region_def region_at_append in_region_def split: option.split)

lemma push_region_ok:
  assumes "regions_ok rs" "0 < n" "unat a + unat n < 2 ^ 64"
    and free: "\<forall>x. unat a \<le> x \<and> x < unat a + unat n \<longrightarrow> region_at rs x = None"
  shows "regions_ok (push_region rs a n v)"
proof -
  let ?r = "\<lparr>r_start = a, r_size = n, r_prot = fst v, r_info = snd v\<rparr>"
  have fit: "fit_region ?r"
    using assms by (simp add: fit_region_def)
  have "apart q ?r" if "q \<in> set rs" for q
  proof -
    have "\<not> (in_region q x \<and> in_region ?r x)" for x
      using free that by (auto simp: region_at_None covered_def in_region_def)
    with fit assms(1) that show ?thesis
      by (auto simp: apart_iff dest: regions_ok_fit)
  qed
  with fit assms(1) show ?thesis
    by (simp add: push_region_def regions_ok_append regions_ok_Cons)
qed

interpretation book: address_book region_at push_region remove_range regions_ok
  by unfold_locales
    (simp_all add: push_region_at remove_range_at push_region_ok remove_range_ok regions_ok_all_fit)

section \<open>The search for a free range\<close>

lemma overlaps_iff:
  assumes "fit_region r" and "unat c + unat len < 2 ^ 64"
  shows "overlaps c len r \<longleftrightarrow> unat c < unat (r_start r) + unat (r_size r)
    \<and> unat (r_start r) < unat c + unat len"
  using assms
  by (simp add: overlaps_def word_less_nat_alt fit_region_end unat_add_no_wrap sat_add_no_wrap)

lemma mmap_search_rule:
  assumes "mmap_search rs len c = Some a" and "I c"
    and "\<And>c r. I c \<Longrightarrow> r \<in> set rs \<Longrightarrow> overlaps c len r \<Longrightarrow> I (align_up (region_end r) PAGE_SIZE)"
  shows "I a \<and> (\<forall>r \<in> set rs. \<not> overlaps a len r)"
proof -
  let ?P = "\<lambda>rs len c a. I c \<longrightarrow>
      (\<forall>c r. I c \<longrightarrow> r \<in> set rs \<longrightarrow> overlaps c len r \<longrightarrow> I (align_up (region_end r) PAGE_SIZE))
      \<longrightarrow> I a \<and> (\<forall>r \<in> set rs. \<not> overlaps a len r)"
  have "?P rs len c a"
  proof (rule mmap_search.raw_induct [where P = ?P, OF _ assms(1)])
    fix f rs len c a
    assume IH: "\<And>rs len c a. f rs len c = Some a \<Longrightarrow> ?P rs len c a"
      and eq: "(case List.find (overlaps c len) rs of None \<Rightarrow> Some c
        | Some r \<Rightarrow> f rs len (align_up (region_end r) PAGE_SIZE)) = Some a"
    show "?P rs len c a"
    proof (cases "List.find (overlaps c len) rs")
      case None
      with eq show ?thesis by (auto simp: find_None_iff_none)
    next
      case (Some r)
      with eq IH [of rs len "align_up (region_end r) PAGE_SIZE" a] find_Some_mem [OF Some]
      show ?thesis by auto
    qed
  qed
  with assms show ?thesis by blast
qed

text \<open>Every round passes the end of a region for good: the search ends after at most one round per region.\<close>

definition below_top :: "VMemRegion list \<Rightarrow> bool" where
  "below_top rs \<longleftrightarrow> (\<forall>r \<in> set rs. unat (r_start r) + unat (r_size r) \<le> 2 ^ 64 - 4096)"

lemma mmap_search_returns:
  assumes "below_top rs"
  shows "\<exists>a. mmap_search rs len c = Some a"
proof (induction "card {r \<in> set rs. c < region_end r}" arbitrary: c rule: less_induct)
  case less
  show ?case
  proof (cases "List.find (overlaps c len) rs")
    case None
    then show ?thesis by (simp add: mmap_search.simps)
  next
    case (Some r)
    let ?c = "align_up (region_end r) PAGE_SIZE"
    have r: "r \<in> set rs" "c < region_end r"
      using find_Some_mem [OF Some] by (auto simp: overlaps_def)
    then have "unat (region_end r) \<le> 2 ^ 64 - 4096"
      using assms by (auto simp: below_top_def unat_sat_add min_def)
    then have "region_end r \<le> ?c"
      by (rule align_up_ge)
    with r have "{q \<in> set rs. ?c < region_end q} \<subset> {q \<in> set rs. c < region_end q}"
      using leD by (intro psubsetI) auto
    then have "card {q \<in> set rs. ?c < region_end q} < card {q \<in> set rs. c < region_end q}"
      by (intro psubset_card_mono) auto
    from less [OF this] show ?thesis
      using Some by (simp add: mmap_search.simps [of rs len c])
  qed
qed


text \<open>A range of \<open>n\<close> bytes, cut at the last address as \<open>saturating_add\<close> cuts it, meets no region.\<close>

definition clear_range :: "VMemRegion list \<Rightarrow> u64 \<Rightarrow> u64 \<Rightarrow> bool" where
  "clear_range rs a n \<longleftrightarrow>
     (\<forall>x. unat a \<le> x \<and> x < unat (sat_add a n) \<longrightarrow> region_at rs x = None)"

lemma overlaps_in_region:
  assumes "fit_region r" and "n \<noteq> 0"
  shows "overlaps c n r \<longleftrightarrow> (\<exists>x. unat c \<le> x \<and> x < unat (sat_add c n) \<and> in_region r x)"
proof
  assume "overlaps c n r"
  then have "unat c < unat (r_start r) + unat (r_size r)" "unat (r_start r) < unat (sat_add c n)"
    using assms by (auto simp: overlaps_def word_less_nat_alt fit_region_end)
  moreover have "unat c < unat (sat_add c n)"
    using calculation(1) fit_region_bound [OF assms(1)] \<open>n \<noteq> 0\<close>
    by (auto simp: unat_sat_add unat_eq_zero [symmetric])
  ultimately show "\<exists>x. unat c \<le> x \<and> x < unat (sat_add c n) \<and> in_region r x"
    using fit_region_pos [OF assms(1)]
    by (intro exI [of _ "max (unat c) (unat (r_start r))"]) (auto simp: in_region_def max_def)
next
  assume "\<exists>x. unat c \<le> x \<and> x < unat (sat_add c n) \<and> in_region r x"
  then show "overlaps c n r"
    using assms by (auto simp: overlaps_def in_region_def word_less_nat_alt fit_region_end)
qed

lemma clear_range_overlaps:
  assumes "regions_ok rs" and "n \<noteq> 0"
  shows "clear_range rs c n \<longleftrightarrow> (\<forall>r \<in> set rs. \<not> overlaps c n r)"
  using assms
  by (auto simp: clear_range_def overlaps_in_region regions_ok_fit region_at_None covered_def)

lemma align_up_no_page_between:
  assumes "unat v \<le> 2 ^ 64 - 4096" and "unat b mod 4096 = 0" and "b < align_up v PAGE_SIZE"
  shows "b < v"
proof (rule ccontr)
  assume "\<not> b < v"
  then have "unat v \<le> unat b"
    by (simp add: word_less_nat_alt)
  then have "4096 * ((unat v + 4095) div 4096) \<le> unat b"
    using round_up_least [of 4096 "unat v" "unat b div 4096"] assms(2)
    by (auto simp: mod_eq_0_iff_dvd)
  then show False
    using assms(1,3) by (simp add: word_less_nat_alt unat_align_up_page)
qed

lemma align_up_aligned: "unat (align_up v PAGE_SIZE) mod 4096 = 0"
  by (cases "unat v \<le> 2 ^ 64 - 4096") (simp_all add: unat_align_up_page align_up_wraps)

lemma sat_add_mono: "a \<le> b \<Longrightarrow> sat_add a n \<le> sat_add b (n :: u64)"
  by (simp add: word_le_nat_alt unat_sat_add min_def)

text \<open>
  C28: if no region reaches into the last page, the search of \<open>next_mmap_addr\<close> ends, and its result
  is the first fit: page aligned, at least 256 MiB above the program break, clear of every region,
  and no lower page boundary above that bound is clear.
\<close>

theorem next_mmap_addr_first_fit:
  assumes ok: "regions_ok rs" and top: "below_top rs" and len: "len \<noteq> 0"
    and brk: "unat heap_exit + 0x10000000 \<le> 2 ^ 64 - 4096"
  shows "\<exists>a. next_mmap_addr rs heap_exit len = Some a
    \<and> unat a mod 4096 = 0 \<and> unat heap_exit + 0x10000000 \<le> unat a \<and> clear_range rs a len
    \<and> (\<forall>b. unat b mod 4096 = 0 \<and> unat heap_exit + 0x10000000 \<le> unat b \<and> b < a
         \<longrightarrow> \<not> clear_range rs b len)"
proof -
  let ?v = "sat_add heap_exit 0x10000000"
  let ?I = "\<lambda>c. unat c mod 4096 = 0 \<and> ?v \<le> c
    \<and> (\<forall>b. unat b mod 4096 = 0 \<and> ?v \<le> b \<and> b < c \<longrightarrow> (\<exists>r \<in> set rs. overlaps b len r))"
  have v: "unat ?v = unat heap_exit + 0x10000000"
    using brk by (simp add: unat_sat_add)
  obtain a where a: "mmap_search rs len (align_up ?v PAGE_SIZE) = Some a"
    using mmap_search_returns [OF top] by blast
  have "?I (align_up ?v PAGE_SIZE)"
    using align_up_no_page_between [of ?v] align_up_ge [of ?v] brk v by (force simp: align_up_aligned)
  moreover have "?I (align_up (region_end r) PAGE_SIZE)"
    if I: "?I c" and r: "r \<in> set rs" "overlaps c len r" for c r
  proof -
    have e: "unat (region_end r) \<le> 2 ^ 64 - 4096"
      using top r(1) by (auto simp: below_top_def unat_sat_add min_def)
    have c: "c < region_end r" "r_start r < sat_add c len"
      using r(2) by (simp_all add: overlaps_def)
    have "\<exists>r \<in> set rs. overlaps b len r"
      if b: "unat b mod 4096 = 0" "?v \<le> b" "b < align_up (region_end r) PAGE_SIZE" for b
    proof (cases "b < c")
      case True
      with I b show ?thesis by auto
    next
      case False
      then have "overlaps b len r"
        using align_up_no_page_between [OF e b(1,3)] c(2) sat_add_mono [of c b len]
        by (auto simp: overlaps_def not_less intro: less_le_trans)
      with r(1) show ?thesis by blast
    qed
    with I c(1) align_up_ge [OF e] show ?thesis
      by (auto simp: align_up_aligned)
  qed
  ultimately have "?I a \<and> (\<forall>r \<in> set rs. \<not> overlaps a len r)"
    by (rule mmap_search_rule [where I = ?I, OF a])
  then show ?thesis
    using a ok len v by (auto simp: next_mmap_addr_def clear_range_overlaps word_le_nat_alt)
qed

theorem next_mmap_addr_first_fit_witness:
  "\<exists>a. next_mmap_addr [\<lparr>r_start = 0x10001000, r_size = 0x2000, r_prot = Prot_ALL, r_info = ''a''\<rparr>]
        0x1000 0x3000 = Some a \<and> unat a mod 4096 = 0"
proof -
  let ?rs = "[\<lparr>r_start = 0x10001000, r_size = 0x2000, r_prot = Prot_ALL, r_info = ''a''\<rparr>]"
  have "regions_ok ?rs" "below_top ?rs"
    by (simp_all add: regions_ok_def fit_region_def below_top_def)
  from next_mmap_addr_first_fit [OF this, of "0x3000" "0x1000"] show ?thesis
    by auto
qed

text \<open>
  C29: the search for a range never returns when a region reaches into the last page and the requested length
  is greater than the address where that region starts: no page boundary is free of the region, since a range
  of that length from any address below the region's end runs past its start or saturates, and the step past
  the region wraps to 0. The call should report that there is no room. With a shorter length the search wraps to
  0 once and may find room there; the claim is about lengths past the region's start only.
\<close>

theorem next_mmap_addr_never_returns:
  assumes "r \<in> set rs" and "2 ^ 64 - 4096 < unat (r_start r) + unat (r_size r)"
    and "r_start r < len"
  shows "next_mmap_addr rs heap_exit len = None"
proof (rule ccontr)
  assume "next_mmap_addr rs heap_exit len \<noteq> None"
  then obtain a where
    "mmap_search rs len (align_up (sat_add heap_exit 0x10000000) PAGE_SIZE) = Some a"
    by (auto simp: next_mmap_addr_def)
  then have "unat a mod 4096 = 0 \<and> (\<forall>r \<in> set rs. \<not> overlaps a len r)"
    by (rule mmap_search_rule) (simp_all add: align_up_aligned)
  moreover from this have "unat a \<le> 2 ^ 64 - 4096"
    by (elim conjE) (rule page_aligned_bound)
  then have "a < region_end r"
    using assms(2) by (simp add: word_less_nat_alt unat_sat_add min_def)
  moreover have "r_start r < sat_add a len"
  proof -
    have "unat (r_start r) < 18446744073709551615"
      using assms(3) unat_bound_le [of len] unfolding word_less_nat_alt by linarith
    then show ?thesis
      using assms(3) by (simp add: word_less_nat_alt unat_sat_add)
  qed
  ultimately show False
    using assms(1) by (auto simp: overlaps_def)
qed

theorem next_mmap_addr_never_returns_witness:
  "next_mmap_addr
     [\<lparr>r_start = 0xffffffffffffe000, r_size = 0x2000, r_prot = Prot_READ, r_info = ''[mmap]''\<rparr>]
     0 0xfffffffffffff000 = None"
  by (rule next_mmap_addr_never_returns) (rule list.set_intros, simp_all)

section \<open>The bounds of the program break\<close>

lemma fold_max_bound: "e \<le> fold max es e \<and> (\<forall>x \<in> set es. x \<le> fold max es (e :: u64))"
  by (induction es arbitrary: e) (auto intro: order_trans [OF max.cobounded1] order_trans [OF max.cobounded2])

lemma fold_min_bound: "fold min es e \<le> e \<and> (\<forall>x \<in> set es. fold min es (e :: u64) \<le> x)"
  by (induction es arbitrary: e) (auto intro: order_trans [OF _ min.cobounded1] order_trans [OF _ min.cobounded2])

lemma fold_max_ge: "x \<in> set xs \<Longrightarrow> x \<le> (case xs of [] \<Rightarrow> d | e # es \<Rightarrow> fold max es (e :: u64))"
  by (cases xs) (auto simp: fold_max_bound)

lemma fold_min_le: "x \<in> set xs \<Longrightarrow> (case xs of [] \<Rightarrow> d | e # es \<Rightarrow> fold min es (e :: u64)) \<le> x"
  by (cases xs) (auto simp: fold_min_bound)

lemma mapped_heap_end_ge:
  "r \<in> set rs \<Longrightarrow> r_info r = HEAP \<Longrightarrow> r_start r + r_size r \<le> mapped_heap_end rs h"
  unfolding mapped_heap_end_def by (rule fold_max_ge) auto

lemma heap_limit_le:
  "r \<in> set rs \<Longrightarrow> r_info r \<noteq> HEAP \<Longrightarrow> e \<le> r_start r \<Longrightarrow> heap_limit rs e \<le> r_start r"
  unfolding heap_limit_def by (rule fold_min_le) auto

end
