(* ===== verification/Vk_Intervals.thy ===== *)
theory Vk_Intervals
  imports Vk_Regions
begin

text \<open>
  The interval arithmetic of the snapshot code of \<open>src/src/fuzzing.rs\<close>: the pieces of a region that a
  snapshot does not cover (\<open>subtract_snapshot_coverage\<close>) and whether a range is mapped
  (\<open>is_range_mapped\<close>), each with its meaning as a set of addresses.
\<close>

section \<open>Intervals of the snapshot code\<close>

text \<open>One region of the outer loop of \<open>subtract_snapshot_coverage\<close> against the pending segments.\<close>

definition cut_segment :: "u64 \<Rightarrow> u64 \<Rightarrow> u64 \<times> u64 \<Rightarrow> (u64 \<times> u64) list" where
  "cut_segment cover_start cover_end seg =
     (case seg of (segment_start, segment_end) \<Rightarrow>
        if cover_end \<le> segment_start \<or> cover_start \<ge> segment_end then [seg]
        else (if segment_start < cover_start then [(segment_start, cover_start)] else [])
           @ (if cover_end < segment_end then [(cover_end, segment_end)] else []))"

fun subtract_loop :: "VMemRegion list \<Rightarrow> (u64 \<times> u64) list \<Rightarrow> (u64 \<times> u64) list" where
  "subtract_loop [] pending = pending"
| "subtract_loop (r # rs) pending =
     (let next = concat (map (cut_segment (r_start r) (region_end r)) pending)
      in if next = [] then [] else subtract_loop rs next)"

definition seg_sizes :: "(u64 \<times> u64) list \<Rightarrow> (u64 \<times> u64) list" where
  "seg_sizes pending =
     List.map_filter (\<lambda>(segment_start, segment_end).
        let sz = sat_sub segment_end segment_start
        in if sz = 0 then None else Some (segment_start, sz)) pending"

definition subtract_snapshot_coverage ::
  "u64 \<Rightarrow> u64 \<Rightarrow> VMemRegion list \<Rightarrow> (u64 \<times> u64) list" where
  "subtract_snapshot_coverage start sz snapshot_regions =
     seg_sizes (subtract_loop snapshot_regions [(start, sat_add start sz)])"

fun mapped_loop :: "u64 \<Rightarrow> VMemRegion list \<Rightarrow> u64 \<Rightarrow> bool" where
  "mapped_loop stop [] cursor \<longleftrightarrow> cursor \<ge> stop"
| "mapped_loop stop (r # rs) cursor \<longleftrightarrow>
     (if region_end r \<le> cursor then mapped_loop stop rs cursor
      else if r_start r > cursor then False
      else let cursor' = min (region_end r) stop
           in if cursor' \<ge> stop then True else mapped_loop stop rs cursor')"

definition is_range_mapped :: "VMemRegion list \<Rightarrow> u64 \<Rightarrow> u64 \<Rightarrow> bool" where
  "is_range_mapped rs start sz = mapped_loop (sat_add start sz) (sort_key r_start rs) start"

section \<open>Their meaning\<close>

text \<open>The bytes of a list of segments \<open>(start, end)\<close>.\<close>

definition seg_bytes :: "(u64 \<times> u64) list \<Rightarrow> nat set" where
  "seg_bytes ss = {x. \<exists>(s, e) \<in> set ss. unat s \<le> x \<and> x < unat e}"

lemma seg_bytes_simps [simp]:
  "seg_bytes [] = {}"
  "seg_bytes ((s, e) # ss) = {unat s ..< unat e} \<union> seg_bytes ss"
  "seg_bytes (ss @ ts) = seg_bytes ss \<union> seg_bytes ts"
  by (auto simp: seg_bytes_def)

lemma cut_segment_bytes:
  "seg_bytes (cut_segment cs ce seg) = seg_bytes [seg] - {unat cs ..< unat ce}"
  by (cases seg) (auto simp: cut_segment_def word_le_nat_alt word_less_nat_alt)

lemma cut_segments_bytes:
  "seg_bytes (concat (map (cut_segment cs ce) ss)) = seg_bytes ss - {unat cs ..< unat ce}"
proof (induction ss)
  case (Cons p ss)
  then show ?case
    by (cases p) (simp add: cut_segment_bytes Un_Diff)
qed simp

lemma in_region_end:
  "fit_region r \<Longrightarrow> Collect (in_region r) = {unat (r_start r) ..< unat (region_end r)}"
  by (auto simp: in_region_def fit_region_end)

lemma subtract_loop_bytes:
  "list_all fit_region rs \<Longrightarrow> seg_bytes (subtract_loop rs ss) = seg_bytes ss - covered rs"
proof (induction rs ss rule: subtract_loop.induct)
  case (2 r rs ss)
  let ?next = "concat (map (cut_segment (r_start r) (region_end r)) ss)"
  have nx: "seg_bytes ?next = seg_bytes ss - Collect (in_region r)"
    using "2.prems" by (simp add: cut_segments_bytes in_region_end)
  show ?case
  proof (cases "?next = []")
    case True
    then have "seg_bytes ss - Collect (in_region r) = {}"
      using nx by (simp only: seg_bytes_simps)
    with True show ?thesis by (auto simp: Let_def)
  next
    case False
    with "2.IH" [OF refl] "2.prems" nx show ?thesis
      by (auto simp: Let_def)
  qed
qed simp

text \<open>The segments a byte can lie in twice: none, since every cut keeps them apart.\<close>

definition segs_apart :: "(u64 \<times> u64) list \<Rightarrow> bool" where
  "segs_apart ss \<longleftrightarrow> sorted_wrt (\<lambda>(s, e) (s', e'). e \<le> s') ss \<and> list_all (\<lambda>(s, e). s \<le> e) ss"

lemma segs_apart_Cons:
  "segs_apart ((s, e) # ss) \<longleftrightarrow> s \<le> e \<and> (\<forall>(s', e') \<in> set ss. e \<le> s') \<and> segs_apart ss"
  by (auto simp: segs_apart_def)

lemma segs_apart_append:
  "segs_apart (ss @ ts) \<longleftrightarrow> segs_apart ss \<and> segs_apart ts
     \<and> (\<forall>(s, e) \<in> set ss. \<forall>(s', e') \<in> set ts. e \<le> s')"
  by (auto simp: segs_apart_def sorted_wrt_append)

lemma cut_segment_apart:
  assumes "s \<le> e" and "cs \<le> ce"
  shows "segs_apart (cut_segment cs ce (s, e))
    \<and> (\<forall>(s', e') \<in> set (cut_segment cs ce (s, e)). s \<le> s' \<and> e' \<le> e)"
  using assms by (auto simp: cut_segment_def segs_apart_def)

lemma cut_segments_apart:
  assumes "segs_apart ss" and "cs \<le> ce"
  shows "segs_apart (concat (map (cut_segment cs ce) ss))
    \<and> (\<forall>(s', e') \<in> set (concat (map (cut_segment cs ce) ss)). \<exists>(s, e) \<in> set ss. s \<le> s' \<and> e' \<le> e)"
  using assms(1)
proof (induction ss)
  case (Cons p ss)
  obtain s e where p: "p = (s, e)" by (cases p)
  then have se: "s \<le> e" and rest: "\<forall>(s', e') \<in> set ss. e \<le> s'" and ss: "segs_apart ss"
    using Cons.prems by (simp_all add: segs_apart_Cons)
  have A: "segs_apart (cut_segment cs ce (s, e))"
    and B: "\<forall>(s', e') \<in> set (cut_segment cs ce (s, e)). s \<le> s' \<and> e' \<le> e"
    using cut_segment_apart [OF se assms(2)] by blast+
  note IH = Cons.IH [OF ss]
  have "e1 \<le> s2" if in1: "(s1, e1) \<in> set (cut_segment cs ce (s, e))"
    and in2: "(s2, e2) \<in> set (concat (map (cut_segment cs ce) ss))" for s1 e1 s2 e2
  proof -
    obtain s' e' where "(s', e') \<in> set ss" "s' \<le> s2"
      using IH in2 by blast
    with rest B in1 show ?thesis by fastforce
  qed
  with A B IH show ?case
    by (fastforce simp: p segs_apart_append)
qed (simp add: segs_apart_def)

lemma subtract_loop_apart: "segs_apart ss \<Longrightarrow> segs_apart (subtract_loop rs ss)"
proof (induction rs ss rule: subtract_loop.induct)
  case (2 r rs ss)
  then show ?case
    using cut_segments_apart [of ss "r_start r" "region_end r"] le_sat_add
    by (auto simp: Let_def segs_apart_def)
qed simp

definition pair_bytes :: "(u64 \<times> u64) list \<Rightarrow> nat set" where
  "pair_bytes ps = {x. \<exists>(s, n) \<in> set ps. unat s \<le> x \<and> x < unat s + unat n}"

lemma seg_sizes_Cons [simp]:
  "seg_sizes ((s, e) # ss) =
     (if sat_sub e s = 0 then seg_sizes ss else (s, sat_sub e s) # seg_sizes ss)"
  by (simp add: seg_sizes_def List.map_filter_simps Let_def)

lemma seg_sizes_Nil [simp]: "seg_sizes [] = []"
  by (simp add: seg_sizes_def List.map_filter_simps)

lemma sat_sub_0_iff: "sat_sub e s = 0 \<longleftrightarrow> unat e \<le> unat (s :: u64)"
  by (metis diff_is_0_eq unat_sat_sub unsigned_0 unat_eq_zero)

lemma seg_sizes_bytes: "segs_apart ss \<Longrightarrow> pair_bytes (seg_sizes ss) = seg_bytes ss"
proof (induction ss)
  case (Cons p ss)
  then show ?case
    by (cases p) (auto simp: pair_bytes_def segs_apart_Cons sat_sub_0_iff unat_sat_sub word_le_nat_alt)
qed (simp add: pair_bytes_def)

lemma seg_sizes_pos: "\<forall>(s, n) \<in> set (seg_sizes ss). 0 < n"
  by (induction ss) (auto simp: word_gt_0 split: if_splits)

lemma seg_sizes_mem: "(s, n) \<in> set (seg_sizes ss) \<Longrightarrow> \<exists>e. (s, e) \<in> set ss \<and> n = sat_sub e s"
  by (induction ss) (force split: if_splits)+

lemma seg_sizes_order:
  "segs_apart ss \<Longrightarrow> sorted_wrt (\<lambda>(s, n) (s', n'). unat s + unat n \<le> unat s') (seg_sizes ss)"
proof (induction ss)
  case (Cons p ss)
  then show ?case
    by (cases p)
      (fastforce simp: segs_apart_Cons unat_sat_sub word_le_nat_alt dest: seg_sizes_mem)
qed simp

text \<open>
  The pieces of a region that the snapshot does not cover are exactly its bytes outside the
  snapshot's regions; they are non-empty, in order, and do not overlap.
\<close>

lemma subtract_snapshot_coverage_exact:
  assumes "regions_ok snap" and "unat start + unat sz < 2 ^ 64"
  shows "pair_bytes (subtract_snapshot_coverage start sz snap)
      = {unat start ..< unat start + unat sz} - covered snap
    \<and> (\<forall>(s, n) \<in> set (subtract_snapshot_coverage start sz snap). 0 < n)
    \<and> sorted_wrt (\<lambda>(s, n) (s', n'). unat s + unat n \<le> unat s')
        (subtract_snapshot_coverage start sz snap)"
proof -
  let ?ss = "subtract_loop snap [(start, sat_add start sz)]"
  have start: "segs_apart [(start, sat_add start sz)]"
    by (simp add: segs_apart_def le_sat_add)
  note ok = subtract_loop_apart [OF start]
  show ?thesis
    unfolding subtract_snapshot_coverage_def
    using seg_sizes_bytes [OF ok] seg_sizes_order [OF ok] seg_sizes_pos assms
    by (simp add: subtract_loop_bytes regions_ok_all_fit unat_sat_add)
qed


section \<open>Is a range mapped?\<close>

lemma mapped_loop_iff:
  assumes "regions_ok rs" and "sorted (map r_start rs)" and "cursor < stop"
  shows "mapped_loop stop rs cursor \<longleftrightarrow> {unat cursor ..< unat stop} \<subseteq> covered rs"
  using assms
proof (induction rs arbitrary: cursor)
  case Nil
  then show ?case
    by (auto simp: word_less_nat_alt word_le_nat_alt)
next
  case (Cons r rs)
  have fit: "fit_region r" and ok: "regions_ok rs" and sort: "sorted (map r_start rs)"
    using Cons.prems by (simp_all add: regions_ok_Cons)
  have later: "unat (region_end r) \<le> x" if x: "x \<in> covered rs" for x
  proof -
    obtain q where q: "q \<in> set rs" "in_region q x"
      using x by (auto simp: covered_def)
    then have "apart r q" "r_start r \<le> r_start q" "fit_region q"
      using Cons.prems by (auto simp: regions_ok_Cons dest: regions_ok_fit)
    with fit q(2) fit_region_pos [of q] show ?thesis
      by (auto simp: apart_def in_region_def fit_region_end word_le_nat_alt)
  qed
  have r: "in_region r x \<longleftrightarrow> unat (r_start r) \<le> x \<and> x < unat (region_end r)" for x
    using fit by (simp add: in_region_def fit_region_end)
  consider (skip) "region_end r \<le> cursor" | (gap) "cursor < region_end r" "cursor < r_start r"
    | (last) "r_start r \<le> cursor" "cursor < region_end r" "stop \<le> region_end r"
    | (more) "r_start r \<le> cursor" "cursor < region_end r" "region_end r < stop"
    by (meson not_le)
  then show ?case
  proof cases
    case skip
    then have "{unat cursor ..< unat stop} \<subseteq> covered (r # rs)
        \<longleftrightarrow> {unat cursor ..< unat stop} \<subseteq> covered rs"
      by (auto simp: r subset_iff word_le_nat_alt)
    with skip Cons.IH [OF ok sort Cons.prems(3)] show ?thesis by simp
  next
    case gap
    then have "unat cursor \<notin> covered (r # rs)"
      using later [of "unat cursor"] by (auto simp: r word_less_nat_alt)
    moreover have "unat cursor \<in> {unat cursor ..< unat stop}"
      using Cons.prems(3) by (simp add: word_less_nat_alt)
    ultimately show ?thesis
      using gap by (auto simp: not_le)
  next
    case last
    then show ?thesis
      by (auto simp: r min_def word_le_nat_alt word_less_nat_alt)
  next
    case more
    then have "{unat cursor ..< unat stop}
        = {unat cursor ..< unat (region_end r)} \<union> {unat (region_end r) ..< unat stop}"
      by (intro ivl_disj_un_two(3) [symmetric]) (simp_all add: word_less_nat_alt)
    moreover have "{unat cursor ..< unat (region_end r)} \<subseteq> Collect (in_region r)"
      using more(1) by (auto simp: r word_le_nat_alt)
    moreover have "{unat (region_end r) ..< unat stop} \<inter> Collect (in_region r) = {}"
      by (auto simp: r)
    ultimately have "{unat cursor ..< unat stop} \<subseteq> covered (r # rs)
        \<longleftrightarrow> {unat (region_end r) ..< unat stop} \<subseteq> covered rs"
      unfolding covered_simps by blast
    with more Cons.IH [OF ok sort more(3)] show ?thesis
      by (auto simp: min_def Let_def leD simp del: covered_simps)
  qed
qed

lemma covered_sort [simp]: "covered (sort_key f rs) = covered rs"
  by (simp add: covered_def)

lemma regions_ok_insort: "regions_ok (insort_key f r rs) \<longleftrightarrow> regions_ok (r # rs)"
  by (induction rs) (auto simp: regions_ok_Cons set_insort_key apart_sym)

lemma regions_ok_sort: "regions_ok (sort_key f rs) \<longleftrightarrow> regions_ok rs"
  by (induction rs) (simp_all add: sort_key_def regions_ok_insort regions_ok_Cons flip: sort_key_def)

text \<open>
  \<open>is_range_mapped\<close> answers whether every byte of a non-empty range lies in some region,
  however the regions are ordered and however the range is spread over them.
\<close>

lemma is_range_mapped_iff:
  assumes "regions_ok rs" and "0 < sz" and "unat start + unat sz < 2 ^ 64"
  shows "is_range_mapped rs start sz
    \<longleftrightarrow> (\<forall>x. unat start \<le> x \<and> x < unat start + unat sz \<longrightarrow> region_at rs x \<noteq> None)"
proof -
  have "regions_ok (sort_key r_start rs)"
    using assms(1) by (simp add: regions_ok_sort)
  moreover have "unat (sat_add start sz) = unat start + unat sz"
    using assms(3) by (simp add: unat_sat_add)
  moreover from this have "start < sat_add start sz"
    using assms(2) by (simp add: word_less_nat_alt)
  ultimately show ?thesis
    by (auto simp: is_range_mapped_def mapped_loop_iff region_at_None)
qed

end
