(* ===== verification/Vk_Registers.thy ===== *)
theory Vk_Registers
  imports Vk_Types
begin

text \<open>
  The register names: \<open>RegX86\<close> and \<open>RegX86_64\<close> of \<open>src/src/arch/x86.rs\<close> and
  \<open>src/src/arch/x86_64.rs\<close>, \<open>VRegister\<close> of \<open>src/src/arch/regs.rs\<close>, and the maps \<open>to_uc\<close> to the
  engine's names. The numbered families \<open>DR0 .. DR7\<close>, \<open>ST0 .. ST7\<close> and \<open>XMM0 .. ZMM31\<close> are
  constructors that carry the number, so \<open>XMM17\<close> is \<open>XMM 17\<close>. \<open>RegisterX86\<close> holds the engine's names that
  the two maps produce.
\<close>

section \<open>The enumerations\<close>

datatype RegisterX86 =
    EAX | EBX | ECX | EDX | ESI | EDI | EBP | ESP | EIP | RAX | RBX | RCX | RDX | RSI | RDI
  | RBP | RSP | R8 | R9 | R10 | R11 | R12 | R13 | R14 | R15 | RIP | EFLAGS | CS | SS
  | DS | ES | FS | GS | FS_BASE | GS_BASE | CR0 | CR1 | CR2 | CR3 | CR4 | CR8
  | DR "3 word" | ST "3 word" | XMM "5 word" | YMM "5 word" | ZMM "5 word"

datatype RegX86 =
    EAX | EBX | ECX | EDX | ESI | EDI | EBP | ESP | EIP | EFLAGS | CS | SS | DS | ES | FS
  | GS | FsBase | GsBase | CR0 | CR1 | CR2 | CR3 | CR4 | DR "3 word" | ST "3 word"
  | XMM "5 word" | YMM "5 word" | ZMM "5 word"

datatype RegX86_64 =
    RAX | RBX | RCX | RDX | RSI | RDI | RBP | RSP | R8 | R9 | R10 | R11 | R12 | R13 | R14
  | R15 | RIP | EFLAGS | CS | SS | DS | ES | FS | GS | FsBase | GsBase | CR0 | CR1 | CR2
  | CR3 | CR4 | CR8 | DR "3 word" | ST "3 word" | XMM "5 word" | YMM "5 word"
  | ZMM "5 word"

datatype VRegister = VR_X86 RegX86 | VR_X86_64 RegX86_64

section \<open>The engine's name of a register\<close>

primrec to_uc_x86 :: "RegX86 \<Rightarrow> RegisterX86" where
  "to_uc_x86 RegX86.EAX = RegisterX86.EAX"
| "to_uc_x86 RegX86.EBX = RegisterX86.EBX"
| "to_uc_x86 RegX86.ECX = RegisterX86.ECX"
| "to_uc_x86 RegX86.EDX = RegisterX86.EDX"
| "to_uc_x86 RegX86.ESI = RegisterX86.ESI"
| "to_uc_x86 RegX86.EDI = RegisterX86.EDI"
| "to_uc_x86 RegX86.EBP = RegisterX86.EBP"
| "to_uc_x86 RegX86.ESP = RegisterX86.ESP"
| "to_uc_x86 RegX86.EIP = RegisterX86.EIP"
| "to_uc_x86 RegX86.EFLAGS = RegisterX86.EFLAGS"
| "to_uc_x86 RegX86.CS = RegisterX86.CS"
| "to_uc_x86 RegX86.SS = RegisterX86.SS"
| "to_uc_x86 RegX86.DS = RegisterX86.DS"
| "to_uc_x86 RegX86.ES = RegisterX86.ES"
| "to_uc_x86 RegX86.FS = RegisterX86.FS"
| "to_uc_x86 RegX86.GS = RegisterX86.GS"
| "to_uc_x86 RegX86.FsBase = RegisterX86.FS_BASE"
| "to_uc_x86 RegX86.GsBase = RegisterX86.GS_BASE"
| "to_uc_x86 RegX86.CR0 = RegisterX86.CR0"
| "to_uc_x86 RegX86.CR1 = RegisterX86.CR1"
| "to_uc_x86 RegX86.CR2 = RegisterX86.CR2"
| "to_uc_x86 RegX86.CR3 = RegisterX86.CR3"
| "to_uc_x86 RegX86.CR4 = RegisterX86.CR4"
| "to_uc_x86 (RegX86.DR n) = RegisterX86.DR n"
| "to_uc_x86 (RegX86.ST n) = RegisterX86.ST n"
| "to_uc_x86 (RegX86.XMM n) = RegisterX86.XMM n"
| "to_uc_x86 (RegX86.YMM n) = RegisterX86.YMM n"
| "to_uc_x86 (RegX86.ZMM n) = RegisterX86.ZMM n"

primrec to_uc_x86_64 :: "RegX86_64 \<Rightarrow> RegisterX86" where
  "to_uc_x86_64 RegX86_64.RAX = RegisterX86.RAX"
| "to_uc_x86_64 RegX86_64.RBX = RegisterX86.RBX"
| "to_uc_x86_64 RegX86_64.RCX = RegisterX86.RCX"
| "to_uc_x86_64 RegX86_64.RDX = RegisterX86.RDX"
| "to_uc_x86_64 RegX86_64.RSI = RegisterX86.RSI"
| "to_uc_x86_64 RegX86_64.RDI = RegisterX86.RDI"
| "to_uc_x86_64 RegX86_64.RBP = RegisterX86.RBP"
| "to_uc_x86_64 RegX86_64.RSP = RegisterX86.RSP"
| "to_uc_x86_64 RegX86_64.R8 = RegisterX86.R8"
| "to_uc_x86_64 RegX86_64.R9 = RegisterX86.R9"
| "to_uc_x86_64 RegX86_64.R10 = RegisterX86.R10"
| "to_uc_x86_64 RegX86_64.R11 = RegisterX86.R11"
| "to_uc_x86_64 RegX86_64.R12 = RegisterX86.R12"
| "to_uc_x86_64 RegX86_64.R13 = RegisterX86.R13"
| "to_uc_x86_64 RegX86_64.R14 = RegisterX86.R14"
| "to_uc_x86_64 RegX86_64.R15 = RegisterX86.R15"
| "to_uc_x86_64 RegX86_64.RIP = RegisterX86.RIP"
| "to_uc_x86_64 RegX86_64.EFLAGS = RegisterX86.EFLAGS"
| "to_uc_x86_64 RegX86_64.CS = RegisterX86.CS"
| "to_uc_x86_64 RegX86_64.SS = RegisterX86.SS"
| "to_uc_x86_64 RegX86_64.DS = RegisterX86.DS"
| "to_uc_x86_64 RegX86_64.ES = RegisterX86.ES"
| "to_uc_x86_64 RegX86_64.FS = RegisterX86.FS"
| "to_uc_x86_64 RegX86_64.GS = RegisterX86.GS"
| "to_uc_x86_64 RegX86_64.FsBase = RegisterX86.FS_BASE"
| "to_uc_x86_64 RegX86_64.GsBase = RegisterX86.GS_BASE"
| "to_uc_x86_64 RegX86_64.CR0 = RegisterX86.CR0"
| "to_uc_x86_64 RegX86_64.CR1 = RegisterX86.CR1"
| "to_uc_x86_64 RegX86_64.CR2 = RegisterX86.CR2"
| "to_uc_x86_64 RegX86_64.CR3 = RegisterX86.CR3"
| "to_uc_x86_64 RegX86_64.CR4 = RegisterX86.CR4"
| "to_uc_x86_64 RegX86_64.CR8 = RegisterX86.CR8"
| "to_uc_x86_64 (RegX86_64.DR n) = RegisterX86.DR n"
| "to_uc_x86_64 (RegX86_64.ST n) = RegisterX86.ST n"
| "to_uc_x86_64 (RegX86_64.XMM n) = RegisterX86.XMM n"
| "to_uc_x86_64 (RegX86_64.YMM n) = RegisterX86.YMM n"
| "to_uc_x86_64 (RegX86_64.ZMM n) = RegisterX86.ZMM n"

text \<open>Two different registers of a guest never share an engine register.\<close>

lemma to_uc_x86_inj: "inj to_uc_x86"
proof (rule injI)
  fix r s
  assume "to_uc_x86 r = to_uc_x86 s"
  then show "r = s"
    by (cases r) (cases s; simp)+
qed

lemma to_uc_x86_64_inj: "inj to_uc_x86_64"
proof (rule injI)
  fix r s
  assume "to_uc_x86_64 r = to_uc_x86_64 s"
  then show "r = s"
    by (cases r) (cases s; simp)+
qed

end
