(* ===== verification/Vk_Machine.thy ===== *)
theory Vk_Machine
  imports Vk_Vstruct Vk_Intervals Vk_Registers
begin

text \<open>
  The state of the emulator (\<open>Valkyrie\<close> of \<open>src/src/lib.rs\<close> with its parts \<open>ValkyrieConfig\<close>,
  \<open>VMemory\<close>, \<open>VRegs\<close>, \<open>LinuxCreds\<close>, \<open>ElfAuxvInfo\<close>), the operations of \<open>src/src/memory.rs\<close>,
  \<open>src/src/arch/regs.rs\<close> and \<open>src/src/common.rs\<close> on it, and what stands outside the repository.

  The Unicorn engine and the host kernel are the parameter \<open>platform\<close>: one field per call the code
  makes, over an engine state \<open>'u\<close> and a host state \<open>'h\<close>. A call of the engine returns its
  \<open>uc_error\<close> on the left. What the code relies on of the engine's memory map is the hypothesis
  \<open>engine_maps\<close> (the documented behaviour of \<open>uc_mem_map\<close>, \<open>uc_mem_unmap\<close> and
  \<open>uc_mem_protect\<close>), of its memory contents \<open>engine_bytes\<close>.
\<close>

section \<open>Outside the repository\<close>

type_synonym 's engine_unit = "(uc_error + unit) \<times> 's"

record ('u, 'h) platform =
  uc_mem_map :: "u64 \<Rightarrow> u64 \<Rightarrow> Prot \<Rightarrow> 'u \<Rightarrow> 'u engine_unit"
  uc_mem_unmap :: "u64 \<Rightarrow> u64 \<Rightarrow> 'u \<Rightarrow> 'u engine_unit"
  uc_mem_protect :: "u64 \<Rightarrow> u64 \<Rightarrow> Prot \<Rightarrow> 'u \<Rightarrow> 'u engine_unit"
  uc_mem_write :: "u64 \<Rightarrow> bytes \<Rightarrow> 'u \<Rightarrow> 'u engine_unit"
  uc_mem_read :: "u64 \<Rightarrow> nat \<Rightarrow> 'u \<Rightarrow> uc_error + (nat \<Rightarrow> u8)"
    \<comment> \<open>on success byte \<open>i\<close> of the caller's buffer\<close>
  uc_reg_read :: "RegisterX86 \<Rightarrow> 'u \<Rightarrow> uc_error + u64"
  uc_reg_write :: "RegisterX86 \<Rightarrow> u64 \<Rightarrow> 'u \<Rightarrow> 'u engine_unit"
  uc_write_gdtr :: "u64 \<Rightarrow> u32 \<Rightarrow> 'u \<Rightarrow> 'u engine_unit"
    \<comment> \<open>base and limit of the \<open>uc_x86_mmr\<close>\<close>
  uc_emu_stop :: "'u \<Rightarrow> 'u engine_unit"
  libc_errno :: "'h \<Rightarrow> i32"
    \<comment> \<open>\<open>io::Error::last_os_error().raw_os_error()\<close>\<close>
  libc_uname :: "'h \<Rightarrow> (bytes \<times> bytes \<times> bytes \<times> bytes \<times> bytes \<times> bytes) option \<times> 'h"
  libc_clock_gettime :: "i32 \<Rightarrow> 'h \<Rightarrow> (i64 \<times> i64) option \<times> 'h"
  libc_getrandom :: "nat \<Rightarrow> u32 \<Rightarrow> 'h \<Rightarrow> (nat \<times> (nat \<Rightarrow> u8)) option \<times> 'h"
  libc_getrlimit :: "u32 \<Rightarrow> 'h \<Rightarrow> (u64 \<times> u64) option \<times> 'h"
  libc_prctl_capbset_read :: "u64 \<Rightarrow> 'h \<Rightarrow> i32 \<times> 'h"
  libc_getpid :: "'h \<Rightarrow> i32"
  libc_gettid :: "'h \<Rightarrow> i64"
  system_time :: "'h \<Rightarrow> u64 option \<times> 'h"
  current_dir :: "'h \<Rightarrow> string option"
  file_try_clone :: "nat \<Rightarrow> 'h \<Rightarrow> nat option \<times> 'h"
  file_seek_start :: "nat \<Rightarrow> u64 \<Rightarrow> 'h \<Rightarrow> bool \<times> 'h"
  file_read :: "nat \<Rightarrow> nat \<Rightarrow> 'h \<Rightarrow> (nat \<times> (nat \<Rightarrow> u8)) option \<times> 'h"

subsection \<open>Constants of the Linux ABI (crate \<open>libc\<close>)\<close>

definition ESRCH :: i32 where "ESRCH = 3"
definition EIO :: i32 where "EIO = 5"
definition EBADF :: i32 where "EBADF = 9"
definition ENOMEM :: i32 where "ENOMEM = 12"
definition EFAULT :: i32 where "EFAULT = 14"
definition EINVAL :: i32 where "EINVAL = 22"
definition ENOSYS :: i32 where "ENOSYS = 38"
definition PROT_READ :: i32 where "PROT_READ = 1"
definition PROT_WRITE :: i32 where "PROT_WRITE = 2"
definition PROT_EXEC :: i32 where "PROT_EXEC = 4"
definition MAP_FIXED :: i32 where "MAP_FIXED = 0x10"
definition MAP_ANONYMOUS :: i32 where "MAP_ANONYMOUS = 0x20"
definition RLIM_INFINITY :: u64 where "RLIM_INFINITY = - 1"
definition SIG_BLOCK :: i32 where "SIG_BLOCK = 0"
definition SIG_UNBLOCK :: i32 where "SIG_UNBLOCK = 1"
definition SIG_SETMASK :: i32 where "SIG_SETMASK = 2"
definition SIGTRAP :: i32 where "SIGTRAP = 5"
definition SIGKILL :: i32 where "SIGKILL = 9"
definition SIGSEGV :: i32 where "SIGSEGV = 11"
definition SIGSTOP :: i32 where "SIGSTOP = 19"
definition PR_SET_PDEATHSIG :: i32 where "PR_SET_PDEATHSIG = 1"
definition PR_GET_PDEATHSIG :: i32 where "PR_GET_PDEATHSIG = 2"
definition PR_GET_DUMPABLE :: i32 where "PR_GET_DUMPABLE = 3"
definition PR_SET_DUMPABLE :: i32 where "PR_SET_DUMPABLE = 4"
definition PR_SET_NAME :: i32 where "PR_SET_NAME = 15"
definition PR_GET_NAME :: i32 where "PR_GET_NAME = 16"
definition PR_CAPBSET_READ :: i32 where "PR_CAPBSET_READ = 23"

lemmas errno_defs =
  ESRCH_def EIO_def EBADF_def ENOMEM_def EFAULT_def EINVAL_def ENOSYS_def

lemmas prctl_defs =
  PR_SET_PDEATHSIG_def PR_GET_PDEATHSIG_def PR_GET_DUMPABLE_def PR_SET_DUMPABLE_def
  PR_SET_NAME_def PR_GET_NAME_def PR_CAPBSET_READ_def

section \<open>The state of the emulator\<close>

record ValkyrieConfig =
  c_arch :: Arch
  c_os :: OsType
  c_loader :: LoaderType
  c_rootfs :: string
  c_argv :: "bytes list"
  c_stdin_data :: bytes
  c_verbose :: bool
  c_endianess :: Endianess
  c_archsize :: u16
  c_baremetal_code :: bytes
  c_elf_file :: "string option"
  c_entry_point :: u64
  c_exit_point :: u64
  c_code_ram_size :: u64
  c_heap_size :: u64
  c_stack_size :: u64
  c_code_base_address :: u64
  c_count :: u64
  c_timeout :: u64
  c_disassemble :: bool
  c_debug :: bool
  c_debug_port :: u16

text \<open>\<open>VMemory\<close>, without the handle of the disassembler library.\<close>

record VMemory =
  m_regions :: "VMemRegion list"
  heap_addr_start :: u64
  heap_addr_exit :: u64
  stack_addr_start :: u64
  stack_addr_exit :: u64
  code_addr_start :: u64
  code_addr_exit :: u64
  tls_addr_start :: u64
  tls_addr_exit :: u64

record RegUpdate =
  ru_reg :: VRegister
  ru_value :: u64

record VRegs =
  rg_arch :: Arch
  rg_pc :: VRegister
  rg_sp :: VRegister
  last_reg_update :: "RegUpdate list"

record VArch =
  a_arch :: Arch
  a_regs :: VRegs

record LinuxCreds =
  cr_uid :: u32
  cr_euid :: u32
  cr_gid :: u32
  cr_egid :: u32

record ElfAuxvInfo =
  ax_phdr :: u64
  ax_phent :: u64
  ax_phnum :: u64
  ax_base :: u64
  ax_entry :: u64
  ax_execfn :: bytes

text \<open>An open file of the table of \<open>src/src/fs.rs\<close>; the \<open>File\<close> is the host's descriptor.\<close>

record VkFile =
  vf_file :: nat
  vf_path :: string
  vf_flags :: u64
  vf_mode :: u64

record FdTable =
  next_fd :: u64
  fd_files :: "u64 \<rightharpoonup> VkFile"

record OsInfo =
  os_load_address :: "u64 option"
  os_code_size :: "u64 option"
  os_skip_exit_check :: bool

datatype VCoreOs = Blob OsInfo | LinuxOs OsInfo

text \<open>
  \<open>Valkyrie\<close>, with the engine's state \<open>uc\<close>, the process-wide descriptor table and the host's state.
  The hook registry lives in the engine's user data and has its own theory.
\<close>

record ('u, 'h) Valkyrie =
  cfg :: ValkyrieConfig
  vstruct :: VCoreStructs
  vstate :: VState
  uc :: 'u
  varch :: VArch
  vmem :: VMemory
  vos :: VCoreOs
  exit_trap_addr :: "u64 option"
  exit_trap_hook :: "nat option"
  initial_sp :: u64
  exit_status :: "u64 option"
  crashed :: bool
  elf_auxv :: "ElfAuxvInfo option"
  linux_creds :: LinuxCreds
  guest_rt_sigactions :: "i32 \<rightharpoonup> bytes"
  guest_rt_sigmask :: bytes
  guest_prctl_name :: bytes
  guest_pdeathsig :: i32
  guest_dumpable :: i32
  stdin_offset :: nat
  soft_unicorn_errors :: bool
  prepared_start :: "u64 option"
  prepared_end :: "u64 option"
  fd_table :: FdTable
  host :: 'h

type_synonym ('u, 'h, 'a) vk_call = "('u, 'h) Valkyrie \<Rightarrow> 'a vk_outcome \<times> ('u, 'h) Valkyrie"

abbreviation regions :: "('u, 'h) Valkyrie \<Rightarrow> VMemRegion list" where
  "regions vk \<equiv> m_regions (vmem vk)"

abbreviation set_regions :: "VMemRegion list \<Rightarrow> ('u, 'h) Valkyrie \<Rightarrow> ('u, 'h) Valkyrie" where
  "set_regions rs vk \<equiv> vk\<lparr>vmem := (vmem vk)\<lparr>m_regions := rs\<rparr>\<rparr>"

text \<open>An engine call made by the emulator; \<open>conv\<close> is its \<open>map_err\<close> or the \<open>From\<close> of \<open>?\<close>.\<close>

definition uc_do ::
  "(uc_error \<Rightarrow> ValkyrieError) \<Rightarrow> ('u \<Rightarrow> (uc_error + 'a) \<times> 'u) \<Rightarrow> ('u, 'h, 'a) vk_call" where
  "uc_do conv f vk =
     (case f (uc vk) of
        (Inl e, u) \<Rightarrow> (Err (conv e), vk\<lparr>uc := u\<rparr>)
      | (Inr a, u) \<Rightarrow> (Ok a, vk\<lparr>uc := u\<rparr>))"

section \<open>Guest memory (\<open>src/src/memory.rs\<close>)\<close>

definition mem_map ::
  "('u, 'h) platform \<Rightarrow> u64 \<Rightarrow> u64 \<Rightarrow> Prot \<Rightarrow> string \<Rightarrow> ('u, 'h, unit) vk_call" where
  "mem_map P addr sz prot info vk =
     (if sz = 0 then (Err (BadConfig ''mem.map size must be > 0''), vk)
      else and_then
        (uc_do (\<lambda>_. UnicornGeneralError ''mem_map failed'') (uc_mem_map P addr sz prot) vk)
        (\<lambda>_ vk. (Ok (), set_regions (push_region (regions vk) addr sz (prot, info)) vk)))"

definition mem_write :: "('u, 'h) platform \<Rightarrow> u64 \<Rightarrow> bytes \<Rightarrow> ('u, 'h, unit) vk_call" where
  "mem_write P addr data vk =
     (if data = [] then (Err (BadConfig ''mem.write buffer must be non-empty''), vk)
      else uc_do (\<lambda>_. UnicornGeneralError ''mem_write failed'') (uc_mem_write P addr data) vk)"

text \<open>A buffer of 2 to the 63 bytes or more is a capacity overflow, which panics.\<close>

definition mem_read :: "('u, 'h) platform \<Rightarrow> u64 \<Rightarrow> nat \<Rightarrow> ('u, 'h, bytes) vk_call" where
  "mem_read P addr sz vk =
     (if sz = 0 then (Err (BadConfig ''mem.read size must be > 0''), vk)
      else if 2 ^ 63 \<le> sz then (Panic, vk)
      else case uc_mem_read P addr sz (uc vk) of
        Inl _ \<Rightarrow> (Err (UnicornGeneralError ''mem_read failed''), vk)
      | Inr f \<Rightarrow> (Ok (map f [0..<sz]), vk))"

section \<open>Registers (\<open>src/src/arch/\<close>)\<close>

definition set_reg_x86 :: "('u, 'h) platform \<Rightarrow> RegX86 \<Rightarrow> u64 \<Rightarrow> ('u, 'h, unit) vk_call" where
  "set_reg_x86 P r v = uc_do UnicornErr (uc_reg_write P (to_uc_x86 r) (ucast (ucast v :: u32)))"

definition get_reg_x86 :: "('u, 'h) platform \<Rightarrow> RegX86 \<Rightarrow> ('u, 'h, u64) vk_call" where
  "get_reg_x86 P r vk =
     (case uc_reg_read P (to_uc_x86 r) (uc vk) of
        Inl e \<Rightarrow> (Err (UnicornErr e), vk)
      | Inr v \<Rightarrow> (Ok (ucast (ucast v :: u32)), vk))"

definition set_reg_x86_64 :: "('u, 'h) platform \<Rightarrow> RegX86_64 \<Rightarrow> u64 \<Rightarrow> ('u, 'h, unit) vk_call" where
  "set_reg_x86_64 P r v = uc_do UnicornErr (uc_reg_write P (to_uc_x86_64 r) v)"

definition get_reg_x86_64 :: "('u, 'h) platform \<Rightarrow> RegX86_64 \<Rightarrow> ('u, 'h, u64) vk_call" where
  "get_reg_x86_64 P r vk =
     (case uc_reg_read P (to_uc_x86_64 r) (uc vk) of
        Inl e \<Rightarrow> (Err (UnicornErr e), vk)
      | Inr v \<Rightarrow> (Ok v, vk))"

definition vregs_new :: "Arch \<Rightarrow> VRegs" where
  "vregs_new a =
     (case a of
        X86_64 \<Rightarrow> \<lparr>rg_arch = a, rg_pc = VR_X86_64 RegX86_64.RIP, rg_sp = VR_X86_64 RegX86_64.RSP,
          last_reg_update = []\<rparr>
      | X86 \<Rightarrow> \<lparr>rg_arch = a, rg_pc = VR_X86 RegX86.EIP, rg_sp = VR_X86 RegX86.ESP,
          last_reg_update = []\<rparr>)"

definition varch_new :: "Arch \<Rightarrow> VArch" where
  "varch_new a = \<lparr>a_arch = a, a_regs = vregs_new a\<rparr>"

abbreviation vregs :: "('u, 'h) Valkyrie \<Rightarrow> VRegs" where
  "vregs vk \<equiv> a_regs (varch vk)"

abbreviation set_vregs :: "VRegs \<Rightarrow> ('u, 'h) Valkyrie \<Rightarrow> ('u, 'h) Valkyrie" where
  "set_vregs r vk \<equiv> vk\<lparr>varch := (varch vk)\<lparr>a_regs := r\<rparr>\<rparr>"

definition take_reg_updates :: "VRegs \<Rightarrow> RegUpdate list \<times> VRegs" where
  "take_reg_updates r = (last_reg_update r, r\<lparr>last_reg_update := []\<rparr>)"

text \<open>What \<open>set_reg\<close> does after the engine's write, whose error it drops.\<close>

definition note_reg_update :: "VRegister \<Rightarrow> u64 \<Rightarrow> ('u, 'h) Valkyrie \<Rightarrow> ('u, 'h) Valkyrie" where
  "note_reg_update r v vk =
     (if r \<noteq> rg_pc (vregs vk)
      then set_vregs ((vregs vk)\<lparr>last_reg_update :=
        last_reg_update (vregs vk) @ [\<lparr>ru_reg = r, ru_value = v\<rparr>]\<rparr>) vk
      else vk)"

definition set_reg :: "('u, 'h) platform \<Rightarrow> VRegister \<Rightarrow> u64 \<Rightarrow> ('u, 'h, unit) vk_call" where
  "set_reg P r v vk =
     (case (rg_arch (vregs vk), r) of
        (X86, VR_X86 x) \<Rightarrow> (Ok (), note_reg_update r v (snd (set_reg_x86 P x v vk)))
      | (X86_64, VR_X86_64 x) \<Rightarrow> (Ok (), note_reg_update r v (snd (set_reg_x86_64 P x v vk)))
      | _ \<Rightarrow> (Err (NotImplemented ''set_reg not implemented for this arch''), vk))"

definition get_reg :: "('u, 'h) platform \<Rightarrow> VRegister \<Rightarrow> ('u, 'h, u64) vk_call" where
  "get_reg P r vk =
     (case (rg_arch (vregs vk), r) of
        (X86, VR_X86 x) \<Rightarrow> get_reg_x86 P x vk
      | (X86_64, VR_X86_64 x) \<Rightarrow> get_reg_x86_64 P x vk
      | _ \<Rightarrow> (Err (NotImplemented ''get_reg not implemented for this arch''), vk))"

definition get_pc :: "('u, 'h) platform \<Rightarrow> ('u, 'h, u64) vk_call" where
  "get_pc P vk = get_reg P (rg_pc (vregs vk)) vk"

definition set_pc :: "('u, 'h) platform \<Rightarrow> u64 \<Rightarrow> ('u, 'h, unit) vk_call" where
  "set_pc P v vk = set_reg P (rg_pc (vregs vk)) v vk"

definition get_sp :: "('u, 'h) platform \<Rightarrow> ('u, 'h, u64) vk_call" where
  "get_sp P vk = get_reg P (rg_sp (vregs vk)) vk"

definition set_sp :: "('u, 'h) platform \<Rightarrow> u64 \<Rightarrow> ('u, 'h, unit) vk_call" where
  "set_sp P v vk = set_reg P (rg_sp (vregs vk)) v vk"

section \<open>Helpers (\<open>src/src/common.rs\<close>)\<close>

definition neg_errno :: "i32 \<Rightarrow> u64" where
  "neg_errno e = - scast e"

definition last_errno :: "('u, 'h) platform \<Rightarrow> ('u, 'h) Valkyrie \<Rightarrow> u64" where
  "last_errno P vk = neg_errno (libc_errno P (host vk))"

text \<open>\<open>zero_fill\<close> writes a page of zeros at a time; the loop ends as the size shrinks.\<close>

function zero_fill :: "('u, 'h) platform \<Rightarrow> u64 \<Rightarrow> u64 \<Rightarrow> ('u, 'h, unit) vk_call" where
  "zero_fill P addr sz vk =
     (if sz = 0 then (Ok (), vk)
      else let n = min sz PAGE_SIZE in
        and_then (uc_do (\<lambda>_. UnicornGeneralError ''mem_write failed'')
            (uc_mem_write P addr (replicate (unat n) 0)) vk)
          (\<lambda>_ vk. zero_fill P (sat_add addr n) (sat_sub sz n) vk))"
  by pat_completeness auto
termination
  by (relation "measure (\<lambda>(_, _, sz, _). unat sz)")
    (auto simp: unat_sat_sub unat_PAGE_SIZE min_def word_le_nat_alt word_less_nat_alt
      unat_eq_zero intro!: gr0I)

declare zero_fill.simps [simp del]

definition write_word :: "('u, 'h) platform \<Rightarrow> u64 \<Rightarrow> u64 \<Rightarrow> nat \<Rightarrow> ('u, 'h, unit) vk_call" where
  "write_word P addr v width vk =
     (if 8 < width then (Panic, vk) else mem_write P addr (take width (to_le_bytes v)) vk)"

definition read_word :: "('u, 'h) platform \<Rightarrow> u64 \<Rightarrow> nat \<Rightarrow> ('u, 'h, u64) vk_call" where
  "read_word P addr width vk =
     and_then (mem_read P addr width vk)
       (\<lambda>bs vk. if 8 < width then (Panic, vk)
                else (Ok (from_le (bs @ replicate (8 - width) 0)), vk))"

end
