(* ===== verification/Vk_Engine.thy ===== *)
theory Vk_Engine
  imports Vk_Machine
begin

text \<open>
  What the emulator relies on of the engine, as named hypotheses over a view of the engine's state,
  and the lemmas of the memory, word and register operations of \<open>Vk_Machine\<close> under them. The central
  invariant is \<open>in_sync\<close>: the emulator's region list and the engine's memory map agree on every
  address. \<open>ref_engine\<close> is a small engine on which the hypotheses hold; the witnesses use it.
\<close>

section \<open>Hypotheses on the engine\<close>

abbreviation in_range :: "u64 \<Rightarrow> nat \<Rightarrow> nat \<Rightarrow> bool" where
  "in_range a n x \<equiv> unat a \<le> x \<and> x < unat a + n"

text \<open>
  The memory map: mapping succeeds only on whole free pages, unmapping and protecting only on whole
  mapped pages; a failed call changes nothing and no other call changes the map.
\<close>

definition pages :: "u64 \<Rightarrow> u64 \<Rightarrow> bool" where
  "pages a n \<longleftrightarrow> unat a mod 4096 = 0 \<and> unat n mod 4096 = 0 \<and> unat a + unat n \<le> 2 ^ 64"

definition engine_maps :: "('u, 'h) platform \<Rightarrow> ('u \<Rightarrow> nat \<Rightarrow> Prot option) \<Rightarrow> bool" where
  "engine_maps P view \<longleftrightarrow>
     (\<forall>a n p u u'. uc_mem_map P a n p u = (Inr (), u') \<longrightarrow>
        pages a n \<and> (\<forall>x. in_range a (unat n) x \<longrightarrow> view u x = None)
        \<and> view u' = (\<lambda>x. if in_range a (unat n) x then Some p else view u x))
   \<and> (\<forall>a n u u'. uc_mem_unmap P a n u = (Inr (), u') \<longrightarrow>
        pages a n \<and> (\<forall>x. in_range a (unat n) x \<longrightarrow> view u x \<noteq> None)
        \<and> view u' = (\<lambda>x. if in_range a (unat n) x then None else view u x))
   \<and> (\<forall>a n p u u'. uc_mem_protect P a n p u = (Inr (), u') \<longrightarrow>
        pages a n \<and> (\<forall>x. in_range a (unat n) x \<longrightarrow> view u x \<noteq> None)
        \<and> view u' = (\<lambda>x. if in_range a (unat n) x then Some p else view u x))
   \<and> (\<forall>a n p u e u'. uc_mem_map P a n p u = (Inl e, u') \<longrightarrow> view u' = view u)
   \<and> (\<forall>a n u e u'. uc_mem_unmap P a n u = (Inl e, u') \<longrightarrow> view u' = view u)
   \<and> (\<forall>a n p u e u'. uc_mem_protect P a n p u = (Inl e, u') \<longrightarrow> view u' = view u)
   \<and> (\<forall>a d u. view (snd (uc_mem_write P a d u)) = view u)
   \<and> (\<forall>r v u. view (snd (uc_reg_write P r v u)) = view u)
   \<and> (\<forall>b l u. view (snd (uc_write_gdtr P b l u)) = view u)
   \<and> (\<forall>u. view (snd (uc_emu_stop P u)) = view u)"

text \<open>
  The contents: a successful write replaces exactly the bytes written, a successful read returns the
  bytes of its range; a failed write, and the calls that are not writes, keep every byte.
\<close>

definition engine_bytes :: "('u, 'h) platform \<Rightarrow> ('u \<Rightarrow> nat \<Rightarrow> u8) \<Rightarrow> bool" where
  "engine_bytes P content \<longleftrightarrow>
     (\<forall>a d u u'. uc_mem_write P a d u = (Inr (), u') \<longrightarrow>
        unat a + length d \<le> 2 ^ 64
        \<and> content u' = (\<lambda>x. if in_range a (length d) x then d ! (x - unat a) else content u x))
   \<and> (\<forall>a d u e u'. uc_mem_write P a d u = (Inl e, u') \<longrightarrow> content u' = content u)
   \<and> (\<forall>a n u f. uc_mem_read P a n u = Inr f \<longrightarrow> (\<forall>i < n. f i = content u (unat a + i)))
   \<and> (\<forall>r v u. content (snd (uc_reg_write P r v u)) = content u)
   \<and> (\<forall>b l u. content (snd (uc_write_gdtr P b l u)) = content u)"

text \<open>
  The registers of a set \<open>G\<close> whose members do not share bits (those of one guest's names): a write
  of a value of the register's width is read back and leaves the others alone.
\<close>

definition engine_regs :: "('u, 'h) platform \<Rightarrow> RegisterX86 set \<Rightarrow> nat \<Rightarrow> bool" where
  "engine_regs P G w \<longleftrightarrow>
     (\<forall>r \<in> G. \<forall>u v. unat v < 2 ^ w \<longrightarrow>
        fst (uc_reg_write P r v u) = Inr ()
        \<and> uc_reg_read P r (snd (uc_reg_write P r v u)) = Inr v
        \<and> (\<forall>s \<in> G. s \<noteq> r \<longrightarrow> uc_reg_read P s (snd (uc_reg_write P r v u)) = uc_reg_read P s u))"

text \<open>The laws one call at a time.\<close>

lemma engine_map_done:
  "engine_maps P view \<Longrightarrow> uc_mem_map P a n p u = (Inr r, u') \<Longrightarrow>
     pages a n \<and> (\<forall>x. in_range a (unat n) x \<longrightarrow> view u x = None)
     \<and> view u' = (\<lambda>x. if in_range a (unat n) x then Some p else view u x)"
  by (simp add: engine_maps_def)

lemma engine_unmap_done:
  "engine_maps P view \<Longrightarrow> uc_mem_unmap P a n u = (Inr r, u') \<Longrightarrow>
     pages a n \<and> (\<forall>x. in_range a (unat n) x \<longrightarrow> view u x \<noteq> None)
     \<and> view u' = (\<lambda>x. if in_range a (unat n) x then None else view u x)"
  by (simp add: engine_maps_def)

lemma engine_protect_done:
  "engine_maps P view \<Longrightarrow> uc_mem_protect P a n p u = (Inr r, u') \<Longrightarrow>
     pages a n \<and> (\<forall>x. in_range a (unat n) x \<longrightarrow> view u x \<noteq> None)
     \<and> view u' = (\<lambda>x. if in_range a (unat n) x then Some p else view u x)"
  by (simp add: engine_maps_def)

lemma engine_refused:
  assumes "engine_maps P view"
  shows "uc_mem_map P a n p u = (Inl e, u') \<Longrightarrow> view u' = view u"
    and "uc_mem_unmap P a n u = (Inl e, u') \<Longrightarrow> view u' = view u"
    and "uc_mem_protect P a n p u = (Inl e, u') \<Longrightarrow> view u' = view u"
  using assms by (auto simp: engine_maps_def)

section \<open>The bookkeeping invariant\<close>

definition paged :: "VMemRegion list \<Rightarrow> bool" where
  "paged rs \<longleftrightarrow> (\<forall>r \<in> set rs. unat (r_start r) mod 4096 = 0 \<and> unat (r_size r) mod 4096 = 0)"

definition in_sync :: "('u \<Rightarrow> nat \<Rightarrow> Prot option) \<Rightarrow> ('u, 'h) Valkyrie \<Rightarrow> bool" where
  "in_sync view vk \<longleftrightarrow> regions_ok (regions vk) \<and> paged (regions vk)
     \<and> view (uc vk) = (\<lambda>x. map_option fst (region_at (regions vk) x))"

text \<open>The invariant only reads the region list and the engine.\<close>

lemma in_sync_cong:
  "in_sync view vk \<Longrightarrow> regions vk' = regions vk \<Longrightarrow> view (uc vk') = view (uc vk) \<Longrightarrow> in_sync view vk'"
  by (simp add: in_sync_def)

lemma paged_end:
  assumes "paged rs" "r \<in> set rs" "fit_region r"
  shows "unat (r_start r) + unat (r_size r) \<le> 2 ^ 64 - 4096"
proof -
  obtain i j where "unat (r_start r) = 4096 * i" "unat (r_size r) = 4096 * j"
    using assms by (auto simp: paged_def elim!: dvdE mod_0_imp_dvd [THEN dvdE])
  then have "4096 * (i + j) < 2 ^ 64"
    using assms(3) by (simp add: fit_region_def)
  then have "i + j \<le> 2 ^ 52 - 1" by simp
  then show ?thesis
    using \<open>unat (r_start r) = _\<close> \<open>unat (r_size r) = _\<close> by simp
qed

lemma in_sync_below_top: "in_sync view vk \<Longrightarrow> below_top (regions vk)"
  unfolding in_sync_def below_top_def using paged_end regions_ok_fit by metis

lemma in_sync_view:
  "in_sync view vk \<Longrightarrow> view (uc vk) x = None \<longleftrightarrow> region_at (regions vk) x = None"
  by (simp add: in_sync_def)

subsection \<open>Mapping a region\<close>

lemma paged_push: "paged rs \<Longrightarrow> pages a n \<Longrightarrow> paged (push_region rs a n v)"
  by (auto simp: paged_def push_region_def pages_def)

text \<open>
  A mapping that does not end exactly at the top of the address space keeps the invariant; on success its range was free and is
  the one region added, otherwise the list is unchanged.
\<close>

lemma mem_map_spec:
  assumes laws: "engine_maps P view" and sync: "in_sync view vk"
    and fits: "unat addr + unat sz \<noteq> 2 ^ 64"
  shows "in_sync view (snd (mem_map P addr sz prot info vk))
    \<and> (fst (mem_map P addr sz prot info vk) = Ok () \<longrightarrow>
         book.free (regions vk) addr sz \<and> pages addr sz \<and> sz \<noteq> 0
         \<and> regions (snd (mem_map P addr sz prot info vk)) = push_region (regions vk) addr sz (prot, info))
    \<and> (fst (mem_map P addr sz prot info vk) \<noteq> Ok () \<longrightarrow>
         regions (snd (mem_map P addr sz prot info vk)) = regions vk)"
proof (cases "sz = 0")
  case True
  then show ?thesis
    using sync by (simp add: mem_map_def)
next
  case False
  obtain res u' where call: "uc_mem_map P addr sz prot (uc vk) = (res, u')"
    by fastforce
  show ?thesis
  proof (cases res)
    case (Inl e)
    then have "view u' = view (uc vk)"
      using laws call by (auto simp: engine_maps_def)
    with Inl call False sync show ?thesis
      by (auto simp: mem_map_def uc_do_def in_sync_def)
  next
    case (Inr r)
    then have pg: "pages addr sz" and free: "\<forall>x. in_range addr (unat sz) x \<longrightarrow> view (uc vk) x = None"
      and view: "view u' = (\<lambda>x. if in_range addr (unat sz) x then Some prot else view (uc vk) x)"
      using laws call by (auto simp: engine_maps_def)
    have free': "book.free (regions vk) addr sz"
      using free sync by (simp add: book.free_def in_sync_def)
    have ok: "regions_ok (regions vk)" and paged: "paged (regions vk)"
      using sync by (simp_all add: in_sync_def)
    have pos: "0 < sz"
      using False by (simp add: word_gt_0)
    have "unat addr + unat sz < 2 ^ 64"
      using fits pg by (simp add: pages_def)
    then have "regions_ok (push_region (regions vk) addr sz (prot, info))"
      using free' unfolding book.free_def by (intro push_region_ok ok pos)
    then have "in_sync view (vk\<lparr>uc := u', vmem := (vmem vk)\<lparr>m_regions :=
        push_region (regions vk) addr sz (prot, info)\<rparr>\<rparr>)"
      using sync paged pg view book.look_add_free [OF ok free']
      by (auto simp: in_sync_def paged_push fun_eq_iff)
    with Inr call False free' pg show ?thesis
      by (simp add: mem_map_def uc_do_def)
  qed
qed

subsection \<open>Unmapping and protecting\<close>

lemma cut_region_paged:
  assumes "unat a mod 4096 = 0" "unat n mod 4096 = 0" "fit_region r"
    and "unat (r_start r) mod 4096 = 0" "unat (r_size r) mod 4096 = 0"
    and "q \<in> set (cut_region a (sat_add a n) r)"
  shows "unat (r_start q) mod 4096 = 0 \<and> unat (r_size q) mod 4096 = 0"
proof -
  have end_mod: "unat (region_end r) mod 4096 = 0"
    using assms by (simp add: fit_region_end mod_add_eq [symmetric, of "unat (r_start r)"])
  have stop: "unat (sat_add a n) = unat a + unat n" if "sat_add a n < region_end r"
    using that unat_bound_le [of "region_end r"]
    by (auto simp: word_less_nat_alt unat_sat_add min_def split: if_splits)
  have sum: "(unat a + unat n) mod 4096 = 0"
    using assms(1,2) by (simp add: mod_add_eq [symmetric, of "unat a"])
  have diff: "(x - y) mod 4096 = 0" if "x mod 4096 = 0" "y mod 4096 = 0" for x y :: nat
    using that by (simp add: mod_eq_0_iff_dvd dvd_diff_nat)
  show ?thesis
    using assms end_mod stop sum
    by (auto simp: cut_region_def unat_sat_sub intro!: diff split: if_splits)
qed

lemma paged_remove:
  assumes "regions_ok rs" "paged rs" "unat a mod 4096 = 0" "unat n mod 4096 = 0"
  shows "paged (remove_range rs a n)"
proof (cases "n = 0")
  case False
  show ?thesis
    unfolding paged_def
  proof
    fix q assume "q \<in> set (remove_range rs a n)"
    then obtain r where "r \<in> set rs" "q \<in> set (cut_region a (sat_add a n) r)"
      using False by (auto simp: remove_range_def)
    with assms show "unat (r_start q) mod 4096 = 0 \<and> unat (r_size q) mod 4096 = 0"
      by (intro cut_region_paged [of a n r]) (auto simp: paged_def dest: regions_ok_fit)
  qed
qed (simp add: remove_range_def assms)

text \<open>The engine's unmap followed by \<open>remove_range\<close>, as \<open>munmap\<close> and the snapshot code do it.\<close>

lemma unmap_sync:
  assumes laws: "engine_maps P view" and sync: "in_sync view vk"
    and call: "uc_mem_unmap P a n (uc vk) = (Inr (), u')"
  shows "in_sync view (vk\<lparr>uc := u', vmem := (vmem vk)\<lparr>m_regions := remove_range (regions vk) a n\<rparr>\<rparr>)
    \<and> (\<forall>x. in_range a (unat n) x \<longrightarrow> region_at (regions vk) x \<noteq> None)"
proof -
  have pg: "pages a n" and mapped: "\<forall>x. in_range a (unat n) x \<longrightarrow> view (uc vk) x \<noteq> None"
    and view: "view u' = (\<lambda>x. if in_range a (unat n) x then None else view (uc vk) x)"
    using laws call by (auto simp: engine_maps_def)
  have "regions_ok (regions vk)" "paged (regions vk)"
    using sync by (simp_all add: in_sync_def)
  then have "regions_ok (remove_range (regions vk) a n)" "paged (remove_range (regions vk) a n)"
    using pg by (simp_all add: book.inv_remove paged_remove pages_def)
  moreover have "view u' = (\<lambda>x. map_option fst (region_at (remove_range (regions vk) a n) x))"
    using view sync by (auto simp: in_sync_def fun_eq_iff book.look_remove)
  ultimately show ?thesis
    using mapped in_sync_view [OF sync] by (auto simp: in_sync_def)
qed

text \<open>
  The update of \<open>sys_mprotect\<close> gives every region that meets the range the new protection, the whole
  of it. It is exact when no region reaches outside.
\<close>

lemma protect_region_at:
  assumes "list_all fit_region rs"
  shows "region_at (protect_regions start stop p rs) x =
    (case List.find (\<lambda>r. in_region r x) rs of None \<Rightarrow> None
     | Some r \<Rightarrow> Some (if start < region_end r \<and> r_start r < stop then p else r_prot r, r_info r))"
  using assms
  by (induction rs) (auto simp: protect_regions_def in_region_def fit_region_plus)

lemma protect_regions_ok:
  "regions_ok (protect_regions start stop p rs) = regions_ok rs"
  "paged (protect_regions start stop p rs) = paged rs"
proof -
  have upd: "fit_region (r\<lparr>r_prot := p\<rparr>) = fit_region r" "apart (r\<lparr>r_prot := p\<rparr>) q = apart r q"
    "apart q (r\<lparr>r_prot := p\<rparr>) = apart q r" for q r
    by (simp_all add: fit_region_def apart_def)
  show "regions_ok (protect_regions start stop p rs) = regions_ok rs"
  proof (induction rs)
    case (Cons r rs)
    have "(\<forall>q \<in> set (protect_regions start stop p rs). apart r q) = (\<forall>q \<in> set rs. apart r q)" for r
      unfolding protect_regions_def set_map ball_simps by (auto simp: upd)
    then show ?case
      using Cons by (auto simp: protect_regions_def regions_ok_Cons upd)
  qed (simp add: protect_regions_def)
  show "paged (protect_regions start stop p rs) = paged rs"
    unfolding paged_def protect_regions_def set_map ball_simps by auto
qed

section \<open>Bytes and words in guest memory\<close>

definition guest_bytes :: "('u \<Rightarrow> nat \<Rightarrow> u8) \<Rightarrow> u64 \<Rightarrow> nat \<Rightarrow> ('u, 'h) Valkyrie \<Rightarrow> bytes" where
  "guest_bytes content a n vk = map (\<lambda>i. content (uc vk) (unat a + i)) [0..<n]"

lemma length_guest_bytes [simp]: "length (guest_bytes content a n vk) = n"
  by (simp add: guest_bytes_def)

lemma mem_write_Ok:
  assumes "engine_bytes P content" and "mem_write P a d vk = (Ok x, vk')"
  shows "d \<noteq> [] \<and> unat a + length d \<le> 2 ^ 64 \<and> vk' = vk\<lparr>uc := uc vk'\<rparr>
    \<and> content (uc vk') = (\<lambda>x. if in_range a (length d) x then d ! (x - unat a) else content (uc vk) x)"
  using assms by (auto simp: mem_write_def uc_do_def engine_bytes_def split: if_splits prod.splits sum.splits)

lemma mem_read_Ok:
  assumes "engine_bytes P content" and "mem_read P a n vk = (Ok bs, vk')"
  shows "n \<noteq> 0 \<and> vk' = vk \<and> bs = guest_bytes content a n vk"
  using assms by (auto simp: mem_read_def guest_bytes_def engine_bytes_def split: if_splits sum.splits)

lemma mem_read_same_state: "snd (mem_read P a n vk) = vk"
  by (simp add: mem_read_def split: sum.split)

lemma guest_bytes_write:
  assumes "engine_bytes P content" and "mem_write P a d vk = (Ok x, vk')"
  shows "guest_bytes content a (length d) vk' = d"
  using mem_write_Ok [OF assms] by (auto simp: guest_bytes_def intro: nth_equalityI)

lemma from_le_take_le_bytes:
  "(from_le (le_bytes n (v :: u64) @ replicate m 0) :: u64) = take_bit (8 * n) v"
  by (simp add: from_le_append_zeros from_le_le_bytes)

text \<open>
  A word written to guest memory at some width and read back at that width is the value cut to
  the width.
\<close>

theorem read_word_after_write_word:
  assumes "engine_bytes P content"
    and "write_word P a v width vk = (Ok x, vk1)" and "read_word P a width vk1 = (Ok w, vk2)"
  shows "w = take_bit (8 * width) v \<and> vk2 = vk1"
proof -
  have width: "width \<le> 8" and wr: "mem_write P a (le_bytes width v) vk = (Ok x, vk1)"
    using assms(2) by (auto simp: write_word_def to_le_bytes_def take_le_bytes split: if_splits)
  obtain bs where rd: "mem_read P a width vk1 = (Ok bs, vk1)"
    and w: "w = from_le (bs @ replicate (8 - width) 0)" "vk2 = vk1"
    using assms(3) mem_read_same_state [of P a width vk1]
    by (auto simp: read_word_def outcome_elim split: if_splits)
  have "bs = le_bytes width v"
    using mem_read_Ok [OF assms(1) rd] guest_bytes_write [OF assms(1) wr] by simp
  with w show ?thesis
    by (simp add: from_le_take_le_bytes)
qed

text \<open>Writing words keeps everything but the engine, and its memory map.\<close>

lemma view_uc_do_write:
  assumes "engine_maps P view"
  shows "view (snd (uc_mem_write P a d u)) = view u"
    "view (snd (uc_reg_write P r v u)) = view u"
    "view (snd (uc_write_gdtr P b l u)) = view u"
    "view (snd (uc_emu_stop P u)) = view u"
  using assms by (simp_all add: engine_maps_def)

lemma uc_do_uc: "snd (uc_do conv f vk) = vk\<lparr>uc := snd (f (uc vk))\<rparr>"
  by (simp add: uc_do_def split: prod.split sum.split)

lemma mem_write_sync:
  assumes "engine_maps P view" and "in_sync view vk"
  shows "in_sync view (snd (mem_write P a d vk))"
  using assms by (auto simp: mem_write_def uc_do_uc view_uc_do_write intro: in_sync_cong)

lemma mem_read_sync: "in_sync view vk \<Longrightarrow> in_sync view (snd (mem_read P a n vk))"
  by (simp add: mem_read_same_state)

lemma write_word_sync:
  "engine_maps P view \<Longrightarrow> in_sync view vk \<Longrightarrow> in_sync view (snd (write_word P a v n vk))"
  by (simp add: write_word_def mem_write_sync)

subsection \<open>\<open>zero_fill\<close>\<close>

lemma engine_write_Ok:
  "engine_bytes P content \<Longrightarrow> uc_mem_write P a d u = (Inr y, u') \<Longrightarrow>
     content u' = (\<lambda>x. if in_range a (length d) x then d ! (x - unat a) else content u x)"
  by (simp add: engine_bytes_def)

text \<open>
  \<open>zero_fill\<close>, which writes in chunks of one page: when it succeeds every byte of the range is 0 and
  every other byte is what it was.
\<close>

lemma zero_fill_content:
  assumes "engine_bytes P content" and "unat a + unat n \<le> 2 ^ 64"
    and "zero_fill P a n vk = (Ok x, vk')"
  shows "content (uc vk') = (\<lambda>i. if in_range a (unat n) i then 0 else content (uc vk) i)
    \<and> vk' = vk\<lparr>uc := uc vk'\<rparr>"
  using assms
proof (induction P a n vk rule: zero_fill.induct)
  case (1 P a n vk)
  show ?case
  proof (cases "n = 0")
    case True
    then show ?thesis
      using "1.prems"(3) by (auto simp: zero_fill.simps fun_eq_iff)
  next
    case False
    let ?k = "min n PAGE_SIZE"
    obtain vk1 where call: "uc_do (\<lambda>_. UnicornGeneralError ''mem_write failed'')
        (uc_mem_write P a (replicate (unat ?k) 0)) vk = (Ok (), vk1)"
      and rest: "zero_fill P (sat_add a ?k) (sat_sub n ?k) vk1 = (Ok x, vk')"
      using "1.prems"(3) False by (auto simp: zero_fill.simps [of P a n vk] Let_def outcome_elim)
    from call obtain u where wr: "uc_mem_write P a (replicate (unat ?k) 0) (uc vk) = (Inr (), u)"
      and vk1: "vk1 = vk\<lparr>uc := u\<rparr>"
      by (auto simp: uc_do_def split: prod.splits sum.splits)
    have k: "unat ?k \<le> unat n"
      by (simp add: min_def word_le_nat_alt)
    have content: "content u = (\<lambda>i. if in_range a (unat ?k) i then 0 else content (uc vk) i)"
      using engine_write_Ok [OF "1.prems"(1) wr] by (auto simp: fun_eq_iff)
    have n': "unat (sat_sub n ?k) = unat n - unat ?k"
      by (simp add: unat_sat_sub)
    show ?thesis
    proof (cases "unat n = unat ?k")
      case True
      then have "sat_sub n ?k = 0"
        using n' by (simp add: unat_eq_zero)
      then show ?thesis
        using rest content True vk1 by (auto simp: zero_fill.simps)
    next
      case more: False
      have a': "unat (sat_add a ?k) = unat a + unat ?k"
        using "1.prems"(2) more k by (simp add: unat_sat_add)
      have "unat (sat_add a ?k) + unat (sat_sub n ?k) \<le> 2 ^ 64"
        using a' n' k "1.prems"(2) by simp
      from "1.IH" [OF False refl call "1.prems"(1) this rest] show ?thesis
        using a' n' k content vk1 by (auto simp: fun_eq_iff)
    qed
  qed
qed

lemma zero_fill_sync:
  "engine_maps P view \<Longrightarrow> in_sync view vk \<Longrightarrow> in_sync view (snd (zero_fill P a n vk))"
proof (induction P a n vk rule: zero_fill.induct)
  case (1 P a n vk)
  let ?r = "uc_do (\<lambda>_. UnicornGeneralError ''mem_write failed'')
        (uc_mem_write P a (replicate (unat (min n PAGE_SIZE)) 0)) vk"
  have step: "in_sync view (snd ?r)"
    using "1.prems" by (auto simp: uc_do_uc view_uc_do_write intro: in_sync_cong)
  show ?case
  proof (cases "n = 0")
    case False
    have "in_sync view (snd (and_then ?r
        (\<lambda>_ vk. zero_fill P (sat_add a (min n PAGE_SIZE)) (sat_sub n (min n PAGE_SIZE)) vk)))"
      by (rule and_then_keeps [where P = "in_sync view"], rule step)
        (rule "1.IH" [OF False refl _ "1.prems"(1)])
    then show ?thesis
      using False unfolding zero_fill.simps [of P a n vk] by (simp only: Let_def if_False)
  next
    case True
    then show ?thesis
      using "1.prems" unfolding zero_fill.simps [of P a n vk] by simp
  qed
qed

section \<open>Registers\<close>

lemma note_reg_update_uc [simp]:
  "uc (note_reg_update r v vk) = uc vk" "regions (note_reg_update r v vk) = regions vk"
  "rg_arch (vregs (note_reg_update r v vk)) = rg_arch (vregs vk)"
  "host (note_reg_update r v vk) = host vk"
  by (simp_all add: note_reg_update_def)

lemma note_reg_update_log:
  "last_reg_update (vregs (note_reg_update r v vk)) = last_reg_update (vregs vk)
     @ (if r = rg_pc (vregs vk) then [] else [\<lparr>ru_reg = r, ru_value = v\<rparr>])"
  by (simp add: note_reg_update_def)

lemma get_reg_note [simp]: "fst (get_reg P s (note_reg_update r v vk)) = fst (get_reg P s vk)"
  by (simp add: get_reg_def get_reg_x86_def get_reg_x86_64_def split: Arch.split VRegister.split sum.split)

lemma set_reg_sync:
  "engine_maps P view \<Longrightarrow> in_sync view vk \<Longrightarrow> in_sync view (snd (set_reg P r v vk))"
  by (auto simp: set_reg_def set_reg_x86_def set_reg_x86_64_def uc_do_uc view_uc_do_write
      split: Arch.split VRegister.split intro: in_sync_cong)

lemma get_reg_same_state: "snd (get_reg P r vk) = vk"
  by (simp add: get_reg_def get_reg_x86_def get_reg_x86_64_def split: Arch.split VRegister.split sum.split)

lemma low32_take_bit: "(ucast (ucast (v :: u64) :: u32) :: u64) = take_bit 32 v"
  by (rule bit_word_eqI) (auto simp: bit_ucast_iff bit_take_bit_iff)

lemma unat_low32: "unat (ucast (ucast (v :: u64) :: u32) :: u64) < 2 ^ 32"
  unfolding low32_take_bit unsigned_take_bit_eq by (rule take_bit_nat_less_exp)

lemma set_get_x86:
  assumes "engine_regs P (to_uc_x86 ` R) 32" "rg_arch (vregs vk) = X86" "r \<in> R" "s \<in> R"
  shows "fst (get_reg P (VR_X86 s) (snd (set_reg P (VR_X86 r) v vk)))
    = (if s = r then Ok (take_bit 32 v) else fst (get_reg P (VR_X86 s) vk))"
proof -
  let ?w = "ucast (ucast v :: u32) :: u64"
  have "uc_reg_read P (to_uc_x86 s) (snd (uc_reg_write P (to_uc_x86 r) ?w u))
      = (if s = r then Inr ?w else uc_reg_read P (to_uc_x86 s) u)" for u
    using assms(1,3,4) unat_low32 injD [OF to_uc_x86_inj] by (fastforce simp: engine_regs_def)
  with assms(2) show ?thesis
    by (simp add: set_reg_def get_reg_def get_reg_x86_def set_reg_x86_def uc_do_uc low32_take_bit
        split: sum.split)
qed

lemma set_get_x86_64:
  assumes "engine_regs P (to_uc_x86_64 ` R) 64" "rg_arch (vregs vk) = X86_64" "r \<in> R" "s \<in> R"
  shows "fst (get_reg P (VR_X86_64 s) (snd (set_reg P (VR_X86_64 r) v vk)))
    = (if s = r then Ok v else fst (get_reg P (VR_X86_64 s) vk))"
proof -
  have "uc_reg_read P (to_uc_x86_64 s) (snd (uc_reg_write P (to_uc_x86_64 r) v u))
      = (if s = r then Inr v else uc_reg_read P (to_uc_x86_64 s) u)" for u
    using assms(1,3,4) injD [OF to_uc_x86_64_inj] by (fastforce simp: engine_regs_def)
  with assms(2) show ?thesis
    by (simp add: set_reg_def get_reg_def get_reg_x86_64_def set_reg_x86_64_def uc_do_uc
        split: sum.split)
qed

lemma set_reg_arch [simp]: "rg_arch (vregs (snd (set_reg P r v vk))) = rg_arch (vregs vk)"
  by (auto simp: set_reg_def note_reg_update_def set_reg_x86_def set_reg_x86_64_def uc_do_uc
      split: Arch.split VRegister.split)

text \<open>
  On an i386 guest \<open>set_reg\<close> then \<open>get_reg\<close> gives the value cut to 32 bits, every other register
  of the guest keeps its value, and the update is noted for the trace unless the register is the
  program counter.
\<close>

theorem x86_get_reg_after_set_reg:
  assumes "engine_regs P (to_uc_x86 ` R) 32" and "rg_arch (vregs vk) = X86" and "r \<in> R"
  shows "set_reg P (VR_X86 r) v vk = (Ok (), snd (set_reg P (VR_X86 r) v vk))
    \<and> fst (get_reg P (VR_X86 r) (snd (set_reg P (VR_X86 r) v vk))) = Ok (take_bit 32 v)
    \<and> (\<forall>s \<in> R. s \<noteq> r \<longrightarrow> fst (get_reg P (VR_X86 s) (snd (set_reg P (VR_X86 r) v vk)))
          = fst (get_reg P (VR_X86 s) vk))
    \<and> last_reg_update (vregs (snd (set_reg P (VR_X86 r) v vk))) = last_reg_update (vregs vk)
          @ (if VR_X86 r = rg_pc (vregs vk) then [] else [\<lparr>ru_reg = VR_X86 r, ru_value = v\<rparr>])"
proof -
  have "fst (set_reg P (VR_X86 r) v vk) = Ok ()"
    using assms(2) by (simp add: set_reg_def)
  moreover have "last_reg_update (vregs (snd (set_reg P (VR_X86 r) v vk))) = last_reg_update (vregs vk)
      @ (if VR_X86 r = rg_pc (vregs vk) then [] else [\<lparr>ru_reg = VR_X86 r, ru_value = v\<rparr>])"
    using assms(2) by (auto simp: set_reg_def set_reg_x86_def uc_do_uc note_reg_update_log)
  ultimately show ?thesis
    using set_get_x86 [OF assms(1-3)] assms(3) by (intro conjI ballI impI) (simp_all add: prod_eq_iff)
qed

text \<open>
  The same on an x86_64 guest, where the whole 64 bits are kept.
\<close>

theorem x86_64_get_reg_after_set_reg:
  assumes "engine_regs P (to_uc_x86_64 ` R) 64" and "rg_arch (vregs vk) = X86_64" and "r \<in> R"
  shows "set_reg P (VR_X86_64 r) v vk = (Ok (), snd (set_reg P (VR_X86_64 r) v vk))
    \<and> fst (get_reg P (VR_X86_64 r) (snd (set_reg P (VR_X86_64 r) v vk))) = Ok v
    \<and> (\<forall>s \<in> R. s \<noteq> r \<longrightarrow> fst (get_reg P (VR_X86_64 s) (snd (set_reg P (VR_X86_64 r) v vk)))
          = fst (get_reg P (VR_X86_64 s) vk))"
proof -
  have "fst (set_reg P (VR_X86_64 r) v vk) = Ok ()"
    using assms(2) by (simp add: set_reg_def)
  then show ?thesis
    using set_get_x86_64 [OF assms] assms(3) by (intro conjI ballI impI) (simp_all add: prod_eq_iff)
qed

section \<open>A reference engine\<close>

text \<open>A memory map, a byte for every address and a value for every register.\<close>

record ref_state =
  ref_view :: "nat \<Rightarrow> Prot option"
  ref_content :: "nat \<Rightarrow> u8"
  ref_regs :: "RegisterX86 \<Rightarrow> u64"

definition ref_fill :: "u64 \<Rightarrow> u64 \<Rightarrow> Prot option \<Rightarrow> ref_state \<Rightarrow> ref_state" where
  "ref_fill a n p u = u\<lparr>ref_view := (\<lambda>x. if in_range a (unat n) x then p else ref_view u x)\<rparr>"

definition ref_engine :: "(ref_state, unit) platform" where
  "ref_engine = \<lparr>
     uc_mem_map = (\<lambda>a n p u.
       if pages a n \<and> (\<forall>x \<in> {unat a ..< unat a + unat n}. ref_view u x = None)
       then (Inr (), ref_fill a n (Some p) u) else (Inl 1, u)),
     uc_mem_unmap = (\<lambda>a n u.
       if pages a n \<and> (\<forall>x \<in> {unat a ..< unat a + unat n}. ref_view u x \<noteq> None)
       then (Inr (), ref_fill a n None u) else (Inl 1, u)),
     uc_mem_protect = (\<lambda>a n p u.
       if pages a n \<and> (\<forall>x \<in> {unat a ..< unat a + unat n}. ref_view u x \<noteq> None)
       then (Inr (), ref_fill a n (Some p) u) else (Inl 1, u)),
     uc_mem_write = (\<lambda>a d u.
       if unat a + length d \<le> 2 ^ 64
       then (Inr (), u\<lparr>ref_content := (\<lambda>x. if in_range a (length d) x then d ! (x - unat a)
              else ref_content u x)\<rparr>)
       else (Inl 1, u)),
     uc_mem_read = (\<lambda>a n u. Inr (\<lambda>i. ref_content u (unat a + i))),
     uc_reg_read = (\<lambda>r u. Inr (ref_regs u r)),
     uc_reg_write = (\<lambda>r v u. (Inr (), u\<lparr>ref_regs := (ref_regs u)(r := v)\<rparr>)),
     uc_write_gdtr = (\<lambda>b l u. (Inr (), u)),
     uc_emu_stop = (\<lambda>u. (Inr (), u)),
     libc_errno = (\<lambda>h. 0),
     libc_uname = (\<lambda>h. (None, h)),
     libc_clock_gettime = (\<lambda>c h. (Some (1, 2), h)),
     libc_getrandom = (\<lambda>n f h. (Some (n, \<lambda>i. 7), h)),
     libc_getrlimit = (\<lambda>r h. (Some (1, 2), h)),
     libc_prctl_capbset_read = (\<lambda>a h. (1, h)),
     libc_getpid = (\<lambda>h. 100),
     libc_gettid = (\<lambda>h. 100),
     system_time = (\<lambda>h. (Some 1, h)),
     current_dir = (\<lambda>h. Some ''/''),
     file_try_clone = (\<lambda>f h. (Some f, h)),
     file_seek_start = (\<lambda>f n h. (True, h)),
     file_read = (\<lambda>f n h. (Some (n, \<lambda>i. 9), h))\<rparr>"

lemma ref_engine_maps: "engine_maps ref_engine ref_view"
  unfolding engine_maps_def
  by (intro conjI; simp add: ref_engine_def ref_fill_def split: if_splits; fastforce)

lemma ref_engine_bytes: "engine_bytes ref_engine ref_content"
  unfolding engine_bytes_def
  by (intro conjI; simp add: ref_engine_def split: if_splits; fastforce)

lemma ref_engine_regs: "engine_regs ref_engine G w"
  by (simp add: engine_regs_def ref_engine_def)

text \<open>A small emulator on it: one read-write page of code at 0x400000, two heap pages at 0x600000.\<close>

definition ref_cfg :: "Arch \<Rightarrow> ValkyrieConfig" where
  "ref_cfg a = \<lparr>c_arch = a, c_os = Linux, c_loader = Elf, c_rootfs = ''/srv'', c_argv = [],
     c_stdin_data = [], c_verbose = False, c_endianess = LittleEndian,
     c_archsize = snd (defaults_for_arch a), c_baremetal_code = [], c_elf_file = None,
     c_entry_point = 0x400000, c_exit_point = 0, c_code_ram_size = 0x1000, c_heap_size = 0x1000,
     c_stack_size = 0x1000, c_code_base_address = 0x400000, c_count = - 1, c_timeout = - 1,
     c_disassemble = False, c_debug = False, c_debug_port = 1234\<rparr>"

definition ref_regions :: "VMemRegion list" where
  "ref_regions =
     [\<lparr>r_start = 0x400000, r_size = 0x1000, r_prot = Prot_ALL, r_info = ''[code]''\<rparr>,
      \<lparr>r_start = 0x600000, r_size = 0x2000, r_prot = Prot_ALL, r_info = HEAP\<rparr>]"

definition ref_vk :: "Arch \<Rightarrow> (ref_state, unit) Valkyrie" where
  "ref_vk a = \<lparr>cfg = ref_cfg a, vstruct = \<lparr>vs_endian = LittleEndian, vs_bit = snd (defaults_for_arch a)\<rparr>,
     vstate = Running,
     uc = \<lparr>ref_view = (\<lambda>x. map_option fst (region_at ref_regions x)), ref_content = (\<lambda>x. 0),
       ref_regs = (\<lambda>r. 0)\<rparr>,
     varch = varch_new a,
     vmem = \<lparr>m_regions = ref_regions, heap_addr_start = 0x600000, heap_addr_exit = 0x602000,
       stack_addr_start = 0, stack_addr_exit = 0, code_addr_start = 0x400000,
       code_addr_exit = 0x401000, tls_addr_start = 0x500000, tls_addr_exit = 0x501000\<rparr>,
     vos = LinuxOs \<lparr>os_load_address = None, os_code_size = None, os_skip_exit_check = True\<rparr>,
     exit_trap_addr = None, exit_trap_hook = None, initial_sp = 0, exit_status = None, crashed = False,
     elf_auxv = None, linux_creds = \<lparr>cr_uid = 0, cr_euid = 0, cr_gid = 0, cr_egid = 0\<rparr>,
     guest_rt_sigactions = Map.empty, guest_rt_sigmask = [], guest_prctl_name = replicate 16 0,
     guest_pdeathsig = 0, guest_dumpable = 1, stdin_offset = 0, soft_unicorn_errors = False,
     prepared_start = None, prepared_end = None, fd_table = \<lparr>next_fd = 3, fd_files = Map.empty\<rparr>,
     host = ()\<rparr>"

lemma ref_regions_ok: "regions_ok ref_regions" "paged ref_regions"
  by (simp_all add: ref_regions_def regions_ok_def fit_region_def apart_def paged_def)

lemma ref_vk_sel [simp]:
  "uc (ref_vk a) = \<lparr>ref_view = (\<lambda>x. map_option fst (region_at ref_regions x)), ref_content = (\<lambda>x. 0),
       ref_regs = (\<lambda>r. 0)\<rparr>"
  "regions (ref_vk a) = ref_regions" "cfg (ref_vk a) = ref_cfg a" "varch (ref_vk a) = varch_new a"
  "heap_addr_start (vmem (ref_vk a)) = 0x600000" "heap_addr_exit (vmem (ref_vk a)) = 0x602000"
  by (simp_all add: ref_vk_def)

lemma ref_cfg_arch [simp]: "c_arch (ref_cfg a) = a" "c_archsize (ref_cfg a) = snd (defaults_for_arch a)"
  by (simp_all add: ref_cfg_def)

lemma varch_new_sel [simp]: "a_arch (varch_new a) = a" "rg_arch (a_regs (varch_new a)) = a"
  by (simp_all add: varch_new_def vregs_new_def split: Arch.split)

lemma ref_in_sync: "in_sync ref_view (ref_vk a)"
  by (simp add: in_sync_def ref_regions_ok)

theorem read_word_after_write_word_witness:
  "fst (read_word ref_engine 0x400000 4 (snd (write_word ref_engine 0x400000 0x1122334455 4 (ref_vk X86))))
    = Ok 0x22334455"
proof -
  let ?vk1 = "snd (write_word ref_engine 0x400000 0x1122334455 4 (ref_vk X86))"
  have wr: "write_word ref_engine 0x400000 0x1122334455 4 (ref_vk X86) = (Ok (), ?vk1)"
    by (simp add: write_word_def mem_write_def uc_do_def ref_engine_def to_le_bytes_def take_le_bytes
        le_bytes_def)
  obtain w vk2 where rd: "read_word ref_engine 0x400000 4 ?vk1 = (Ok w, vk2)"
    by (simp add: read_word_def mem_read_def ref_engine_def)
  show ?thesis
    using read_word_after_write_word [OF ref_engine_bytes wr rd] rd by simp
qed

theorem x86_get_reg_after_set_reg_witness:
  "fst (get_reg ref_engine (VR_X86 RegX86.EAX)
      (snd (set_reg ref_engine (VR_X86 RegX86.EAX) 0x1ffffffff (ref_vk X86)))) = Ok 0xffffffff"
  using x86_get_reg_after_set_reg [of ref_engine UNIV "ref_vk X86" "RegX86.EAX" "0x1ffffffff"]
  by (simp add: ref_engine_regs)

theorem x86_64_get_reg_after_set_reg_witness:
  "fst (get_reg ref_engine (VR_X86_64 RegX86_64.RAX)
      (snd (set_reg ref_engine (VR_X86_64 RegX86_64.RAX) 0x1ffffffff (ref_vk X86_64)))) = Ok 0x1ffffffff"
  using x86_64_get_reg_after_set_reg [of ref_engine UNIV "ref_vk X86_64" "RegX86_64.RAX" "0x1ffffffff"]
  by (simp add: ref_engine_regs)

end
