(* ===== verification/Vk_SysMemory.thy ===== *)
theory Vk_SysMemory
  imports Vk_Engine
begin

text \<open>
  The memory system calls of \<open>src/src/os/syscall/memory.rs\<close> and the argument block \<open>SubCtx\<close> of
  \<open>src/src/os/register_syscall.rs\<close>. A handler is a function of the arguments and the emulator; the
  number it returns is what the guest sees, a negated errno included. The theorems say when a handler
  keeps \<open>in_sync\<close>, what it maps, and where the source lets the region list and the engine drift apart.
\<close>

section \<open>Arguments\<close>

record SubCtx =
  sc_args :: "u64 list"

definition subctx_new :: "u64 list \<Rightarrow> SubCtx" where
  "subctx_new args = \<lparr>sc_args = args\<rparr>"

definition arg0 :: "SubCtx \<Rightarrow> u64" where "arg0 s = sc_args s ! 0"
definition arg1 :: "SubCtx \<Rightarrow> u64" where "arg1 s = sc_args s ! 1"
definition arg2 :: "SubCtx \<Rightarrow> u64" where "arg2 s = sc_args s ! 2"
definition arg3 :: "SubCtx \<Rightarrow> u64" where "arg3 s = sc_args s ! 3"
definition arg4 :: "SubCtx \<Rightarrow> u64" where "arg4 s = sc_args s ! 4"
definition arg5 :: "SubCtx \<Rightarrow> u64" where "arg5 s = sc_args s ! 5"

lemmas arg_defs = arg0_def arg1_def arg2_def arg3_def arg4_def arg5_def

type_synonym ('u, 'h) sys_fn = "SubCtx \<Rightarrow> ('u, 'h, u64) vk_call"

section \<open>The handlers\<close>

definition sys_brk :: "('u, 'h) platform \<Rightarrow> ('u, 'h) sys_fn" where
  "sys_brk P sctx vk =
     (let request = arg0 sctx; current = heap_addr_exit (vmem vk) in
      if request = 0 then (Ok current, vk)
      else let
        heap_end = mapped_heap_end (regions vk) (heap_addr_exit (vmem vk));
        limit = heap_limit (regions vk) heap_end;
        new_break = align_up request PAGE_SIZE in
      if new_break < heap_addr_start (vmem vk) \<or> new_break > limit then (Ok current, vk)
      else and_then
        (if new_break > heap_end
         then let map_start = align_up heap_end PAGE_SIZE; map_size = sat_sub new_break map_start in
           if map_size > 0 then mem_map P map_start map_size Prot_ALL HEAP vk else (Ok (), vk)
         else (Ok (), vk))
        (\<lambda>_ vk. (Ok new_break, vk\<lparr>vmem := (vmem vk)\<lparr>heap_addr_exit := new_break\<rparr>\<rparr>)))"

definition sys_arch_prctl :: "('u, 'h) platform \<Rightarrow> ('u, 'h) sys_fn" where
  "sys_arch_prctl P sctx vk =
     (let code = arg0 sctx; addr = arg1 sctx in
      if a_arch (varch vk) \<noteq> X86_64 then (Ok (neg_errno EINVAL), vk)
      else if code = ARCH_SET_FS then
        and_then (set_reg P (VR_X86_64 RegX86_64.FsBase) addr vk) (\<lambda>_ vk. (Ok 0, vk))
      else if code = ARCH_SET_GS then
        and_then (set_reg P (VR_X86_64 RegX86_64.GsBase) addr vk) (\<lambda>_ vk. (Ok 0, vk))
      else if code = ARCH_GET_FS then
        and_then (get_reg P (VR_X86_64 RegX86_64.FsBase) vk)
          (\<lambda>v vk. and_then (mem_write P addr (to_le_bytes v) vk) (\<lambda>_ vk. (Ok 0, vk)))
      else if code = ARCH_GET_GS then
        and_then (get_reg P (VR_X86_64 RegX86_64.GsBase) vk)
          (\<lambda>v vk. and_then (mem_write P addr (to_le_bytes v) vk) (\<lambda>_ vk. (Ok 0, vk)))
      else (Ok (neg_errno EINVAL), vk))"

definition prot_from_flags :: "i32 \<Rightarrow> Prot" where
  "prot_from_flags p =
     (let mapped = Prot_NONE;
          mapped = (if p AND PROT_READ \<noteq> 0 then prot_or mapped Prot_READ else mapped);
          mapped = (if p AND PROT_WRITE \<noteq> 0 then prot_or mapped Prot_WRITE else mapped)
      in if p AND PROT_EXEC \<noteq> 0 then prot_or mapped Prot_EXEC else mapped)"

text \<open>
  The descriptor is duplicated, moved to the offset and read into a zeroed buffer of the length of the
  mapping; a short read leaves the rest of the buffer zero.
\<close>

definition map_file_bytes ::
  "('u, 'h) platform \<Rightarrow> u64 \<Rightarrow> u64 \<Rightarrow> u64 \<Rightarrow> u64 \<Rightarrow> ('u, 'h, u64) vk_call" where
  "map_file_bytes P addr sz fd offset vk =
     (if sz = 0 then (Ok 0, vk)
      else case fd_files (fd_table vk) fd of
        None \<Rightarrow> (Ok (neg_errno EBADF), vk)
      | Some vkf \<Rightarrow>
          (case file_try_clone P (vf_file vkf) (host vk) of
             (None, h) \<Rightarrow> (Ok (neg_errno EIO), vk\<lparr>host := h\<rparr>)
           | (Some file, h) \<Rightarrow>
               (case file_seek_start P file offset h of
                  (False, h) \<Rightarrow> (Ok (neg_errno EIO), vk\<lparr>host := h\<rparr>)
                | (True, h) \<Rightarrow>
                    if 2 ^ 63 \<le> unat sz then (Panic, vk\<lparr>host := h\<rparr>)
                    else case file_read P file (unat sz) h of
                      (None, h) \<Rightarrow> (Ok (neg_errno EIO), vk\<lparr>host := h\<rparr>)
                    | (Some (n, f), h) \<Rightarrow>
                        and_then (mem_write P addr
                            (map (\<lambda>i. if i < n then f i else 0) [0..<unat sz]) (vk\<lparr>host := h\<rparr>))
                          (\<lambda>_ vk. (Ok 0, vk)))))"

definition sys_mmap :: "('u, 'h) platform \<Rightarrow> ('u, 'h) sys_fn" where
  "sys_mmap P sctx vk =
     (let addr = arg0 sctx; len = arg1 sctx; prot = (ucast (arg2 sctx) :: i32);
          flags = (ucast (arg3 sctx) :: i32); fd = (arg4 sctx :: i64); offset = arg5 sctx in
      if len = 0 then (Ok (neg_errno EINVAL), vk)
      else let map_len = align_up len PAGE_SIZE in
      if \<not> is_multiple_of addr PAGE_SIZE then (Ok (neg_errno EINVAL), vk)
      else let use_fixed = (flags AND MAP_FIXED \<noteq> 0) in
      case (if addr = 0 \<or> \<not> use_fixed
            then next_mmap_addr (regions vk) (heap_addr_exit (vmem vk)) map_len else Some addr) of
        None \<Rightarrow> (Diverges, vk)
      | Some map_addr \<Rightarrow>
          let vk = (if use_fixed
                    then set_regions (remove_range (regions vk) map_addr map_len)
                           (vk\<lparr>uc := snd (uc_mem_unmap P map_addr map_len (uc vk))\<rparr>)
                    else vk) in
          (case mem_map P map_addr map_len (prot_from_flags prot) ''[mmap]'' vk of
             (Ok _, vk) \<Rightarrow>
               if flags AND MAP_ANONYMOUS = 0 \<and> 0 \<le> sint fd
               then and_then (map_file_bytes P map_addr map_len fd offset vk)
                 (\<lambda>result vk. if result \<noteq> 0 then (Ok result, vk) else (Ok map_addr, vk))
               else (Ok map_addr, vk)
           | (Err _, vk) \<Rightarrow> (Ok (neg_errno ENOMEM), vk)
           | (Panic, vk) \<Rightarrow> (Panic, vk)
           | (Diverges, vk) \<Rightarrow> (Diverges, vk)))"

definition sys_mmap2 :: "('u, 'h) platform \<Rightarrow> ('u, 'h) sys_fn" where
  "sys_mmap2 P sctx vk =
     sys_mmap P (subctx_new [arg0 sctx, arg1 sctx, arg2 sctx, arg3 sctx, arg4 sctx,
       sat_mul (arg5 sctx) PAGE_SIZE]) vk"

definition sys_mprotect :: "('u, 'h) platform \<Rightarrow> ('u, 'h) sys_fn" where
  "sys_mprotect P sctx vk =
     (let addr = arg0 sctx; len = arg1 sctx; prot = (ucast (arg2 sctx) :: i32) in
      if len = 0 then (Ok (neg_errno EINVAL), vk)
      else let
        start = align_down addr PAGE_SIZE;
        stop = align_up (sat_add addr len) PAGE_SIZE;
        sz = sat_sub stop start;
        uc_prot = prot_from_flags prot in
      and_then (uc_do UnicornErr (uc_mem_protect P start sz uc_prot) vk)
        (\<lambda>_ vk. (Ok 0, set_regions (protect_regions start stop uc_prot (regions vk)) vk)))"

definition sys_munmap :: "('u, 'h) platform \<Rightarrow> ('u, 'h) sys_fn" where
  "sys_munmap P sctx vk =
     (let addr = arg0 sctx; len = arg1 sctx in
      if addr = 0 then (Ok (neg_errno EINVAL), vk)
      else if len = 0 then (Ok (neg_errno EINVAL), vk)
      else if \<not> is_multiple_of addr PAGE_SIZE then (Ok (neg_errno EINVAL), vk)
      else let unmap_len = align_up len PAGE_SIZE in
      case uc_mem_unmap P addr unmap_len (uc vk) of
        (Inl _, u) \<Rightarrow> (Ok (neg_errno EINVAL), vk\<lparr>uc := u\<rparr>)
      | (Inr _, u) \<Rightarrow>
          (Ok 0, set_regions (remove_range (regions vk) addr unmap_len) (vk\<lparr>uc := u\<rparr>)))"

section \<open>Unmapping\<close>

lemma region_at_cong: "regions vk' = regions vk \<Longrightarrow> region_at (regions vk') = region_at (regions vk)"
  by simp

text \<open>
  C25: \<open>munmap\<close> keeps the region list and the engine's map in agreement. It returns 0 or \<open>EINVAL\<close>, and
  after 0 exactly the addresses of the range, all mapped before, are gone.
\<close>

theorem sys_munmap_correct:
  assumes "engine_maps P view" and "in_sync view vk"
  shows "in_sync view (snd (sys_munmap P sctx vk))
    \<and> (fst (sys_munmap P sctx vk) = Ok 0
        \<and> (\<forall>x. in_range (arg0 sctx) (unat (align_up (arg1 sctx) PAGE_SIZE)) x \<longrightarrow>
              region_at (regions vk) x \<noteq> None)
        \<and> region_at (regions (snd (sys_munmap P sctx vk))) = region_at (regions vk) |`
              (- {unat (arg0 sctx) ..< unat (arg0 sctx) + unat (align_up (arg1 sctx) PAGE_SIZE)})
      \<or> fst (sys_munmap P sctx vk) = Ok (neg_errno EINVAL)
        \<and> regions (snd (sys_munmap P sctx vk)) = regions vk)"
proof (cases "arg0 sctx = 0 \<or> arg1 sctx = 0 \<or> \<not> is_multiple_of (arg0 sctx) PAGE_SIZE")
  case True
  then show ?thesis
    using assms(2) by (auto simp: sys_munmap_def Let_def)
next
  case False
  let ?n = "align_up (arg1 sctx) PAGE_SIZE"
  obtain res u' where call: "uc_mem_unmap P (arg0 sctx) ?n (uc vk) = (res, u')"
    by fastforce
  show ?thesis
  proof (cases res)
    case (Inl e)
    then have "view u' = view (uc vk)"
      using assms(1) call by (auto simp: engine_maps_def)
    with False Inl call assms(2) show ?thesis
      by (auto simp: sys_munmap_def Let_def in_sync_def)
  next
    case (Inr r)
    have ok: "regions_ok (regions vk)"
      using assms(2) by (simp add: in_sync_def)
    show ?thesis
      using False Inr call unmap_sync [OF assms] ok
      by (auto simp: sys_munmap_def Let_def fun_eq_iff restrict_map_def book.look_remove)
  qed
qed

theorem sys_munmap_correct_witness:
  "fst (sys_munmap ref_engine (subctx_new [0x400000, 0x1000, 0, 0, 0, 0]) (ref_vk X86)) = Ok 0
   \<and> region_at (regions (snd (sys_munmap ref_engine (subctx_new [0x400000, 0x1000, 0, 0, 0, 0])
        (ref_vk X86)))) 0x400fff = None"
proof -
  let ?s = "subctx_new [0x400000, 0x1000, 0, 0, 0, 0]"
  have "fst (sys_munmap ref_engine ?s (ref_vk X86)) = Ok 0"
    by (simp add: sys_munmap_def subctx_new_def arg_defs is_multiple_of_def align_up_def PAGE_SIZE_def
        ref_engine_def pages_def ref_regions_def in_region_def)
  then show ?thesis
    using sys_munmap_correct [OF ref_engine_maps ref_in_sync, of ?s X86]
    by (auto simp: subctx_new_def arg_defs align_up_def PAGE_SIZE_def neg_errno_def EINVAL_def)
qed

section \<open>Mapping\<close>

lemma multiple_of_page: "is_multiple_of a PAGE_SIZE \<longleftrightarrow> unat a mod 4096 = 0"
  using is_multiple_of_unat [OF PAGE_SIZE_not_0, of a] by (simp add: unat_PAGE_SIZE)

lemma mem_map_no_panic: "fst (mem_map P a n p i vk) \<noteq> Panic" "fst (mem_map P a n p i vk) \<noteq> Diverges"
  by (simp_all add: mem_map_def uc_do_def split: prod.split sum.split)

lemma mem_map_spec':
  assumes "engine_maps P view" "in_sync view vk" "unat a + unat n \<noteq> 2 ^ 64"
  shows "(case mem_map P a n p i vk of
      (Ok _, vk') \<Rightarrow> in_sync view vk' \<and> book.free (regions vk) a n
        \<and> regions vk' = push_region (regions vk) a n (p, i)
    | (_, vk') \<Rightarrow> in_sync view vk' \<and> regions vk' = regions vk)"
  using mem_map_spec [OF assms, of p i] mem_map_no_panic [of P a n p i vk]
  by (cases "mem_map P a n p i vk"; cases "fst (mem_map P a n p i vk)") auto

text \<open>The range a mapping without a fixed address gets.\<close>

lemma sys_mmap_free_range:
  assumes laws: "engine_maps P view" and sync: "in_sync view vk"
    and len: "arg1 sctx \<noteq> 0" "unat (arg1 sctx) \<le> 2 ^ 64 - 4096"
    and addr: "unat (arg0 sctx) mod 4096 = 0"
    and flags: "(ucast (arg3 sctx) :: i32) AND MAP_FIXED = 0"
      "(ucast (arg3 sctx) :: i32) AND MAP_ANONYMOUS \<noteq> 0"
  shows "\<exists>a. next_mmap_addr (regions vk) (heap_addr_exit (vmem vk)) (align_up (arg1 sctx) PAGE_SIZE) = Some a
    \<and> (unat a + unat (align_up (arg1 sctx) PAGE_SIZE) \<noteq> 2 ^ 64 \<longrightarrow>
        in_sync view (snd (sys_mmap P sctx vk))
        \<and> (fst (sys_mmap P sctx vk) = Ok (neg_errno ENOMEM)
             \<and> regions (snd (sys_mmap P sctx vk)) = regions vk
           \<or> fst (sys_mmap P sctx vk) = Ok a
             \<and> book.free (regions vk) a (align_up (arg1 sctx) PAGE_SIZE)
             \<and> region_at (regions (snd (sys_mmap P sctx vk))) = (\<lambda>x.
                 if in_range a (unat (align_up (arg1 sctx) PAGE_SIZE)) x
                 then Some (prot_from_flags (ucast (arg2 sctx)), ''[mmap]'')
                 else region_at (regions vk) x)))"
proof -
  let ?n = "align_up (arg1 sctx) PAGE_SIZE"
  have ok: "regions_ok (regions vk)"
    using sync by (simp add: in_sync_def)
  have "?n \<noteq> 0"
    using align_up_ge [OF len(2)] len(1) by auto
  then obtain a where a: "next_mmap_addr (regions vk) (heap_addr_exit (vmem vk)) ?n = Some a"
    using mmap_search_returns [OF in_sync_below_top [OF sync]] by (auto simp: next_mmap_addr_def)
  let ?p = "prot_from_flags (ucast (arg2 sctx))"
  have sys: "sys_mmap P sctx vk = (case mem_map P a ?n ?p ''[mmap]'' vk of
       (Ok _, vk') \<Rightarrow> (Ok a, vk') | (Err _, vk') \<Rightarrow> (Ok (neg_errno ENOMEM), vk')
     | (Panic, vk') \<Rightarrow> (Panic, vk') | (Diverges, vk') \<Rightarrow> (Diverges, vk'))"
    using len(1) addr flags a
    by (simp add: sys_mmap_def multiple_of_page Let_def split: prod.split outcome.split)
  have "unat a + unat ?n \<noteq> 2 ^ 64 \<longrightarrow> in_sync view (snd (sys_mmap P sctx vk))
        \<and> (fst (sys_mmap P sctx vk) = Ok (neg_errno ENOMEM)
             \<and> regions (snd (sys_mmap P sctx vk)) = regions vk
           \<or> fst (sys_mmap P sctx vk) = Ok a \<and> book.free (regions vk) a ?n
             \<and> region_at (regions (snd (sys_mmap P sctx vk))) = (\<lambda>x. if in_range a (unat ?n) x
                 then Some (?p, ''[mmap]'') else region_at (regions vk) x))"
  proof
    assume "unat a + unat ?n \<noteq> 2 ^ 64"
    from mem_map_spec' [OF laws sync this, of ?p "''[mmap]''"] mem_map_no_panic [of P a ?n ?p "''[mmap]''" vk]
    show "in_sync view (snd (sys_mmap P sctx vk))
        \<and> (fst (sys_mmap P sctx vk) = Ok (neg_errno ENOMEM)
             \<and> regions (snd (sys_mmap P sctx vk)) = regions vk
           \<or> fst (sys_mmap P sctx vk) = Ok a \<and> book.free (regions vk) a ?n
             \<and> region_at (regions (snd (sys_mmap P sctx vk))) = (\<lambda>x. if in_range a (unat ?n) x
                 then Some (?p, ''[mmap]'') else region_at (regions vk) x))"
      unfolding sys
      by (auto split: prod.splits outcome.splits simp: book.look_add_free [OF ok] fun_eq_iff)
  qed
  with a show ?thesis by blast
qed

text \<open>
  C26: an anonymous mapping without \<open>MAP_FIXED\<close>, of a length that rounding up to pages does not wrap. A length
  of zero or a hint that is no page boundary is refused with \<open>EINVAL\<close> and nothing changes. Otherwise the search
  for a range returns and, unless the range found ends exactly at the top of the address space, the call gives
  either \<open>ENOMEM\<close> with the region list unchanged or the address of a range that was free and now carries the
  requested protection, every other address keeping its region; both keep the agreement with the engine.
\<close>

theorem sys_mmap_anonymous:
  assumes laws: "engine_maps P view" and sync: "in_sync view vk"
    and len: "unat (arg1 sctx) \<le> 2 ^ 64 - 4096"
    and flags: "(ucast (arg3 sctx) :: i32) AND MAP_FIXED = 0"
      "(ucast (arg3 sctx) :: i32) AND MAP_ANONYMOUS \<noteq> 0"
  shows "if arg1 sctx = 0 \<or> unat (arg0 sctx) mod 4096 \<noteq> 0
    then sys_mmap P sctx vk = (Ok (neg_errno EINVAL), vk)
    else \<exists>a. next_mmap_addr (regions vk) (heap_addr_exit (vmem vk)) (align_up (arg1 sctx) PAGE_SIZE) = Some a
    \<and> (unat a + unat (align_up (arg1 sctx) PAGE_SIZE) \<noteq> 2 ^ 64 \<longrightarrow>
        in_sync view (snd (sys_mmap P sctx vk))
        \<and> (fst (sys_mmap P sctx vk) = Ok (neg_errno ENOMEM)
             \<and> regions (snd (sys_mmap P sctx vk)) = regions vk
           \<or> fst (sys_mmap P sctx vk) = Ok a
             \<and> book.free (regions vk) a (align_up (arg1 sctx) PAGE_SIZE)
             \<and> region_at (regions (snd (sys_mmap P sctx vk))) = (\<lambda>x.
                 if in_range a (unat (align_up (arg1 sctx) PAGE_SIZE)) x
                 then Some (prot_from_flags (ucast (arg2 sctx)), ''[mmap]'')
                 else region_at (regions vk) x)))"
proof (cases "arg1 sctx = 0 \<or> unat (arg0 sctx) mod 4096 \<noteq> 0")
  case True
  then show ?thesis by (auto simp: sys_mmap_def multiple_of_page Let_def)
next
  case False
  with sys_mmap_free_range [OF laws sync _ len _ flags] show ?thesis by simp
qed

theorem sys_mmap_anonymous_witness:
  "sys_mmap ref_engine (subctx_new [0, 0, 3, 0x22, 0, 0]) (ref_vk X86) = (Ok (neg_errno EINVAL), ref_vk X86)
   \<and> (\<exists>a. next_mmap_addr ref_regions 0x602000 0x1000 = Some a
     \<and> (unat a + 0x1000 \<noteq> 2 ^ 64 \<longrightarrow>
          in_sync ref_view (snd (sys_mmap ref_engine (subctx_new [0, 0x1000, 3, 0x22, 0, 0]) (ref_vk X86)))))"
proof -
  let ?s = "\<lambda>n. subctx_new [0, n, 3, 0x22, 0, 0]"
  have "(ucast (arg3 (?s n)) :: i32) AND MAP_FIXED = 0" "(ucast (arg3 (?s n)) :: i32) AND MAP_ANONYMOUS \<noteq> 0"
    "arg1 (?s n) = n" "unat (arg0 (?s n)) mod 4096 = 0"
    "align_up (0x1000 :: u64) PAGE_SIZE = 0x1000" for n
    by (simp_all add: subctx_new_def arg_defs MAP_FIXED_def MAP_ANONYMOUS_def align_up_def PAGE_SIZE_def)
  with sys_mmap_anonymous [OF ref_engine_maps ref_in_sync, of "?s 0" X86]
    sys_mmap_anonymous [OF ref_engine_maps ref_in_sync, of "?s 0x1000" X86]
  show ?thesis by auto
qed

lemma unmap_fixed_sync:
  assumes laws: "engine_maps P view" and sync: "in_sync view vk" and addr: "unat a mod 4096 = 0"
    and unmapped: "fst (uc_mem_unmap P a (align_up n PAGE_SIZE) (uc vk)) = Inr ()
      \<or> book.free (regions vk) a (align_up n PAGE_SIZE)"
  shows "in_sync view (set_regions (remove_range (regions vk) a (align_up n PAGE_SIZE))
    (vk\<lparr>uc := snd (uc_mem_unmap P a (align_up n PAGE_SIZE) (uc vk))\<rparr>))"
proof (cases "uc_mem_unmap P a (align_up n PAGE_SIZE) (uc vk)")
  case (Pair res u')
  have rok: "regions_ok (regions vk)" and pgd: "paged (regions vk)"
    using sync by (simp_all add: in_sync_def)
  show ?thesis
  proof (cases res)
    case (Inr r)
    then show ?thesis
      using unmap_sync [OF laws sync, of a "align_up n PAGE_SIZE" u'] Pair by simp
  next
    case (Inl e)
    then have v: "view u' = view (uc vk)" and fr: "book.free (regions vk) a (align_up n PAGE_SIZE)"
      using laws Pair unmapped by (auto simp: engine_maps_def)
    have "paged (remove_range (regions vk) a (align_up n PAGE_SIZE))"
      using addr by (intro paged_remove rok pgd align_up_aligned)
    moreover have "region_at (remove_range (regions vk) a (align_up n PAGE_SIZE)) = region_at (regions vk)"
      using fr by (auto simp: book.look_remove [OF rok] book.free_def fun_eq_iff)
    ultimately show ?thesis
      using v sync Pair by (simp add: in_sync_def book.inv_remove [OF rok])
  qed
qed

text \<open>
  A mapping at a fixed address whose range is either wholly mapped or wholly free replaces what
  was there: the range carries the requested protection, all else is unchanged and the region list
  agrees with the engine.
\<close>

theorem sys_mmap_fixed_replaces:
  assumes laws: "engine_maps P view" and sync: "in_sync view vk"
    and len: "arg1 sctx \<noteq> 0" "unat (arg1 sctx) \<le> 2 ^ 64 - 4096"
    and addr: "arg0 sctx \<noteq> 0" "unat (arg0 sctx) mod 4096 = 0"
    and flags: "(ucast (arg3 sctx) :: i32) AND MAP_FIXED \<noteq> 0"
      "(ucast (arg3 sctx) :: i32) AND MAP_ANONYMOUS \<noteq> 0"
    and fits: "unat (arg0 sctx) + unat (align_up (arg1 sctx) PAGE_SIZE) \<noteq> 2 ^ 64"
    and unmapped: "fst (uc_mem_unmap P (arg0 sctx) (align_up (arg1 sctx) PAGE_SIZE) (uc vk)) = Inr ()
      \<or> book.free (regions vk) (arg0 sctx) (align_up (arg1 sctx) PAGE_SIZE)"
    and ok: "fst (sys_mmap P sctx vk) \<noteq> Ok (neg_errno ENOMEM)"
  shows "fst (sys_mmap P sctx vk) = Ok (arg0 sctx) \<and> in_sync view (snd (sys_mmap P sctx vk))
    \<and> region_at (regions (snd (sys_mmap P sctx vk))) = (\<lambda>x.
        if in_range (arg0 sctx) (unat (align_up (arg1 sctx) PAGE_SIZE)) x
        then Some (prot_from_flags (ucast (arg2 sctx)), ''[mmap]'') else region_at (regions vk) x)"
proof -
  let ?a = "arg0 sctx" and ?n = "align_up (arg1 sctx) PAGE_SIZE"
  let ?p = "prot_from_flags (ucast (arg2 sctx))"
  let ?vk = "set_regions (remove_range (regions vk) ?a ?n) (vk\<lparr>uc := snd (uc_mem_unmap P ?a ?n (uc vk))\<rparr>)"
  have rok: "regions_ok (regions vk)"
    using sync by (simp add: in_sync_def)
  have sync': "in_sync view ?vk"
    by (rule unmap_fixed_sync [OF laws sync addr(2) unmapped])
  have sys: "sys_mmap P sctx vk = (case mem_map P ?a ?n ?p ''[mmap]'' ?vk of
       (Ok _, vk') \<Rightarrow> (Ok ?a, vk') | (Err _, vk') \<Rightarrow> (Ok (neg_errno ENOMEM), vk')
     | (Panic, vk') \<Rightarrow> (Panic, vk') | (Diverges, vk') \<Rightarrow> (Diverges, vk'))"
    using len(1) addr flags
    by (simp add: sys_mmap_def multiple_of_page Let_def split: prod.split outcome.split)
  have rok': "regions_ok (remove_range (regions vk) ?a ?n)"
    by (rule book.inv_remove [OF rok])
  show ?thesis
    using mem_map_spec' [OF laws sync' fits, of ?p "''[mmap]''"] ok
      mem_map_no_panic [of P ?a ?n ?p "''[mmap]''" ?vk]
    unfolding sys
    by (auto split: prod.splits outcome.splits
        simp: book.look_add_free [OF rok'] book.look_remove [OF rok] fun_eq_iff)
qed

theorem sys_mmap_fixed_replaces_witness:
  "region_at (regions (snd (sys_mmap ref_engine (subctx_new [0x400000, 0x1000, 1, 0x32, 0, 0]) (ref_vk X86))))
      0x400800 = Some (Prot_READ, ''[mmap]'')"
proof -
  let ?s = "subctx_new [0x400000, 0x1000, 1, 0x32, 0, 0]"
  have args: "(ucast (arg3 ?s) :: i32) AND MAP_FIXED \<noteq> 0" "(ucast (arg3 ?s) :: i32) AND MAP_ANONYMOUS \<noteq> 0"
    "arg1 ?s \<noteq> 0" "unat (arg1 ?s) \<le> 2 ^ 64 - 4096" "arg0 ?s \<noteq> 0" "unat (arg0 ?s) mod 4096 = 0"
    "arg0 ?s = 0x400000" "align_up (arg1 ?s) PAGE_SIZE = 0x1000"
    "prot_from_flags (ucast (arg2 ?s)) = Prot_READ"
    by (simp_all add: subctx_new_def arg_defs MAP_FIXED_def MAP_ANONYMOUS_def align_up_def PAGE_SIZE_def
        prot_from_flags_def PROT_READ_def PROT_WRITE_def PROT_EXEC_def prot_defs)
  have un: "fst (uc_mem_unmap ref_engine 0x400000 0x1000 (uc (ref_vk X86))) = Inr ()"
    by (simp add: ref_engine_def pages_def ref_regions_def in_region_def)
  have "fst (sys_mmap ref_engine ?s (ref_vk X86)) \<noteq> Ok (neg_errno ENOMEM)"
    by (simp add: sys_mmap_def Let_def args multiple_of_page ref_engine_def mem_map_def uc_do_def
        pages_def ref_fill_def ref_regions_def in_region_def neg_errno_def ENOMEM_def)
  with sys_mmap_fixed_replaces [OF ref_engine_maps ref_in_sync, of ?s X86] args un show ?thesis
    by simp
qed

text \<open>
  C39: a mapping at a fixed address over a range that is only partly mapped. The engine refuses to
  unmap it, the error is dropped, yet the regions of the range are removed from the list; the
  mapping itself then fails. The guest sees \<open>ENOMEM\<close>, its pages are still there, and the list no longer
  knows them: the agreement is lost.
\<close>

theorem sys_mmap_fixed_partial_loses_regions:
  assumes laws: "engine_maps P view" and sync: "in_sync view vk"
    and len: "arg1 sctx \<noteq> 0"
    and addr: "arg0 sctx \<noteq> 0" "unat (arg0 sctx) mod 4096 = 0"
    and fixed: "(ucast (arg3 sctx) :: i32) AND MAP_FIXED \<noteq> 0"
    and x: "in_range (arg0 sctx) (unat (align_up (arg1 sctx) PAGE_SIZE)) x" "region_at (regions vk) x \<noteq> None"
    and y: "in_range (arg0 sctx) (unat (align_up (arg1 sctx) PAGE_SIZE)) y" "region_at (regions vk) y = None"
  shows "fst (sys_mmap P sctx vk) = Ok (neg_errno ENOMEM)
    \<and> region_at (regions (snd (sys_mmap P sctx vk))) x = None
    \<and> view (uc (snd (sys_mmap P sctx vk))) x \<noteq> None
    \<and> \<not> in_sync view (snd (sys_mmap P sctx vk))"
proof -
  let ?a = "arg0 sctx" and ?n = "align_up (arg1 sctx) PAGE_SIZE"
  let ?p = "prot_from_flags (ucast (arg2 sctx))"
  have rok: "regions_ok (regions vk)"
    using sync by (simp add: in_sync_def)
  have vx: "view (uc vk) x \<noteq> None" and vy: "view (uc vk) y = None"
    using x(2) y(2) sync by (auto simp: in_sync_def)
  obtain res u1 where c1: "uc_mem_unmap P ?a ?n (uc vk) = (res, u1)" by fastforce
  then obtain e where e: "res = Inl e"
    using engine_unmap_done [OF laws] y(1) vy by (cases res) blast+
  have v1: "view u1 = view (uc vk)"
    using engine_refused(2) [OF laws] c1 e by blast
  obtain res2 u2 where c2: "uc_mem_map P ?a ?n ?p u1 = (res2, u2)" by fastforce
  then obtain e2 where e2: "res2 = Inl e2"
    using engine_map_done [OF laws] x(1) vx v1 by (cases res2) fastforce+
  have v2: "view u2 = view (uc vk)"
    using engine_refused(1) [OF laws] c2 e2 v1 by metis
  have "?n \<noteq> 0"
    using x(1) by auto
  then have "sys_mmap P sctx vk = (Ok (neg_errno ENOMEM),
      vk\<lparr>uc := u2, vmem := (vmem vk)\<lparr>m_regions := remove_range (regions vk) ?a ?n\<rparr>\<rparr>)"
    using len addr fixed c1 c2 e e2
    by (simp add: sys_mmap_def multiple_of_page Let_def mem_map_def uc_do_def)
  then show ?thesis
    using x(1) vx v2 by (auto simp: book.look_remove [OF rok] in_sync_def)
qed

theorem sys_mmap_fixed_partial_loses_regions_witness:
  "\<not> in_sync ref_view (snd (sys_mmap ref_engine (subctx_new [0x400000, 0x2000, 1, 0x32, 0, 0]) (ref_vk X86)))"
proof -
  let ?s = "subctx_new [0x400000, 0x2000, 1, 0x32, 0, 0]"
  have args: "(ucast (arg3 ?s) :: i32) AND MAP_FIXED \<noteq> 0" "arg1 ?s \<noteq> 0" "arg0 ?s \<noteq> 0"
    "unat (arg0 ?s) mod 4096 = 0" "arg0 ?s = 0x400000" "align_up (arg1 ?s) PAGE_SIZE = 0x2000"
    by (simp_all add: subctx_new_def arg_defs MAP_FIXED_def align_up_def PAGE_SIZE_def)
  with sys_mmap_fixed_partial_loses_regions [OF ref_engine_maps ref_in_sync [of X86], of ?s "0x400000" "0x401000"]
  show ?thesis
    by (simp add: ref_regions_def in_region_def)
qed

section \<open>Protection\<close>

definition no_part :: "u64 \<Rightarrow> u64 \<Rightarrow> VMemRegion list \<Rightarrow> bool" where
  "no_part start stop rs \<longleftrightarrow> (\<forall>r \<in> set rs. start < region_end r \<and> r_start r < stop \<longrightarrow>
      start \<le> r_start r \<and> region_end r \<le> stop)"

lemma protect_regions_whole:
  assumes rok: "regions_ok rs" and whole: "no_part start stop rs"
  shows "region_at (protect_regions start stop p rs) x =
    (if unat start \<le> x \<and> x < unat stop then map_option (\<lambda>(_, i). (p, i)) (region_at rs x) else region_at rs x)"
proof (cases "List.find (\<lambda>r. in_region r x) rs")
  case None
  then show ?thesis
    unfolding protect_region_at [OF regions_ok_all_fit [OF rok]] by (simp add: region_at_def)
next
  case (Some r)
  then have r: "r \<in> set rs" "in_region r x" "fit_region r"
    using find_Some_mem [OF Some] regions_ok_fit [OF rok] by auto
  then have rx: "unat (r_start r) \<le> x" "x < unat (region_end r)"
    by (simp_all add: in_region_def fit_region_end)
  have "(start < region_end r \<and> r_start r < stop) \<longleftrightarrow> unat start \<le> x \<and> x < unat stop"
    using whole r(1) rx by (fastforce simp: no_part_def word_less_nat_alt word_le_nat_alt)
  with Some show ?thesis
    unfolding protect_region_at [OF regions_ok_all_fit [OF rok]] by (simp add: region_at_def)
qed

text \<open>
  \<open>mprotect\<close> keeps the agreement when every region that meets the range lies inside it. It returns
  0 and gives exactly the range the new protection, or passes on the engine's error and changes nothing.
\<close>

theorem sys_mprotect_whole_regions:
  assumes laws: "engine_maps P view" and sync: "in_sync view vk"
    and len: "arg1 sctx \<noteq> 0" "unat (arg0 sctx) + unat (arg1 sctx) \<le> 2 ^ 64 - 4096"
    and whole: "no_part (align_down (arg0 sctx) PAGE_SIZE) (align_up (arg0 sctx + arg1 sctx) PAGE_SIZE) (regions vk)"
  shows "in_sync view (snd (sys_mprotect P sctx vk))
    \<and> (fst (sys_mprotect P sctx vk) = Ok 0
        \<and> region_at (regions (snd (sys_mprotect P sctx vk))) = (\<lambda>x.
            if unat (align_down (arg0 sctx) PAGE_SIZE) \<le> x \<and> x < unat (align_up (arg0 sctx + arg1 sctx) PAGE_SIZE)
            then map_option (\<lambda>(p, i). (prot_from_flags (ucast (arg2 sctx)), i)) (region_at (regions vk) x)
            else region_at (regions vk) x)
      \<or> (\<exists>e. fst (sys_mprotect P sctx vk) = Err (UnicornErr e))
        \<and> regions (snd (sys_mprotect P sctx vk)) = regions vk)"
proof -
  let ?start = "align_down (arg0 sctx) PAGE_SIZE" and ?stop = "align_up (arg0 sctx + arg1 sctx) PAGE_SIZE"
  let ?p = "prot_from_flags (ucast (arg2 sctx))" and ?n = "sat_sub ?stop ?start"
  have sum: "sat_add (arg0 sctx) (arg1 sctx) = arg0 sctx + arg1 sctx"
    "unat (arg0 sctx + arg1 sctx) = unat (arg0 sctx) + unat (arg1 sctx)"
    using len(2) by (simp_all add: sat_add_no_wrap unat_add_no_wrap)
  have "unat ?start \<le> unat (arg0 sctx)"
    by (simp add: unat_align_down_page)
  also have "\<dots> \<le> unat ?stop"
    using align_up_ge [of "arg0 sctx + arg1 sctx"] len(2) sum(2) by (simp add: word_le_nat_alt)
  finally have order: "unat ?start \<le> unat ?stop" .
  then have range: "in_range ?start (unat ?n) x \<longleftrightarrow> unat ?start \<le> x \<and> x < unat ?stop" for x
    by (auto simp: unat_sat_sub)
  have rok: "regions_ok (regions vk)" and pgd: "paged (regions vk)"
    using sync by (simp_all add: in_sync_def)
  note at = protect_regions_whole [OF rok whole]
  obtain res u' where call: "uc_mem_protect P ?start ?n ?p (uc vk) = (res, u')" by fastforce
  show ?thesis
  proof (cases res)
    case (Inl e)
    then have "view u' = view (uc vk)"
      using engine_refused(3) [OF laws] call by blast
    with Inl call len sync sum show ?thesis
      by (auto simp: sys_mprotect_def Let_def uc_do_def in_sync_def)
  next
    case (Inr y)
    then have view: "view u' = (\<lambda>x. if in_range ?start (unat ?n) x then Some ?p else view (uc vk) x)"
      and mapped: "\<And>x. in_range ?start (unat ?n) x \<Longrightarrow> region_at (regions vk) x \<noteq> None"
      using engine_protect_done [OF laws] call sync in_sync_view by blast+
    have sys: "sys_mprotect P sctx vk =
        (Ok 0, set_regions (protect_regions ?start ?stop ?p (regions vk)) (vk\<lparr>uc := u'\<rparr>))"
      using Inr call len sum by (simp add: sys_mprotect_def Let_def uc_do_def)
    have "view u' x = map_option fst (region_at (protect_regions ?start ?stop ?p (regions vk)) x)" for x
      using view mapped [of x] sync by (auto simp: at range in_sync_def)
    then have "in_sync view (snd (sys_mprotect P sctx vk))"
      unfolding sys using rok pgd by (simp add: in_sync_def protect_regions_ok fun_eq_iff)
    then show ?thesis
      unfolding sys by (simp add: at fun_eq_iff)
  qed
qed

theorem sys_mprotect_whole_regions_witness:
  "region_at (regions (snd (sys_mprotect ref_engine (subctx_new [0x400010, 0x10, 1, 0, 0, 0]) (ref_vk X86)))) 0x400fff
    = Some (Prot_READ, ''[code]'')"
proof -
  let ?s = "subctx_new [0x400010, 0x10, 1, 0, 0, 0]"
  have args: "arg1 ?s \<noteq> 0" "unat (arg0 ?s) + unat (arg1 ?s) \<le> 2 ^ 64 - 4096"
    "align_down (arg0 ?s) PAGE_SIZE = 0x400000" "align_up (arg0 ?s + arg1 ?s) PAGE_SIZE = 0x401000"
    "prot_from_flags (ucast (arg2 ?s)) = Prot_READ"
    by (simp_all add: subctx_new_def arg_defs align_up_def align_down_def PAGE_SIZE_def
        prot_from_flags_def PROT_READ_def PROT_WRITE_def PROT_EXEC_def prot_defs)
  have ok: "fst (sys_mprotect ref_engine ?s (ref_vk X86)) = Ok 0"
    using args
    by (simp add: sys_mprotect_def Let_def sat_add_no_wrap uc_do_def ref_engine_def pages_def
        ref_regions_def in_region_def sat_sub_def)
  have whole: "no_part (align_down (arg0 ?s) PAGE_SIZE) (align_up (arg0 ?s + arg1 ?s) PAGE_SIZE)
      (regions (ref_vk X86))"
    unfolding args by (auto simp: no_part_def ref_regions_def sat_add_def)
  show ?thesis
    using sys_mprotect_whole_regions [OF ref_engine_maps ref_in_sync [of X86] args(1,2) whole] args ok
    by (auto simp: ref_regions_def in_region_def)
qed

text \<open>
  C40: \<open>mprotect\<close> of a part of a region: the engine protects the range alone, the region list records
  the new protection for every byte of the region, so bytes outside the range are recorded with a
  protection they do not have.
\<close>

theorem sys_mprotect_part_spills:
  assumes laws: "engine_maps P view" and sync: "in_sync view vk"
    and len: "arg1 sctx \<noteq> 0"
    and r: "r \<in> set (regions vk)" "align_down (arg0 sctx) PAGE_SIZE < region_end r"
      "r_start r < align_up (sat_add (arg0 sctx) (arg1 sctx)) PAGE_SIZE"
    and z: "in_region r z" "z < unat (align_down (arg0 sctx) PAGE_SIZE)
      \<or> unat (align_up (sat_add (arg0 sctx) (arg1 sctx)) PAGE_SIZE) \<le> z"
    and ret: "fst (sys_mprotect P sctx vk) = Ok 0"
    and new: "prot_from_flags (ucast (arg2 sctx)) \<noteq> r_prot r"
  shows "map_option fst (region_at (regions (snd (sys_mprotect P sctx vk))) z)
        = Some (prot_from_flags (ucast (arg2 sctx)))
    \<and> view (uc (snd (sys_mprotect P sctx vk))) z = Some (r_prot r)
    \<and> \<not> in_sync view (snd (sys_mprotect P sctx vk))"
proof -
  let ?start = "align_down (arg0 sctx) PAGE_SIZE" and ?stop = "align_up (sat_add (arg0 sctx) (arg1 sctx)) PAGE_SIZE"
  let ?p = "prot_from_flags (ucast (arg2 sctx))" and ?n = "sat_sub ?stop ?start"
  have rok: "regions_ok (regions vk)"
    using sync by (simp add: in_sync_def)
  have "List.find (\<lambda>r. in_region r z) (regions vk) = Some r"
    using regions_ok_unique [OF rok r(1)] z(1) r(1)
    by (cases "List.find (\<lambda>r. in_region r z) (regions vk)")
      (auto simp: find_None_iff_none dest!: find_Some_mem)
  then have at: "region_at (protect_regions ?start ?stop ?p (regions vk)) z = Some (?p, r_info r)"
    and before: "region_at (regions vk) z = Some (r_prot r, r_info r)"
    using r unfolding protect_region_at [OF regions_ok_all_fit [OF rok]] by (simp_all add: region_at_def)
  obtain res u' where call: "uc_mem_protect P ?start ?n ?p (uc vk) = (res, u')" by fastforce
  then have sys: "sys_mprotect P sctx vk =
      (Ok 0, set_regions (protect_regions ?start ?stop ?p (regions vk)) (vk\<lparr>uc := u'\<rparr>))"
    and res: "res = Inr ()"
    using ret len by (auto simp: sys_mprotect_def Let_def uc_do_def split: sum.splits)
  have "\<not> in_range ?start (unat ?n) z"
    using z(2) by (auto simp: unat_sat_sub)
  then have "view u' z = Some (r_prot r)"
    using engine_protect_done [OF laws call [unfolded res]] before sync by (auto simp: in_sync_def)
  then show ?thesis
    unfolding sys using at new by (auto simp: in_sync_def)
qed

theorem sys_mprotect_part_spills_witness:
  "\<not> in_sync ref_view (snd (sys_mprotect ref_engine (subctx_new [0x600000, 0x1000, 1, 0, 0, 0]) (ref_vk X86)))"
proof -
  let ?s = "subctx_new [0x600000, 0x1000, 1, 0, 0, 0]"
  let ?r = "\<lparr>r_start = 0x600000, r_size = 0x2000, r_prot = Prot_ALL, r_info = HEAP\<rparr>"
  have args: "arg1 ?s \<noteq> 0" "align_down (arg0 ?s) PAGE_SIZE = 0x600000"
    "align_up (sat_add (arg0 ?s) (arg1 ?s)) PAGE_SIZE = 0x601000"
    "prot_from_flags (ucast (arg2 ?s)) = Prot_READ"
    by (simp_all add: subctx_new_def arg_defs align_up_def align_down_def PAGE_SIZE_def sat_add_def
        prot_from_flags_def PROT_READ_def PROT_WRITE_def PROT_EXEC_def prot_defs)
  have ok: "fst (sys_mprotect ref_engine ?s (ref_vk X86)) = Ok 0"
    using args
    by (simp add: sys_mprotect_def Let_def uc_do_def ref_engine_def pages_def
        ref_regions_def in_region_def sat_sub_def)
  have "?r \<in> set (regions (ref_vk X86))" "in_region ?r 0x601fff" "r_prot ?r \<noteq> Prot_READ"
    by (simp_all add: ref_regions_def in_region_def prot_defs)
  with sys_mprotect_part_spills [OF ref_engine_maps ref_in_sync args(1), of ?r X86 "0x601fff"] args ok
  show ?thesis
    by (simp add: sat_add_def)
qed

section \<open>The program break\<close>

text \<open>
  C27: \<open>brk\<close>. A request of 0, below the start of the heap or above the next region returns the current
  break and changes nothing. Otherwise the break becomes the request rounded up to a page, the pages
  from the end of the heap to it are mapped as heap and no existing mapping changes, or the engine
  refuses and the regions and the break stay. The agreement with the engine is kept in every case.
\<close>

theorem sys_brk_correct:
  fixes vk :: "('u, 'h) Valkyrie"
  defines "heap_end \<equiv> mapped_heap_end (regions vk) (heap_addr_exit (vmem vk))"
  assumes laws: "engine_maps P view" and sync: "in_sync view vk"
  shows "in_sync view (snd (sys_brk P sctx vk))
    \<and> (if arg0 sctx = 0 \<or> align_up (arg0 sctx) PAGE_SIZE < heap_addr_start (vmem vk)
          \<or> heap_limit (regions vk) heap_end < align_up (arg0 sctx) PAGE_SIZE
       then sys_brk P sctx vk = (Ok (heap_addr_exit (vmem vk)), vk)
       else fst (sys_brk P sctx vk) = Ok (align_up (arg0 sctx) PAGE_SIZE)
            \<and> heap_addr_exit (vmem (snd (sys_brk P sctx vk))) = align_up (arg0 sctx) PAGE_SIZE
            \<and> (\<forall>x. region_at (regions (snd (sys_brk P sctx vk))) x =
                 (if unat (align_up heap_end PAGE_SIZE) \<le> x \<and> x < unat (align_up (arg0 sctx) PAGE_SIZE)
                     \<and> heap_end < align_up (arg0 sctx) PAGE_SIZE
                  then Some (Prot_ALL, HEAP) else region_at (regions vk) x))
          \<or> fst (sys_brk P sctx vk) = Err (UnicornGeneralError ''mem_map failed'')
            \<and> regions (snd (sys_brk P sctx vk)) = regions vk
            \<and> heap_addr_exit (vmem (snd (sys_brk P sctx vk))) = heap_addr_exit (vmem vk))"
proof -
  let ?b = "align_up (arg0 sctx) PAGE_SIZE" and ?s = "align_up heap_end PAGE_SIZE"
  let ?n = "sat_sub ?b ?s"
  have rok: "regions_ok (regions vk)"
    using sync by (simp add: in_sync_def)
  consider (same) "arg0 sctx = 0 \<or> ?b < heap_addr_start (vmem vk) \<or> heap_limit (regions vk) heap_end < ?b"
    | (no_map) "\<not> (arg0 sctx = 0 \<or> ?b < heap_addr_start (vmem vk) \<or> heap_limit (regions vk) heap_end < ?b)"
        "\<not> (heap_end < ?b \<and> 0 < ?n)"
    | (map) "\<not> (arg0 sctx = 0 \<or> ?b < heap_addr_start (vmem vk) \<or> heap_limit (regions vk) heap_end < ?b)"
        "heap_end < ?b" "0 < ?n"
    by blast
  then show ?thesis
  proof cases
    case same
    then show ?thesis
      using sync by (auto simp: sys_brk_def Let_def heap_end_def)
  next
    case no_map
    then have "sys_brk P sctx vk = (Ok ?b, vk\<lparr>vmem := (vmem vk)\<lparr>heap_addr_exit := ?b\<rparr>\<rparr>)"
      by (auto simp: sys_brk_def Let_def heap_end_def)
    moreover have "\<not> (unat ?s \<le> x \<and> x < unat ?b \<and> heap_end < ?b)" for x
      using no_map(2) by (auto simp: word_gt_0 sat_sub_0_iff)
    ultimately show ?thesis
      using no_map(1) sync by (auto simp: in_sync_def)
  next
    case map
    then have "?n \<noteq> 0"
      by auto
    then have "?s < ?b"
      unfolding sat_sub_0_iff by (simp add: word_less_nat_alt)
    then have sum: "unat ?s + unat ?n = unat ?b"
      by (simp add: unat_sat_sub word_less_nat_alt)
    then have "unat ?s + unat ?n < 18446744073709551616"
      using unat_bound [of ?b] by linarith
    then have "unat ?s + unat ?n \<noteq> 2 ^ 64" by simp
    note spec = mem_map_spec' [OF laws sync this, of Prot_ALL HEAP]
    have sys: "sys_brk P sctx vk = and_then (mem_map P ?s ?n Prot_ALL HEAP vk)
        (\<lambda>_ vk. (Ok ?b, vk\<lparr>vmem := (vmem vk)\<lparr>heap_addr_exit := ?b\<rparr>\<rparr>))"
      using map by (simp add: sys_brk_def Let_def heap_end_def)
    show ?thesis
    proof (cases "mem_map P ?s ?n Prot_ALL HEAP vk")
      case (Pair res vk1)
      have fields: "vmem vk1 = (vmem vk)\<lparr>m_regions := regions vk1\<rparr>"
        using Pair by (auto simp: mem_map_def uc_do_def split: if_splits prod.splits sum.splits)
      have range: "in_range ?s (unat ?n) x \<longleftrightarrow> unat ?s \<le> x \<and> x < unat ?b" for x
        using sum by simp
      show ?thesis
      proof (cases res)
        case (Ok y)
        then have "in_sync view vk1" "book.free (regions vk) ?s ?n"
          "regions vk1 = push_region (regions vk) ?s ?n (Prot_ALL, HEAP)"
          using spec Pair by auto
        then show ?thesis
          using map Ok sys Pair
          by (auto simp: in_sync_def book.look_add_free [OF rok] range)
      next
        case (Err e)
        then have "e = UnicornGeneralError ''mem_map failed''"
          using Pair map(3) by (auto simp: mem_map_def uc_do_def split: if_splits prod.splits sum.splits)
        then show ?thesis
          using map Err sys Pair spec fields by (simp del: not_less)
      qed (use mem_map_no_panic [of P ?s ?n Prot_ALL HEAP vk] Pair in auto)
    qed
  qed
qed

theorem sys_brk_correct_witness:
  "fst (sys_brk ref_engine (subctx_new [0x602001, 0, 0, 0, 0, 0]) (ref_vk X86)) = Ok 0x603000
   \<and> region_at (regions (snd (sys_brk ref_engine (subctx_new [0x602001, 0, 0, 0, 0, 0]) (ref_vk X86))))
        0x602fff = Some (Prot_ALL, HEAP)"
proof -
  let ?s = "subctx_new [0x602001, 0, 0, 0, 0, 0]"
  have args: "arg0 ?s = 0x602001" "align_up 0x602001 PAGE_SIZE = 0x603000"
    "align_up 0x602000 PAGE_SIZE = 0x602000"
    "mapped_heap_end ref_regions 0x602000 = 0x602000" "heap_limit ref_regions 0x602000 = - 1"
    by (simp_all add: subctx_new_def arg_defs align_up_def PAGE_SIZE_def mapped_heap_end_def
        heap_limit_def ref_regions_def HEAP_def)
  have "fst (uc_mem_map ref_engine 0x602000 0x1000 Prot_ALL (uc (ref_vk X86))) = Inr ()"
    by (simp add: ref_engine_def pages_def ref_regions_def in_region_def)
  then have "fst (sys_brk ref_engine ?s (ref_vk X86)) = Ok 0x603000"
    by (auto simp: sys_brk_def Let_def args mem_map_def uc_do_def sat_sub_def split: prod.split)
  then show ?thesis
    using sys_brk_correct [OF ref_engine_maps ref_in_sync, of ?s X86] by (simp add: args)
qed

end
