(* ===== verification/Vk_SysProcess.thy ===== *)
theory Vk_SysProcess
  imports Vk_SysMemory
begin

text \<open>
  The process system calls of \<open>src/src/os/syscall/common.rs\<close>: exit, credentials, clocks, randomness,
  signals, limits and \<open>prctl\<close>. The host's answers are calls of the platform; on Linux, the
  \<open>cfg(target_os = "linux")\<close> branches are the ones modelled. A log message has no effect, except
  \<open>Logger::error\<close>, which panics.
\<close>

section \<open>Frame: a call that leaves the memory map alone\<close>

definition keeps_map ::
  "('u \<Rightarrow> nat \<Rightarrow> Prot option) \<Rightarrow> ('u, 'h) Valkyrie \<Rightarrow> ('u, 'h) Valkyrie \<Rightarrow> bool" where
  "keeps_map view vk vk' \<longleftrightarrow> regions vk' = regions vk \<and> view (uc vk') = view (uc vk)"

named_theorems map_frame
  \<comment> \<open>calls that keep the region list and the engine's map\<close>

lemma keeps_map_refl [simp, intro]: "keeps_map view vk vk"
  by (simp add: keeps_map_def)

lemma keeps_map_trans: "keeps_map view a b \<Longrightarrow> keeps_map view b c \<Longrightarrow> keeps_map view a c"
  by (simp add: keeps_map_def)

lemma keeps_map_sync: "keeps_map view vk vk' \<Longrightarrow> in_sync view vk \<Longrightarrow> in_sync view vk'"
  by (auto simp: keeps_map_def intro: in_sync_cong)

text \<open>The rules are stated from an earlier state \<open>v0\<close>, so that they chain through a sequence of calls.\<close>

lemma keeps_map_and_then [map_frame]:
  assumes "keeps_map view v0 (snd r)"
    and "\<And>a s. r = (Ok a, s) \<Longrightarrow> keeps_map view v0 s \<Longrightarrow> keeps_map view v0 (snd (k a s))"
  shows "keeps_map view v0 (snd (and_then r k))"
  using assms by (rule and_then_keeps)

lemma mem_write_frame [map_frame]:
  "engine_maps P view \<Longrightarrow> keeps_map view v0 vk \<Longrightarrow> keeps_map view v0 (snd (mem_write P a d vk))"
  by (auto simp: keeps_map_def mem_write_def uc_do_uc view_uc_do_write)

lemma mem_read_frame [map_frame]:
  "keeps_map view v0 vk \<Longrightarrow> keeps_map view v0 (snd (mem_read P a n vk))"
  by (simp add: mem_read_same_state)

lemma read_word_frame [map_frame]:
  "keeps_map view v0 vk \<Longrightarrow> keeps_map view v0 (snd (read_word P a n vk))"
  by (auto simp: read_word_def intro!: map_frame)

lemma write_word_frame [map_frame]:
  "engine_maps P view \<Longrightarrow> keeps_map view v0 vk \<Longrightarrow> keeps_map view v0 (snd (write_word P a v n vk))"
  by (simp add: write_word_def mem_write_frame)

lemma set_reg_frame [map_frame]:
  "engine_maps P view \<Longrightarrow> keeps_map view v0 vk \<Longrightarrow> keeps_map view v0 (snd (set_reg P r v vk))"
  by (auto simp: keeps_map_def set_reg_def set_reg_x86_def set_reg_x86_64_def uc_do_uc
      view_uc_do_write split: Arch.split VRegister.split)

lemma get_reg_frame [map_frame]:
  "keeps_map view v0 vk \<Longrightarrow> keeps_map view v0 (snd (get_reg P r vk))"
  by (simp add: get_reg_same_state)

lemma keeps_map_update [simp]:
  "keeps_map view v0 (vk\<lparr>host := h\<rparr>) = keeps_map view v0 vk"
  "keeps_map view v0 (vk\<lparr>guest_rt_sigmask := m\<rparr>) = keeps_map view v0 vk"
  "keeps_map view v0 (vk\<lparr>guest_rt_sigactions := acts\<rparr>) = keeps_map view v0 vk"
  "keeps_map view v0 (vk\<lparr>guest_prctl_name := nm\<rparr>) = keeps_map view v0 vk"
  "keeps_map view v0 (vk\<lparr>guest_pdeathsig := i\<rparr>) = keeps_map view v0 vk"
  "keeps_map view v0 (vk\<lparr>guest_dumpable := j\<rparr>) = keeps_map view v0 vk"
  "keeps_map view v0 (vk\<lparr>fd_table := t\<rparr>) = keeps_map view v0 vk"
  "keeps_map view v0 (vk\<lparr>stdin_offset := n\<rparr>) = keeps_map view v0 vk"
  "keeps_map view v0 (vk\<lparr>exit_status := e\<rparr>) = keeps_map view v0 vk"
  "keeps_map view v0 (vk\<lparr>vstate := st\<rparr>) = keeps_map view v0 vk"
  "keeps_map view v0 (vk\<lparr>crashed := c\<rparr>) = keeps_map view v0 vk"
  by (simp_all add: keeps_map_def)

section \<open>Exit and identity\<close>

definition creds_from_host :: "u32 \<Rightarrow> u32 \<Rightarrow> u32 \<Rightarrow> u32 \<Rightarrow> LinuxCreds" where
  "creds_from_host uid euid gid egid =
     \<lparr>cr_uid = uid, cr_euid = euid, cr_gid = gid, cr_egid = egid\<rparr>"

definition emu_stop :: "('u, 'h) platform \<Rightarrow> ('u, 'h) Valkyrie \<Rightarrow> ('u, 'h) Valkyrie" where
  "emu_stop P vk = vk\<lparr>uc := snd (uc_emu_stop P (uc vk))\<rparr>"

definition sys_exit :: "('u, 'h) platform \<Rightarrow> ('u, 'h) sys_fn" where
  "sys_exit P sctx vk =
     (Ok 0, emu_stop P (vk\<lparr>exit_status := Some (arg0 sctx), vstate := Ended\<rparr>))"

definition sys_exit_group :: "('u, 'h) platform \<Rightarrow> ('u, 'h) sys_fn" where
  "sys_exit_group P sctx vk =
     (Ok 0, emu_stop P (vk\<lparr>exit_status := Some (arg0 sctx), vstate := Ended\<rparr>))"

definition sys_geteuid :: "('u, 'h) sys_fn" where
  "sys_geteuid sctx vk = (Ok (ucast (cr_euid (linux_creds vk))), vk)"

definition sys_getuid :: "('u, 'h) sys_fn" where
  "sys_getuid sctx vk = (Ok (ucast (cr_uid (linux_creds vk))), vk)"

definition sys_getegid :: "('u, 'h) sys_fn" where
  "sys_getegid sctx vk = (Ok (ucast (cr_egid (linux_creds vk))), vk)"

definition sys_getgid :: "('u, 'h) sys_fn" where
  "sys_getgid sctx vk = (Ok (ucast (cr_gid (linux_creds vk))), vk)"

text \<open>\<open>fallback_uname\<close> reports through \<open>Logger::error\<close>, which panics before the generic answer.\<close>

definition host_uname ::
  "('u, 'h) platform \<Rightarrow> ('u, 'h, bytes \<times> bytes \<times> bytes \<times> bytes \<times> bytes \<times> bytes) vk_call" where
  "host_uname P vk =
     (case libc_uname P (host vk) of
        (Some u, h) \<Rightarrow> (Ok u, vk\<lparr>host := h\<rparr>)
      | (None, h) \<Rightarrow> (Panic, vk\<lparr>host := h\<rparr>))"

definition ascii :: "string \<Rightarrow> bytes" where
  "ascii s = map (\<lambda>c. of_nat (of_char c)) s"

definition pack_field :: "bytes \<Rightarrow> bytes" where
  "pack_field b =
     (let n = min (length b) (UTSNAME_LEN - 1) in take n b @ replicate (UTSNAME_LEN - n) 0)"

fun write_fields :: "('u, 'h) platform \<Rightarrow> u64 \<Rightarrow> u64 \<Rightarrow> bytes list \<Rightarrow> ('u, 'h, u64) vk_call" where
  "write_fields P buf i [] vk = (Ok 0, vk)"
| "write_fields P buf i (f # fs) vk =
     (case mem_write P (buf + i * of_nat UTSNAME_LEN) f vk of
        (Ok _, vk) \<Rightarrow> write_fields P buf (i + 1) fs vk
      | (Err _, vk) \<Rightarrow> (Ok (neg_errno EFAULT), vk)
      | (Panic, vk) \<Rightarrow> (Panic, vk)
      | (Diverges, vk) \<Rightarrow> (Diverges, vk))"

definition sys_uname :: "('u, 'h) platform \<Rightarrow> ('u, 'h) sys_fn" where
  "sys_uname P sctx vk =
     (let buf_addr = arg0 sctx in
      if buf_addr = 0 then (Ok (neg_errno EFAULT), vk)
      else and_then (host_uname P vk)
        (\<lambda>(sysname, nodename, release, version, _, domainname) vk.
          let machine = (case c_arch (cfg vk) of X86 \<Rightarrow> ascii ''i686'' | X86_64 \<Rightarrow> ascii ''x86_64'') in
          write_fields P buf_addr 0
            [pack_field sysname, pack_field nodename, pack_field release, pack_field version,
             pack_field machine, pack_field domainname] vk))"

section \<open>Clocks and randomness\<close>

abbreviation ptr_width :: "('u, 'h) Valkyrie \<Rightarrow> nat" where
  "ptr_width vk \<equiv> unat (c_archsize (cfg vk) div 8)"

definition sys_clock_gettime :: "('u, 'h) platform \<Rightarrow> ('u, 'h) sys_fn" where
  "sys_clock_gettime P sctx vk =
     (let clock_id = (ucast (arg0 sctx) :: i32); tp = arg1 sctx in
      if tp = 0 then (Ok (neg_errno EFAULT), vk)
      else case libc_clock_gettime P clock_id (host vk) of
        (None, h) \<Rightarrow> (Ok (last_errno P (vk\<lparr>host := h\<rparr>)), vk\<lparr>host := h\<rparr>)
      | (Some (tv_sec, tv_nsec), h) \<Rightarrow>
          let vk = vk\<lparr>host := h\<rparr>; width = ptr_width vk in
          and_then (write_word P tp tv_sec width vk)
            (\<lambda>_ vk. and_then (write_word P (tp + of_nat width) tv_nsec width vk)
              (\<lambda>_ vk. (Ok 0, vk))))"

definition sys_clock_gettime64 :: "('u, 'h) platform \<Rightarrow> ('u, 'h) sys_fn" where
  "sys_clock_gettime64 P sctx vk =
     (let clock_id = (ucast (arg0 sctx) :: i32); tp = arg1 sctx in
      if tp = 0 then (Ok (neg_errno EFAULT), vk)
      else case libc_clock_gettime P clock_id (host vk) of
        (None, h) \<Rightarrow> (Ok (last_errno P (vk\<lparr>host := h\<rparr>)), vk\<lparr>host := h\<rparr>)
      | (Some (tv_sec, tv_nsec), h) \<Rightarrow>
          and_then (mem_write P tp (to_le_bytes tv_sec) (vk\<lparr>host := h\<rparr>))
            (\<lambda>_ vk. and_then (mem_write P (tp + 8) (to_le_bytes tv_nsec) vk)
              (\<lambda>_ vk. (Ok 0, vk))))"

text \<open>The host fills the first \<open>rc\<close> bytes of a zeroed buffer; slicing past its end panics.\<close>

definition sys_getrandom :: "('u, 'h) platform \<Rightarrow> ('u, 'h) sys_fn" where
  "sys_getrandom P sctx vk =
     (let buf_addr = arg0 sctx; count = unat (arg1 sctx); flags = (ucast (arg2 sctx) :: u32) in
      if count = 0 then (Ok 0, vk)
      else if 2 ^ 63 \<le> count then (Panic, vk)
      else case libc_getrandom P count flags (host vk) of
        (None, h) \<Rightarrow> (Ok (last_errno P (vk\<lparr>host := h\<rparr>)), vk\<lparr>host := h\<rparr>)
      | (Some (rc, f), h) \<Rightarrow>
          if count < rc then (Panic, vk\<lparr>host := h\<rparr>)
          else and_then (mem_write P buf_addr (map f [0..<rc]) (vk\<lparr>host := h\<rparr>))
            (\<lambda>_ vk. (Ok (of_nat rc), vk)))"

definition sys_time :: "('u, 'h) platform \<Rightarrow> ('u, 'h) sys_fn" where
  "sys_time P sctx vk =
     (let time_ptr = arg0 sctx in
      case system_time P (host vk) of
        (None, h) \<Rightarrow> (Ok (neg_errno EIO), vk\<lparr>host := h\<rparr>)
      | (Some now, h) \<Rightarrow>
          let vk = vk\<lparr>host := h\<rparr> in
          and_then (if time_ptr \<noteq> 0 then write_word P time_ptr now (ptr_width vk) vk else (Ok (), vk))
            (\<lambda>_ vk. (Ok now, vk)))"

definition sys_lookup_dcookie :: "('u, 'h) sys_fn" where
  "sys_lookup_dcookie sctx vk = (Ok (neg_errno ENOSYS), vk)"

section \<open>Signals\<close>

text \<open>Sizes are \<open>usize\<close>, 64 bits on the host: the sum wraps.\<close>

definition rt_sigaction_size :: "Arch \<Rightarrow> u64 \<Rightarrow> u64 option" where
  "rt_sigaction_size a sigsetsize =
     (if sigsetsize = 0 then None
      else case a of X86_64 \<Rightarrow> Some (24 + sigsetsize) | X86 \<Rightarrow> Some (12 + sigsetsize))"

definition resize_sigmask :: "bytes \<Rightarrow> nat \<Rightarrow> bytes" where
  "resize_sigmask old sz =
     (let copy_len = min (length old) sz in take copy_len old @ replicate (sz - copy_len) 0)"

definition sys_rt_sigaction :: "('u, 'h) platform \<Rightarrow> ('u, 'h) sys_fn" where
  "sys_rt_sigaction P sctx vk =
     (let signum = (ucast (arg0 sctx) :: i32); act_addr = arg1 sctx; oldact_addr = arg2 sctx;
          sigsetsize = arg3 sctx in
      if sint signum \<le> 0 then (Ok (neg_errno EINVAL), vk)
      else case rt_sigaction_size (c_arch (cfg vk)) sigsetsize of
        None \<Rightarrow> (Ok (neg_errno EINVAL), vk)
      | Some action_size \<Rightarrow>
          and_then
            (if oldact_addr \<noteq> 0
             then case guest_rt_sigactions vk signum of
               Some oldact \<Rightarrow> mem_write P oldact_addr oldact vk
             | None \<Rightarrow> if 2 ^ 63 \<le> unat action_size then (Panic, vk)
                        else mem_write P oldact_addr (replicate (unat action_size) 0) vk
             else (Ok (), vk))
            (\<lambda>_ vk. and_then
              (if act_addr \<noteq> 0
               then and_then (mem_read P act_addr (unat action_size) vk)
                 (\<lambda>action vk. (Ok (), vk\<lparr>guest_rt_sigactions :=
                    (guest_rt_sigactions vk)(signum \<mapsto> action)\<rparr>))
               else (Ok (), vk))
              (\<lambda>_ vk. (Ok 0, vk))))"

definition sys_rt_sigprocmask :: "('u, 'h) platform \<Rightarrow> ('u, 'h) sys_fn" where
  "sys_rt_sigprocmask P sctx vk =
     (let how = (ucast (arg0 sctx) :: i32); set_addr = arg1 sctx; oldset_addr = arg2 sctx;
          sigsetsize = unat (arg3 sctx) in
      if sigsetsize = 0 then (Ok (neg_errno EINVAL), vk)
      else if 2 ^ 63 \<le> sigsetsize then (Panic, vk)
      else let current_mask = resize_sigmask (guest_rt_sigmask vk) sigsetsize in
      and_then (if oldset_addr \<noteq> 0 then mem_write P oldset_addr current_mask vk else (Ok (), vk))
        (\<lambda>_ vk.
          if set_addr = 0 then (Ok 0, vk)
          else and_then (mem_read P set_addr sigsetsize vk)
            (\<lambda>new_mask vk.
              if how = SIG_BLOCK
              then (Ok 0, vk\<lparr>guest_rt_sigmask := map2 (OR) current_mask new_mask\<rparr>)
              else if how = SIG_UNBLOCK
              then (Ok 0, vk\<lparr>guest_rt_sigmask := map2 (\<lambda>d s. d AND NOT s) current_mask new_mask\<rparr>)
              else if how = SIG_SETMASK then (Ok 0, vk\<lparr>guest_rt_sigmask := new_mask\<rparr>)
              else (Ok (neg_errno EINVAL), vk))))"

text \<open>The debug table it logs only reads the emulator.\<close>

definition sys_tgkill :: "('u, 'h) platform \<Rightarrow> ('u, 'h) sys_fn" where
  "sys_tgkill P sctx vk =
     (let tgid = (arg0 sctx :: i64); tid = (arg1 sctx :: i64); sig = (ucast (arg2 sctx) :: i32);
          host_pid = (scast (libc_getpid P (host vk)) :: i64); host_tid = libc_gettid P (host vk) in
      if tgid \<noteq> host_pid \<or> tid \<noteq> host_tid then (Ok (neg_errno ESRCH), vk)
      else let
        vk = (if sig = SIGSEGV \<or> sig = SIGTRAP
              then emu_stop P (vk\<lparr>crashed := True, vstate := Ended\<rparr>) else vk);
        vk = (if sig = SIGKILL \<or> sig = SIGSTOP then emu_stop P (vk\<lparr>vstate := Ended\<rparr>) else vk)
      in (Ok 0, vk))"

section \<open>Limits and \<open>prctl\<close>\<close>

definition sys_ugetrlimit :: "('u, 'h) platform \<Rightarrow> ('u, 'h) sys_fn" where
  "sys_ugetrlimit P sctx vk =
     (let resource = (ucast (arg0 sctx) :: u32); rlim_addr = arg1 sctx in
      if rlim_addr = 0 then (Ok (neg_errno EFAULT), vk)
      else case libc_getrlimit P resource (host vk) of
        (None, h) \<Rightarrow> (Ok (last_errno P (vk\<lparr>host := h\<rparr>)), vk\<lparr>host := h\<rparr>)
      | (Some (rlim_cur, rlim_max), h) \<Rightarrow>
          let cur = (ucast (min rlim_cur 0xffffffff) :: u32);
              lim = (ucast (min rlim_max 0xffffffff) :: u32) in
          and_then (mem_write P rlim_addr (to_le_bytes cur) (vk\<lparr>host := h\<rparr>))
            (\<lambda>_ vk. and_then (mem_write P (rlim_addr + 4) (to_le_bytes lim) vk)
              (\<lambda>_ vk. (Ok 0, vk))))"

definition sys_prlimit64 :: "('u, 'h) platform \<Rightarrow> ('u, 'h) sys_fn" where
  "sys_prlimit64 P sctx vk =
     (let old_limit = arg3 sctx; width = ptr_width vk in
      and_then
        (if old_limit \<noteq> 0
         then and_then (write_word P old_limit RLIM_INFINITY width vk)
           (\<lambda>_ vk. write_word P (old_limit + of_nat width) RLIM_INFINITY width vk)
         else (Ok (), vk))
        (\<lambda>_ vk. (Ok 0, vk)))"

definition prctl_name :: "bytes \<Rightarrow> bytes" where
  "prctl_name bs =
     (let len = min (length (takeWhile (\<lambda>b. b \<noteq> 0) bs)) 15 in take len bs @ replicate (16 - len) 0)"

definition sys_prctl :: "('u, 'h) platform \<Rightarrow> ('u, 'h) sys_fn" where
  "sys_prctl P sctx vk =
     (let opt = (ucast (arg0 sctx) :: i32); a2 = arg1 sctx in
      if opt = PR_SET_NAME then
        (if a2 = 0 then (Ok (neg_errno EFAULT), vk)
         else and_then (mem_read P a2 (length (guest_prctl_name vk)) vk)
           (\<lambda>bs vk. (Ok 0, vk\<lparr>guest_prctl_name := prctl_name bs\<rparr>)))
      else if opt = PR_GET_NAME then
        (if a2 = 0 then (Ok (neg_errno EFAULT), vk)
         else and_then (mem_write P a2 (guest_prctl_name vk) vk) (\<lambda>_ vk. (Ok 0, vk)))
      else if opt = PR_SET_PDEATHSIG then (Ok 0, vk\<lparr>guest_pdeathsig := ucast a2\<rparr>)
      else if opt = PR_GET_PDEATHSIG then
        (if a2 = 0 then (Ok (neg_errno EFAULT), vk)
         else and_then (mem_write P a2 (to_le_bytes (guest_pdeathsig vk)) vk) (\<lambda>_ vk. (Ok 0, vk)))
      else if opt = PR_SET_DUMPABLE then (Ok 0, vk\<lparr>guest_dumpable := ucast a2\<rparr>)
      else if opt = PR_GET_DUMPABLE then (Ok (scast (guest_dumpable vk)), vk)
      else if opt = PR_CAPBSET_READ then
        (case libc_prctl_capbset_read P a2 (host vk) of
           (ret, h) \<Rightarrow> if ret = - 1 then (Ok (last_errno P (vk\<lparr>host := h\<rparr>)), vk\<lparr>host := h\<rparr>)
                       else (Ok (scast ret), vk\<lparr>host := h\<rparr>))
      else (Ok (neg_errno EINVAL), vk))"

definition sys_getpid :: "('u, 'h) platform \<Rightarrow> ('u, 'h) sys_fn" where
  "sys_getpid P sctx vk = (Ok (scast (libc_getpid P (host vk))), vk)"

section \<open>Frames\<close>

lemma emu_stop_frame [map_frame]:
  "engine_maps P view \<Longrightarrow> keeps_map view v0 vk \<Longrightarrow> keeps_map view v0 (emu_stop P vk)"
  by (simp add: keeps_map_def emu_stop_def view_uc_do_write)

lemma write_fields_frame [map_frame]:
  "engine_maps P view \<Longrightarrow> keeps_map view v0 vk \<Longrightarrow> keeps_map view v0 (snd (write_fields P b i fs vk))"
proof (induction P b i fs vk rule: write_fields.induct)
  case (2 P b i f fs vk)
  have "keeps_map view v0 (snd (mem_write P (b + i * of_nat UTSNAME_LEN) f vk))"
    by (rule mem_write_frame [OF "2.prems"])
  then show ?case
    using "2.IH" "2.prems"(1) by (auto split: prod.splits outcome.splits)
qed simp

lemma host_uname_frame [map_frame]:
  "keeps_map view v0 vk \<Longrightarrow> keeps_map view v0 (snd (host_uname P vk))"
  by (simp add: host_uname_def split: prod.split option.split)

lemma sys_process_frame [map_frame]:
  assumes "engine_maps P view"
  shows "keeps_map view vk (snd (sys_exit P s vk))" "keeps_map view vk (snd (sys_exit_group P s vk))"
    "keeps_map view vk (snd (sys_geteuid s vk))" "keeps_map view vk (snd (sys_getuid s vk))"
    "keeps_map view vk (snd (sys_getegid s vk))" "keeps_map view vk (snd (sys_getgid s vk))"
    "keeps_map view vk (snd (sys_getpid P s vk))" "keeps_map view vk (snd (sys_lookup_dcookie s vk))"
    "keeps_map view vk (snd (sys_uname P s vk))"
  using assms
  by (auto simp: sys_exit_def sys_exit_group_def sys_geteuid_def sys_getuid_def sys_getegid_def
      sys_getgid_def sys_getpid_def sys_lookup_dcookie_def sys_uname_def Let_def
      intro!: map_frame simp del: write_fields.simps)

lemma sys_clock_frame [map_frame]:
  assumes "engine_maps P view"
  shows "keeps_map view vk (snd (sys_clock_gettime P s vk))"
    "keeps_map view vk (snd (sys_clock_gettime64 P s vk))"
    "keeps_map view vk (snd (sys_time P s vk))"
    "keeps_map view vk (snd (sys_getrandom P s vk))"
  using assms
  by (auto simp: sys_clock_gettime_def sys_clock_gettime64_def sys_time_def sys_getrandom_def
      Let_def split: prod.split option.split intro!: map_frame)

lemma sys_limit_frame [map_frame]:
  assumes "engine_maps P view"
  shows "keeps_map view vk (snd (sys_ugetrlimit P s vk))"
    "keeps_map view vk (snd (sys_prlimit64 P s vk))"
  using assms
  by (auto simp: sys_ugetrlimit_def sys_prlimit64_def Let_def split: prod.split option.split
      intro!: map_frame)

lemma sys_prctl_frame [map_frame]:
  assumes "engine_maps P view"
  shows "keeps_map view vk (snd (sys_prctl P s vk))"
  unfolding sys_prctl_def Let_def
  by (simp add: map_frame assms keeps_map_and_then mem_write_frame mem_read_frame split: prod.split)

lemma sys_arch_prctl_frame [map_frame]:
  assumes "engine_maps P view"
  shows "keeps_map view vk (snd (sys_arch_prctl P s vk))"
  unfolding sys_arch_prctl_def Let_def
  by (simp add: keeps_map_and_then mem_write_frame set_reg_frame get_reg_frame assms)

lemma sys_signal_frame [map_frame]:
  assumes "engine_maps P view"
  shows "keeps_map view vk (snd (sys_rt_sigaction P s vk))"
    "keeps_map view vk (snd (sys_rt_sigprocmask P s vk))"
    "keeps_map view vk (snd (sys_tgkill P s vk))"
  using assms
  by (auto simp: sys_rt_sigaction_def sys_rt_sigprocmask_def sys_tgkill_def
      Let_def split: prod.split option.split intro!: map_frame)

section \<open>Behaviour\<close>

lemma subctx_args [simp]:
  "arg0 (subctx_new [a, b, c, d, e, f]) = a" "arg1 (subctx_new [a, b, c, d, e, f]) = b"
  "arg2 (subctx_new [a, b, c, d, e, f]) = c" "arg3 (subctx_new [a, b, c, d, e, f]) = d"
  "arg4 (subctx_new [a, b, c, d, e, f]) = e" "arg5 (subctx_new [a, b, c, d, e, f]) = f"
  by (simp_all add: subctx_new_def arg_defs)

text \<open>On the reference engine reads succeed, and writes below the top of the address space do.\<close>

lemma ref_mem_read:
  "0 < n \<Longrightarrow> n < 2 ^ 63 \<Longrightarrow>
     mem_read ref_engine a n vk = (Ok (map (\<lambda>i. ref_content (uc vk) (unat a + i)) [0..<n]), vk)"
  by (simp add: mem_read_def ref_engine_def)

lemma ref_mem_write:
  "d \<noteq> [] \<Longrightarrow> unat a + length d \<le> 2 ^ 64 \<Longrightarrow>
     \<exists>u. mem_write ref_engine a d vk = (Ok (), vk\<lparr>uc := u\<rparr>)"
  by (intro exI [of _ "snd (uc_mem_write ref_engine a d (uc vk))"])
    (simp add: mem_write_def uc_do_def ref_engine_def)

lemma mem_write_fields:
  assumes "mem_write P a d vk = (r, vk')"
  shows "guest_rt_sigactions vk' = guest_rt_sigactions vk" "guest_rt_sigmask vk' = guest_rt_sigmask vk"
    "cfg vk' = cfg vk" "fd_table vk' = fd_table vk" "vmem vk' = vmem vk" "varch vk' = varch vk"
    "host vk' = host vk" "linux_creds vk' = linux_creds vk"
  using assms by (auto simp: mem_write_def uc_do_def split: if_splits prod.splits sum.splits)

lemma prctl_name_parts:
  "\<exists>t. prctl_name bs = t @ replicate (16 - length t) 0 \<and> length t \<le> 15 \<and> 0 \<notin> set t"
proof -
  let ?w = "takeWhile (\<lambda>b. b \<noteq> 0) bs"
  have "take 15 ?w = take 15 (take (length ?w) bs)"
    by (rule arg_cong [where f = "take 15", OF takeWhile_eq_take])
  then have "take (min (length ?w) 15) bs = take 15 ?w"
    by (simp only: take_take min.commute)
  moreover have "min (length ?w) 15 = length (take 15 ?w)"
    by (simp only: length_take min.commute)
  moreover have "0 \<notin> set (take 15 ?w)"
    using set_takeWhileD [of 0 "\<lambda>b. b \<noteq> 0" bs] in_set_takeD [of 0 15 ?w] by auto
  ultimately have "prctl_name bs = take 15 ?w @ replicate (16 - length (take 15 ?w)) 0"
    unfolding prctl_name_def Let_def by (simp only:)
  moreover have "length (take 15 ?w) \<le> 15"
    by simp
  ultimately show ?thesis
    using \<open>0 \<notin> set (take 15 ?w)\<close> by blast
qed

lemma length_prctl_name [simp]: "length (prctl_name bs) = 16"
  using prctl_name_parts [of bs] by auto

lemma guest_bytes_uc: "uc vk' = uc vk \<Longrightarrow> guest_bytes content a n vk' = guest_bytes content a n vk"
  by (simp add: guest_bytes_def)

lemma guest_bytes_written:
  assumes "engine_bytes P content" and "mem_write P a d vk = (Ok x, vk')" and "n = length d"
  shows "guest_bytes content a n vk' = d"
  using guest_bytes_write [OF assms(1,2)] assms(3) by simp

text \<open>
  A thread name set with \<open>PR_SET_NAME\<close> is what \<open>PR_GET_NAME\<close> writes back: the guest's bytes up to
  the first NUL, at most 15 of them, padded with NULs to 16.
\<close>

theorem prctl_name_set_get:
  assumes bytes: "engine_bytes P content" and len: "length (guest_prctl_name vk) = 16"
    and set: "sys_prctl P (subctx_new [15, a, x, y, z, w]) vk = (Ok 0, vk1)"
    and get: "sys_prctl P (subctx_new [16, b, x', y', z', w']) vk1 = (Ok 0, vk2)"
  shows "guest_bytes content b 16 vk2 = prctl_name (guest_bytes content a 16 vk)
    \<and> prctl_name (guest_bytes content a 16 vk) ! 15 = 0"
proof -
  have opt: "(ucast (15 :: u64) :: i32) = PR_SET_NAME" "(ucast (16 :: u64) :: i32) = PR_GET_NAME"
    "PR_GET_NAME \<noteq> PR_SET_NAME"
    by (simp_all add: prctl_defs)
  have "a \<noteq> 0"
    using set opt by (auto simp: sys_prctl_def Let_def neg_errno_def EFAULT_def)
  then obtain bs where rd: "mem_read P a 16 vk = (Ok bs, vk)"
    and vk1: "vk1 = vk\<lparr>guest_prctl_name := prctl_name bs\<rparr>"
    using set opt len mem_read_same_state [of P a 16 vk]
    by (auto simp: sys_prctl_def Let_def outcome_elim)
  have "b \<noteq> 0"
    using get opt by (auto simp: sys_prctl_def Let_def neg_errno_def EFAULT_def)
  then obtain u where wr: "mem_write P b (prctl_name bs) vk1 = (Ok u, vk2)"
    using get opt vk1 by (auto simp: sys_prctl_def Let_def outcome_elim)
  have "bs = guest_bytes content a 16 vk"
    using mem_read_Ok [OF bytes rd] by simp
  moreover have "prctl_name bs ! 15 = 0"
    using prctl_name_parts [of bs] by (auto simp: nth_append)
  ultimately show ?thesis
    using guest_bytes_written [OF bytes wr] by simp
qed

theorem prctl_name_set_get_witness:
  "\<exists>vk1 vk2. sys_prctl ref_engine (subctx_new [15, 0x400000, 0, 0, 0, 0]) (ref_vk X86) = (Ok 0, vk1)
    \<and> sys_prctl ref_engine (subctx_new [16, 0x400100, 0, 0, 0, 0]) vk1 = (Ok 0, vk2)
    \<and> guest_bytes ref_content 0x400100 16 vk2 = prctl_name (guest_bytes ref_content 0x400000 16 (ref_vk X86))"
proof -
  let ?s1 = "subctx_new [15, 0x400000, 0, 0, 0, 0]" and ?s2 = "subctx_new [16, 0x400100, 0, 0, 0, 0]"
  have len: "length (guest_prctl_name (ref_vk X86)) = 16"
    by (simp add: ref_vk_def)
  then obtain bs where set: "sys_prctl ref_engine ?s1 (ref_vk X86)
      = (Ok 0, (ref_vk X86)\<lparr>guest_prctl_name := prctl_name bs\<rparr>)" (is "_ = (_, ?vk1)")
    by (simp add: sys_prctl_def prctl_defs Let_def ref_mem_read)
  have "prctl_name bs \<noteq> []"
    by (simp flip: length_0_conv)
  then obtain vk2 where get: "sys_prctl ref_engine ?s2 ?vk1 = (Ok 0, vk2)"
    using ref_mem_write [of "prctl_name bs" "0x400100" ?vk1]
    by (auto simp: sys_prctl_def prctl_defs Let_def)
  from prctl_name_set_get [OF ref_engine_bytes len set get] set get show ?thesis
    by blast
qed

text \<open>
  C38: a signal action installed with one call is what the next call for that signal reports, and the
  actions of the other signals are untouched.
\<close>

theorem sigaction_set_then_query:
  assumes bytes: "engine_bytes P content"
    and set: "sys_rt_sigaction P (subctx_new [sig, act, 0, n, x, y]) vk = (Ok 0, vk1)" and act: "act \<noteq> 0"
    and get: "sys_rt_sigaction P (subctx_new [sig, 0, oldact, n, x', y']) vk1 = (Ok 0, vk2)" and oldact: "oldact \<noteq> 0"
    and sz: "rt_sigaction_size (c_arch (cfg vk)) n = Some sz"
  shows "guest_bytes content oldact (unat sz) vk2 = guest_bytes content act (unat sz) vk
    \<and> (\<forall>s. s \<noteq> ucast sig \<longrightarrow> guest_rt_sigactions vk2 s = guest_rt_sigactions vk s)"
proof -
  have pos: "\<not> sint (ucast sig :: i32) \<le> 0"
    using set by (auto simp: sys_rt_sigaction_def Let_def neg_errno_def EINVAL_def)
  obtain bs where rd: "mem_read P act (unat sz) vk = (Ok bs, vk)"
    and vk1: "vk1 = vk\<lparr>guest_rt_sigactions := (guest_rt_sigactions vk)(ucast sig \<mapsto> bs)\<rparr>"
    using set pos sz act mem_read_same_state [of P act "unat sz" vk]
    by (auto simp: sys_rt_sigaction_def Let_def outcome_elim)
  obtain u where wr: "mem_write P oldact bs vk1 = (Ok u, vk2)"
    using get pos sz oldact vk1 by (auto simp: sys_rt_sigaction_def Let_def outcome_elim)
  have "bs = guest_bytes content act (unat sz) vk"
    using mem_read_Ok [OF bytes rd] by simp
  moreover have "guest_rt_sigactions vk2 = guest_rt_sigactions vk1"
    by (rule mem_write_fields [OF wr])
  ultimately show ?thesis
    using guest_bytes_written [OF bytes wr] vk1 by simp
qed

theorem sigaction_set_then_query_witness:
  "\<exists>vk1 vk2. sys_rt_sigaction ref_engine (subctx_new [11, 0x400000, 0, 8, 0, 0]) (ref_vk X86) = (Ok 0, vk1)
    \<and> sys_rt_sigaction ref_engine (subctx_new [11, 0, 0x400100, 8, 0, 0]) vk1 = (Ok 0, vk2)
    \<and> guest_bytes ref_content 0x400100 20 vk2 = guest_bytes ref_content 0x400000 20 (ref_vk X86)"
proof -
  let ?s1 = "subctx_new [11, 0x400000, 0, 8, 0, 0]" and ?s2 = "subctx_new [11, 0, 0x400100, 8, 0, 0]"
  have sz: "rt_sigaction_size X86 8 = Some 20"
    by (simp add: rt_sigaction_size_def)
  obtain bs where set: "sys_rt_sigaction ref_engine ?s1 (ref_vk X86) = (Ok 0,
      (ref_vk X86)\<lparr>guest_rt_sigactions := (guest_rt_sigactions (ref_vk X86))(11 \<mapsto> bs)\<rparr>)" (is "_ = (_, ?vk1)")
    and bs: "length bs = 20"
    by (simp add: sys_rt_sigaction_def Let_def ref_mem_read sz)
  have "bs \<noteq> []"
    using bs by auto
  then obtain vk2 where get: "sys_rt_sigaction ref_engine ?s2 ?vk1 = (Ok 0, vk2)"
    using ref_mem_write [of bs "0x400100" ?vk1] bs
    by (auto simp: sys_rt_sigaction_def Let_def sz)
  from sigaction_set_then_query [OF ref_engine_bytes set _ get] set get sz show ?thesis
    by simp
qed

text \<open>
  \<open>rt_sigprocmask\<close> without a request for the old mask: the mask becomes the one the guest asked for,
  bit by bit, over the whole set; an unknown \<open>how\<close> is \<open>EINVAL\<close> and changes nothing.
\<close>

theorem sigprocmask_sets_mask:
  assumes bytes: "engine_bytes P content"
    and call: "sys_rt_sigprocmask P (subctx_new [how, set_addr, 0, n, x, y]) vk = (Ok r, vk')"
    and set_addr: "set_addr \<noteq> 0" and n: "n \<noteq> 0"
  shows "(r = 0 \<and> length (guest_rt_sigmask vk') = unat n
      \<and> (\<forall>i < unat n. guest_rt_sigmask vk' ! i =
          (let old = (if i < length (guest_rt_sigmask vk) then guest_rt_sigmask vk ! i else 0);
               new = content (uc vk) (unat set_addr + i)
           in if (ucast how :: i32) = SIG_BLOCK then old OR new
              else if (ucast how :: i32) = SIG_UNBLOCK then old AND NOT new else new))
      \<and> (ucast how :: i32) \<in> {SIG_BLOCK, SIG_UNBLOCK, SIG_SETMASK})
    \<or> (r = neg_errno EINVAL \<and> vk' = vk \<and> (ucast how :: i32) \<notin> {SIG_BLOCK, SIG_UNBLOCK, SIG_SETMASK})"
proof -
  let ?cur = "resize_sigmask (guest_rt_sigmask vk) (unat n)"
  have nz: "unat n \<noteq> 0" using n by (simp add: unat_eq_zero)
  obtain bs where rd: "mem_read P set_addr (unat n) vk = (Ok bs, vk)"
    using call set_addr nz mem_read_same_state [of P set_addr "unat n" vk]
    by (cases "mem_read P set_addr (unat n) vk")
      (auto simp: sys_rt_sigprocmask_def Let_def outcome_elim split: if_splits)
  have bs: "bs = guest_bytes content set_addr (unat n) vk"
    using mem_read_Ok [OF bytes rd] by simp
  have cur: "length ?cur = unat n" "i < unat n \<Longrightarrow>
      ?cur ! i = (if i < length (guest_rt_sigmask vk) then guest_rt_sigmask vk ! i else 0)" for i
    by (auto simp: resize_sigmask_def Let_def nth_append min_def)
  have out: "(r, vk') =
      (if (ucast how :: i32) = SIG_BLOCK then (0, vk\<lparr>guest_rt_sigmask := map2 (OR) ?cur bs\<rparr>)
       else if (ucast how :: i32) = SIG_UNBLOCK
       then (0, vk\<lparr>guest_rt_sigmask := map2 (\<lambda>d s. d AND NOT s) ?cur bs\<rparr>)
       else if (ucast how :: i32) = SIG_SETMASK then (0, vk\<lparr>guest_rt_sigmask := bs\<rparr>)
       else (neg_errno EINVAL, vk))"
    using call set_addr nz rd by (auto simp: sys_rt_sigprocmask_def Let_def split: if_splits)
  show ?thesis
    using out cur unfolding bs guest_bytes_def by (auto simp: Let_def split: if_splits)
qed

theorem sigprocmask_sets_mask_witness:
  "\<exists>vk'. sys_rt_sigprocmask ref_engine (subctx_new [2, 0x400000, 0, 8, 0, 0]) (ref_vk X86) = (Ok 0, vk')
    \<and> guest_rt_sigmask vk' ! 7 = 0"
proof -
  let ?s = "subctx_new [2, 0x400000, 0, 8, 0, 0]"
  obtain vk' where call: "sys_rt_sigprocmask ref_engine ?s (ref_vk X86) = (Ok 0, vk')"
    by (simp add: sys_rt_sigprocmask_def Let_def ref_mem_read SIG_BLOCK_def SIG_UNBLOCK_def SIG_SETMASK_def)
  from sigprocmask_sets_mask [OF ref_engine_bytes this] this show ?thesis
    by (auto simp: neg_errno_def EINVAL_def SIG_BLOCK_def SIG_UNBLOCK_def Let_def)
qed

text \<open>
  When the guest passes the same structure for the new and the old action,
  the old action is written over the new one before the new one is read: the call returns 0 and the
  new action is lost.
\<close>

theorem sigaction_alias_loses_action:
  assumes bytes: "engine_bytes P content"
    and call: "sys_rt_sigaction P (subctx_new [sig, p, p, n, x, y]) vk = (Ok 0, vk')" and p: "p \<noteq> 0"
    and none: "guest_rt_sigactions vk (ucast sig) = None"
    and sz: "rt_sigaction_size (c_arch (cfg vk)) n = Some sz"
  shows "guest_rt_sigactions vk' (ucast sig) = Some (replicate (unat sz) 0)"
proof -
  have pos: "\<not> sint (ucast sig :: i32) \<le> 0"
    using call by (auto simp: sys_rt_sigaction_def Let_def neg_errno_def EINVAL_def)
  obtain u bs vk1 where wr: "mem_write P p (replicate (unat sz) 0) vk = (Ok u, vk1)"
    and rd: "mem_read P p (unat sz) vk1 = (Ok bs, vk1)"
    and vk': "guest_rt_sigactions vk' (ucast sig) = Some bs"
    using call pos sz p none mem_read_same_state [of P p "unat sz"]
    by (auto simp: sys_rt_sigaction_def Let_def outcome_elim split: if_splits) (metis snd_conv)
  have "bs = replicate (unat sz) 0"
    using mem_read_Ok [OF bytes rd] guest_bytes_written [OF bytes wr, of "unat sz"] by simp
  with vk' show ?thesis by simp
qed

theorem sigaction_alias_loses_action_witness:
  "\<exists>vk'. sys_rt_sigaction ref_engine (subctx_new [11, 0x400000, 0x400000, 8, 0, 0]) (ref_vk X86) = (Ok 0, vk')
    \<and> guest_rt_sigactions vk' 11 = Some (replicate 20 0)"
proof -
  let ?s = "subctx_new [11, 0x400000, 0x400000, 8, 0, 0]"
  have sz: "rt_sigaction_size X86 8 = Some 20" and none: "guest_rt_sigactions (ref_vk X86) 11 = None"
    by (simp_all add: rt_sigaction_size_def ref_vk_def)
  obtain vk' where call: "sys_rt_sigaction ref_engine ?s (ref_vk X86) = (Ok 0, vk')"
    using ref_mem_write [of "replicate 20 0" "0x400000" "ref_vk X86"]
    by (auto simp: sys_rt_sigaction_def Let_def ref_mem_read sz none)
  from sigaction_alias_loses_action [OF ref_engine_bytes call] call sz none show ?thesis
    by simp
qed

end
