(* ===== verification/Vk_Fs.thy ===== *)
theory Vk_Fs
  imports Vk_SysProcess
begin

text \<open>
  \<open>src/src/fs.rs\<close>: the descriptor table, the packed \<open>statx\<close> structure, guest paths and C strings. A
  path is the string of its characters. The mutex of the table is never poisoned: no handler panics
  while it holds it. The interface of the table is the locale \<open>keyed_table\<close>, interpreted as
  \<open>fds\<close>; the hook registry interprets it again.
\<close>

section \<open>The interface of a table\<close>

locale keyed_table =
  fixes look :: "'t \<Rightarrow> 'k \<Rightarrow> 'v option"
    and put :: "'k \<Rightarrow> 'v \<Rightarrow> 't \<Rightarrow> 't"
    and del :: "'k \<Rightarrow> 't \<Rightarrow> 't"
  assumes look_put: "look (put k v t) k' = (if k' = k then Some v else look t k')"
    and look_del: "look (del k t) k' = (if k' = k then None else look t k')"
begin

lemma look_put_same [simp]: "look (put k v t) k = Some v"
  by (simp add: look_put)

lemma look_del_same [simp]: "look (del k t) k = None"
  by (simp add: look_del)

lemma put_put: "look (put k w (put k v t)) = look (put k w t)"
  by (rule ext) (simp add: look_put)

lemma put_commute: "k \<noteq> k' \<Longrightarrow> look (put k v (put k' v' t)) = look (put k' v' (put k v t))"
  by (rule ext) (simp add: look_put)

lemma del_put: "look t k = None \<Longrightarrow> look (del k (put k v t)) = look t"
  by (rule ext) (simp add: look_put look_del)

lemma put_back: "look t k = Some v \<Longrightarrow> look (put k v t) = look t"
  by (rule ext) (simp add: look_put)

lemma dom_put: "dom (look (put k v t)) = insert k (dom (look t))"
  by (auto simp: look_put dom_def split: if_splits)

lemma dom_del: "dom (look (del k t)) = dom (look t) - {k}"
  by (auto simp: look_del dom_def split: if_splits)

end

section \<open>The descriptor table\<close>

definition AT_FDCWD :: i32 where "AT_FDCWD = - 100"

definition fd_table_default :: FdTable where
  "fd_table_default = \<lparr>next_fd = 3, fd_files = Map.empty\<rparr>"

definition files_insert :: "u64 \<Rightarrow> VkFile \<Rightarrow> FdTable \<Rightarrow> FdTable" where
  "files_insert fd f t = t\<lparr>fd_files := (fd_files t)(fd \<mapsto> f)\<rparr>"

definition files_remove :: "u64 \<Rightarrow> FdTable \<Rightarrow> FdTable" where
  "files_remove fd t = t\<lparr>fd_files := (fd_files t)(fd := None)\<rparr>"

definition add_file_entry :: "u64 \<Rightarrow> VkFile \<Rightarrow> bool \<Rightarrow> FdTable \<Rightarrow> unit vk_outcome \<times> FdTable" where
  "add_file_entry target_fd f safe t =
     (if safe \<and> target_fd \<le> 2 then (Err (FsErr (FileAlreadyHasFd target_fd)), t)
      else if safe \<and> fd_files t target_fd \<noteq> None then (Err (FsErr (FileAlreadyHasFd target_fd)), t)
      else (Ok (), files_insert target_fd f t))"

definition has_file_entry :: "u64 \<Rightarrow> FdTable \<Rightarrow> bool" where
  "has_file_entry target_fd t = (if target_fd \<le> 2 then False else fd_files t target_fd \<noteq> None)"

definition rm_file_entry :: "u64 \<Rightarrow> FdTable \<Rightarrow> unit vk_outcome \<times> FdTable" where
  "rm_file_entry target_fd t =
     (if target_fd \<le> 2 then (Err (FsErr (NoFileAtFd target_fd)), t)
      else case fd_files t target_fd of
        None \<Rightarrow> (Err (FsErr (NoFileAtFd target_fd)), t)
      | Some _ \<Rightarrow> (Ok (), files_remove target_fd t))"

interpretation fds: keyed_table fd_files files_insert files_remove
  by unfold_locales (simp_all add: files_insert_def files_remove_def)

text \<open>
  The descriptor table. A safe insertion succeeds exactly on a free descriptor above the three
  standard ones; then the descriptor is present, a second safe insertion is refused, removing it
  succeeds once and gives back every entry there was before, and the standard descriptors can never be
  removed.
\<close>

theorem fd_table_life:
  "(fst (add_file_entry fd f True t) = Ok () \<longleftrightarrow> 2 < fd \<and> fd_files t fd = None)
   \<and> (fst (add_file_entry fd f True t) = Ok () \<longrightarrow>
        has_file_entry fd (snd (add_file_entry fd f True t))
        \<and> fst (add_file_entry fd g True (snd (add_file_entry fd f True t)))
            = Err (FsErr (FileAlreadyHasFd fd))
        \<and> fst (rm_file_entry fd (snd (add_file_entry fd f True t))) = Ok ()
        \<and> fd_files (snd (rm_file_entry fd (snd (add_file_entry fd f True t)))) = fd_files t
        \<and> fst (rm_file_entry fd (snd (rm_file_entry fd (snd (add_file_entry fd f True t)))))
            = Err (FsErr (NoFileAtFd fd)))
   \<and> (fst (add_file_entry fd f True t) \<noteq> Ok () \<longrightarrow> snd (add_file_entry fd f True t) = t)
   \<and> (fd \<le> 2 \<longrightarrow> rm_file_entry fd t = (Err (FsErr (NoFileAtFd fd)), t))"
  by (auto simp: add_file_entry_def has_file_entry_def rm_file_entry_def fds.del_put
      not_le split: option.split)

theorem fd_table_life_witness:
  "fst (add_file_entry 3 \<lparr>vf_file = 7, vf_path = ''/x'', vf_flags = 0, vf_mode = 0\<rparr> True fd_table_default)
    = Ok ()"
  using fd_table_life [of 3 "\<lparr>vf_file = 7, vf_path = ''/x'', vf_flags = 0, vf_mode = 0\<rparr>" fd_table_default]
  by (simp add: fd_table_default_def)

section \<open>The packed \<open>statx\<close>\<close>

record StatxTimestamp =
  tv_sec :: i64
  tv_nsec :: u32
  tv_reserved :: i32

record Statx =
  stx_mask :: u32
  stx_blksize :: u32
  stx_attributes :: u64
  stx_nlink :: u32
  stx_uid :: u32
  stx_gid :: u32
  stx_mode :: u16
  stx_spare0 :: u16
  stx_ino :: u64
  stx_size :: u64
  stx_blocks :: u64
  stx_attributes_mask :: u64
  stx_atime :: StatxTimestamp
  stx_btime :: StatxTimestamp
  stx_ctime :: StatxTimestamp
  stx_mtime :: StatxTimestamp
  stx_rdev_major :: u32
  stx_rdev_minor :: u32
  stx_dev_major :: u32
  stx_dev_minor :: u32
  stx_mnt_id :: u64
  stx_spare2 :: "u64 list"

definition push_u16_le :: "bytes \<Rightarrow> u16 \<Rightarrow> bytes" where "push_u16_le out v = out @ to_le_bytes v"
definition push_u32_le :: "bytes \<Rightarrow> u32 \<Rightarrow> bytes" where "push_u32_le out v = out @ to_le_bytes v"
definition push_u64_le :: "bytes \<Rightarrow> u64 \<Rightarrow> bytes" where "push_u64_le out v = out @ to_le_bytes v"
definition push_i64_le :: "bytes \<Rightarrow> i64 \<Rightarrow> bytes" where "push_i64_le out v = out @ to_le_bytes v"
definition push_i32_le :: "bytes \<Rightarrow> i32 \<Rightarrow> bytes" where "push_i32_le out v = out @ to_le_bytes v"

lemmas push_defs = push_u16_le_def push_u32_le_def push_u64_le_def push_i64_le_def push_i32_le_def

definition push_timestamp :: "bytes \<Rightarrow> StatxTimestamp \<Rightarrow> bytes" where
  "push_timestamp out ts =
     push_i32_le (push_u32_le (push_i64_le out (tv_sec ts)) (tv_nsec ts)) (tv_reserved ts)"

definition pack_statx_le :: "Statx \<Rightarrow> bytes" where
  "pack_statx_le st =
     (let out = [];
          out = push_u32_le out (stx_mask st);
          out = push_u32_le out (stx_blksize st);
          out = push_u64_le out (stx_attributes st);
          out = push_u32_le out (stx_nlink st);
          out = push_u32_le out (stx_uid st);
          out = push_u32_le out (stx_gid st);
          out = push_u16_le out (stx_mode st);
          out = push_u16_le out (stx_spare0 st);
          out = push_u64_le out (stx_ino st);
          out = push_u64_le out (stx_size st);
          out = push_u64_le out (stx_blocks st);
          out = push_u64_le out (stx_attributes_mask st);
          out = foldl push_timestamp out [stx_atime st, stx_btime st, stx_ctime st, stx_mtime st];
          out = push_u32_le out (stx_rdev_major st);
          out = push_u32_le out (stx_rdev_minor st);
          out = push_u32_le out (stx_dev_major st);
          out = push_u32_le out (stx_dev_minor st);
          out = push_u64_le out (stx_mnt_id st)
      in foldl push_u64_le out (stx_spare2 st))"

text \<open>The field of \<open>w\<close> bytes at an offset.\<close>

abbreviation field :: "nat \<Rightarrow> nat \<Rightarrow> bytes \<Rightarrow> 'a::len word" where
  "field off w out \<equiv> from_le (take w (drop off out))"

lemma length_push_timestamp: "length (push_timestamp out ts) = length out + 16"
  by (simp add: push_timestamp_def push_defs)

lemma foldl_push_u64: "foldl push_u64_le out xs = out @ concat (map to_le_bytes xs)"
  by (induction xs arbitrary: out) (simp_all add: push_defs)

lemma length_concat_u64: "length (concat (map (to_le_bytes :: u64 \<Rightarrow> bytes) xs)) = 8 * length xs"
  by (induction xs) simp_all

text \<open>
  The packed structure has the 256 bytes of the kernel's interface and carries every field at its
  offset there, so a guest that reads it at those offsets gets the values back.
\<close>

theorem pack_statx_layout:
  assumes "length (stx_spare2 st) = 13"
  shows "length (pack_statx_le st) = 256
    \<and> field 0 4 (pack_statx_le st) = stx_mask st \<and> field 4 4 (pack_statx_le st) = stx_blksize st
    \<and> field 8 8 (pack_statx_le st) = stx_attributes st \<and> field 16 4 (pack_statx_le st) = stx_nlink st
    \<and> field 20 4 (pack_statx_le st) = stx_uid st \<and> field 24 4 (pack_statx_le st) = stx_gid st
    \<and> field 28 2 (pack_statx_le st) = stx_mode st \<and> field 32 8 (pack_statx_le st) = stx_ino st
    \<and> field 40 8 (pack_statx_le st) = stx_size st \<and> field 48 8 (pack_statx_le st) = stx_blocks st
    \<and> field 64 8 (pack_statx_le st) = tv_sec (stx_atime st)
    \<and> field 80 8 (pack_statx_le st) = tv_sec (stx_btime st)
    \<and> field 96 8 (pack_statx_le st) = tv_sec (stx_ctime st)
    \<and> field 112 8 (pack_statx_le st) = tv_sec (stx_mtime st)
    \<and> field 120 4 (pack_statx_le st) = tv_nsec (stx_mtime st)
    \<and> field 128 4 (pack_statx_le st) = stx_rdev_major st
    \<and> field 140 4 (pack_statx_le st) = stx_dev_minor st \<and> field 144 8 (pack_statx_le st) = stx_mnt_id st"
  using assms
  by (simp add: pack_statx_le_def Let_def push_timestamp_def push_defs foldl_push_u64
      length_concat_u64 le16.dec_enc le32.dec_enc le64.dec_enc)

theorem pack_statx_layout_witness:
  "let ts = \<lparr>tv_sec = 5, tv_nsec = 6, tv_reserved = 0\<rparr>;
       st = \<lparr>stx_mask = 1, stx_blksize = 512, stx_attributes = 0, stx_nlink = 1, stx_uid = 0, stx_gid = 0,
         stx_mode = 0x81a4, stx_spare0 = 0, stx_ino = 9, stx_size = 1234, stx_blocks = 8,
         stx_attributes_mask = 0, stx_atime = ts, stx_btime = ts, stx_ctime = ts, stx_mtime = ts,
         stx_rdev_major = 0, stx_rdev_minor = 0, stx_dev_major = 8, stx_dev_minor = 1, stx_mnt_id = 0,
         stx_spare2 = replicate 13 0\<rparr>
   in field 40 8 (pack_statx_le st) = (1234 :: u64)"
  unfolding Let_def by (subst pack_statx_layout [THEN conjunct2, THEN conjunct2, THEN conjunct2,
      THEN conjunct2, THEN conjunct2, THEN conjunct2, THEN conjunct2, THEN conjunct2, THEN conjunct2,
      THEN conjunct1]) simp_all

section \<open>Guest strings and paths\<close>

fun cstring_loop :: "('u, 'h) platform \<Rightarrow> u64 \<Rightarrow> nat list \<Rightarrow> bytes \<Rightarrow> ('u, 'h, bytes) vk_call" where
  "cstring_loop P addr [] bs vk = (Ok bs, vk)"
| "cstring_loop P addr (offset # offs) bs vk =
     and_then (mem_read P (addr + of_nat offset) 1 vk)
       (\<lambda>byte vk. if byte ! 0 = 0 then (Ok bs, vk) else cstring_loop P addr offs (bs @ [byte ! 0]) vk)"

text \<open>The bytes of the string; \<open>read_guest_string\<close> below is the call with its replacement of invalid UTF-8.\<close>

definition read_guest_cstring :: "('u, 'h) platform \<Rightarrow> u64 \<Rightarrow> ('u, 'h, bytes) vk_call" where
  "read_guest_cstring P addr vk = cstring_loop P addr [0..<MAX_PATH_LEN] [] vk"

lemma cstring_loop_Ok:
  assumes "engine_bytes P content" and "cstring_loop P addr offs acc vk = (Ok bs, vk')"
  shows "vk' = vk \<and> bs = acc @ takeWhile (\<lambda>b. b \<noteq> 0) (map (\<lambda>i. content (uc vk) (unat (addr + of_nat i))) offs)"
  using assms(2)
proof (induction offs arbitrary: acc)
  case (Cons i offs)
  obtain byte where rd: "mem_read P (addr + of_nat i) 1 vk = (Ok byte, vk)"
    using Cons.prems mem_read_same_state [of P "addr + of_nat i" 1 vk] by (auto simp: outcome_elim)
  then have "byte ! 0 = content (uc vk) (unat (addr + of_nat i))"
    using mem_read_Ok [OF assms(1) rd] by (simp add: guest_bytes_def)
  with Cons.prems Cons.IH [of "acc @ [byte ! 0]"] rd show ?case
    by (auto split: if_splits)
qed simp

text \<open>
  A guest string is the bytes from its address up to the first NUL, at most 4096 of them, and
  reading it changes nothing.
\<close>

theorem read_guest_cstring_correct:
  assumes "engine_bytes P content" and "read_guest_cstring P addr vk = (Ok bs, vk')"
  shows "vk' = vk \<and> length bs \<le> 4096 \<and> 0 \<notin> set bs
    \<and> (\<forall>i < length bs. bs ! i = content (uc vk) (unat (addr + of_nat i)))
    \<and> (length bs < 4096 \<longrightarrow> content (uc vk) (unat (addr + of_nat (length bs))) = 0)"
proof -
  let ?m = "map (\<lambda>i. content (uc vk) (unat (addr + of_nat i))) [0..<4096]"
  have vk': "vk' = vk" and bs: "bs = takeWhile (\<lambda>b. b \<noteq> 0) ?m"
    using cstring_loop_Ok [OF assms(1), of addr "[0..<MAX_PATH_LEN]" "[]" vk bs vk'] assms(2)
    by (simp_all add: read_guest_cstring_def MAX_PATH_LEN_def)
  have len: "length bs \<le> 4096"
    using length_takeWhile_le [of "\<lambda>b. b \<noteq> 0" ?m] bs by simp
  have nth: "bs ! i = content (uc vk) (unat (addr + of_nat i))" if "i < length bs" for i
    using takeWhile_nth [of i "\<lambda>b. b \<noteq> 0" ?m] that len bs by simp
  have stop: "content (uc vk) (unat (addr + of_nat (length bs))) = 0" if "length bs < 4096"
    using nth_length_takeWhile [of "\<lambda>b. b \<noteq> 0" ?m] that bs by simp
  have "0 \<notin> set bs"
    unfolding bs by (auto dest: set_takeWhileD)
  with vk' len nth stop show ?thesis by blast
qed

theorem read_guest_cstring_correct_witness:
  "fst (read_guest_cstring ref_engine 0x400000 (ref_vk X86)) = Ok []"
proof -
  obtain bs vk' where call: "read_guest_cstring ref_engine 0x400000 (ref_vk X86) = (Ok bs, vk')"
    by (simp add: read_guest_cstring_def MAX_PATH_LEN_def upt_conv_Cons [of 0 4096] ref_mem_read)
  have "length bs = 0"
  proof (rule ccontr)
    assume "length bs \<noteq> 0"
    then show False
      using read_guest_cstring_correct [OF ref_engine_bytes call] nth_mem [of 0 bs] by auto
  qed
  with call show ?thesis by simp
qed

text \<open>
  \<open>String::from_utf8_lossy\<close>: each maximal invalid sequence becomes U+FFFD. \<open>utf8_len\<close> is the length of
  the sequence at the head and whether it is valid; past the end the decoder sees a 0.
\<close>

definition chars :: "bytes \<Rightarrow> string" where
  "chars bs = map (\<lambda>b. char_of (unat b)) bs"

definition continues :: "bytes \<Rightarrow> nat \<Rightarrow> bool" where
  "continues bs i \<longleftrightarrow> i < length bs \<and> bs ! i AND 0xC0 = 0x80"

definition second_ok :: "u8 \<Rightarrow> bytes \<Rightarrow> bool" where
  "second_ok b bs \<longleftrightarrow> continues bs 0 \<and> (b = 0xE0 \<longrightarrow> 0xA0 \<le> bs ! 0) \<and> (b = 0xED \<longrightarrow> bs ! 0 \<le> 0x9F)
     \<and> (b = 0xF0 \<longrightarrow> 0x90 \<le> bs ! 0) \<and> (b = 0xF4 \<longrightarrow> bs ! 0 \<le> 0x8F)"

definition utf8_len :: "u8 \<Rightarrow> bytes \<Rightarrow> nat \<times> bool" where
  "utf8_len b bs =
     (if b < 0x80 then (1, True)
      else if b < 0xC2 \<or> 0xF4 < b then (1, False)
      else if \<not> second_ok b bs then (1, False)
      else if b < 0xE0 then (2, True)
      else if \<not> continues bs 1 then (2, False)
      else if b < 0xF0 then (3, True)
      else if \<not> continues bs 2 then (3, False)
      else (4, True))"

function utf8_lossy :: "bytes \<Rightarrow> bytes" where
  "utf8_lossy [] = []"
| "utf8_lossy (b # bs) =
     (case utf8_len b bs of
        (n, valid) \<Rightarrow> (if valid then take n (b # bs) else [0xEF, 0xBF, 0xBD]) @ utf8_lossy (drop (n - 1) bs))"
  by pat_completeness auto
termination by (relation "measure length") auto

lemma utf8_lossy_ascii: "\<forall>b \<in> set bs. b < 0x80 \<Longrightarrow> utf8_lossy bs = bs"
  by (induction bs) (simp_all add: utf8_len_def)

definition read_guest_string :: "('u, 'h) platform \<Rightarrow> u64 \<Rightarrow> ('u, 'h, string) vk_call" where
  "read_guest_string P addr vk =
     and_then (read_guest_cstring P addr vk) (\<lambda>bs vk. (Ok (chars (utf8_lossy bs)), vk))"

text \<open>\<open>PathBuf::push\<close> on a Unix host and \<open>trim_start_matches('/')\<close>.\<close>

definition path_push :: "string \<Rightarrow> string \<Rightarrow> string" where
  "path_push base rel =
     (if take 1 rel = ''/'' then rel
      else if base = [] \<or> last base = CHR ''/'' then base @ rel else base @ ''/'' @ rel)"

definition trim_slashes :: "string \<Rightarrow> string" where
  "trim_slashes s = dropWhile (\<lambda>c. c = CHR ''/'') s"

text \<open>\<open>str::trim\<close>: the characters of Unicode's \<open>White_Space\<close>, in UTF-8, are taken off both ends.\<close>

definition white_chars :: "string list" where
  "white_chars = map chars
     ([[9], [10], [11], [12], [13], [32], [0xC2, 0x85], [0xC2, 0xA0], [0xE1, 0x9A, 0x80]]
      @ map (\<lambda>b. [0xE2, 0x80, b]) [0x80, 0x81, 0x82, 0x83, 0x84, 0x85, 0x86, 0x87, 0x88, 0x89, 0x8A, 0xA8, 0xA9, 0xAF]
      @ [[0xE2, 0x81, 0x9F], [0xE3, 0x80, 0x80]])"

function trim_prefixes :: "string list \<Rightarrow> string \<Rightarrow> string" where
  "trim_prefixes ws [] = []"
| "trim_prefixes ws (c # cs) =
     (case find (\<lambda>w. w \<noteq> [] \<and> take (length w) (c # cs) = w) ws of
        None \<Rightarrow> c # cs
      | Some w \<Rightarrow> trim_prefixes ws (drop (length w - 1) cs))"
  by pat_completeness auto
termination by (relation "measure (length \<circ> snd)") auto

definition str_trim :: "string \<Rightarrow> string" where
  "str_trim s = rev (trim_prefixes (map rev white_chars) (rev (trim_prefixes white_chars s)))"

definition resolve_guest_path :: "('u, 'h) Valkyrie \<Rightarrow> string \<Rightarrow> string" where
  "resolve_guest_path vk path =
     (if take 1 path = ''/'' then path_push (c_rootfs (cfg vk)) (trim_slashes path)
      else path_push (c_rootfs (cfg vk)) path)"

definition get_cwd_path :: "('u, 'h) platform \<Rightarrow> ('u, 'h) Valkyrie \<Rightarrow> string vk_outcome" where
  "get_cwd_path P vk =
     (case current_dir P (host vk) of
        None \<Rightarrow> Err (FsErr CurrentDirError)
      | Some cwd \<Rightarrow>
          if cwd = [] \<or> cwd = ''/'' then Ok (c_rootfs (cfg vk))
          else Ok (path_push (c_rootfs (cfg vk)) (trim_slashes cwd)))"

definition get_path_at ::
  "('u, 'h) platform \<Rightarrow> ('u, 'h) Valkyrie \<Rightarrow> i32 \<Rightarrow> string \<Rightarrow> string option vk_outcome" where
  "get_path_at P vk dirfd file_name =
     (let stripped = str_trim file_name in
      if take 1 stripped = ''/'' then Ok (Some (path_push (c_rootfs (cfg vk)) (trim_slashes stripped)))
      else let rel = trim_slashes stripped in
      if dirfd \<noteq> AT_FDCWD
      then (case fd_files (fd_table vk) (scast dirfd) of
              None \<Rightarrow> Ok None
            | Some df \<Rightarrow> Ok (Some (path_push (vf_path df) rel)))
      else (case get_cwd_path P vk of
              Ok dir_path \<Rightarrow> Ok (Some (path_push dir_path rel))
            | _ \<Rightarrow> Panic))"

lemma trim_slashes_head: "take 1 (trim_slashes s) \<noteq> ''/''"
  by (induction s) (simp_all add: trim_slashes_def)

text \<open>
  A guest path is placed under the configured root: the host path is the root, a separator where
  the root does not end in one, and the guest path without its leading slashes. The rest of the guest
  path is kept as it is, parent components included.
\<close>

theorem resolve_guest_path_under_root:
  assumes "c_rootfs (cfg vk) \<noteq> []"
  shows "resolve_guest_path vk path = c_rootfs (cfg vk)
      @ (if last (c_rootfs (cfg vk)) = CHR ''/'' then [] else ''/'') @ trim_slashes path"
proof (cases "take 1 path = ''/''")
  case True
  then show ?thesis
    using assms trim_slashes_head [of path] by (simp add: resolve_guest_path_def path_push_def)
next
  case False
  then have "trim_slashes path = path"
    by (cases path) (simp_all add: trim_slashes_def)
  with False show ?thesis
    using assms by (simp add: resolve_guest_path_def path_push_def)
qed

theorem resolve_guest_path_under_root_witness:
  "resolve_guest_path (ref_vk X86) ''//../etc'' = ''/srv/../etc''"
  using resolve_guest_path_under_root [of "ref_vk X86" "''//../etc''"]
  by (simp add: ref_cfg_def trim_slashes_def)

end
