(* ===== verification/Vk_Hooks.thy ===== *)
theory Vk_Hooks
  imports Vk_Fs "HOL-Library.AList"
begin

text \<open>
  \<open>src/src/hook.rs\<close>: the registry of hooks over the engine. The engine calls one dispatcher per hook
  type or hooked address; the dispatcher runs the registered hooks in order. \<open>'c\<close> is the context the
  callbacks mutate (the emulator), \<open>'d\<close> what a callback keeps: its captured state and user data. A
  \<open>HashMap\<close> is an association list whose order is the arbitrary order in which it is drained. A
  callback does not touch the registry it is called from, which the source's safety comment demands.
\<close>

section \<open>Outside the repository\<close>

text \<open>The bits of Unicorn's \<open>HookType\<close>.\<close>

type_synonym HookType = u32

definition HT_INTR :: HookType where "HT_INTR = 1"
definition HT_CODE :: HookType where "HT_CODE = 4"
definition HT_BLOCK :: HookType where "HT_BLOCK = 8"
definition HT_MEM_UNMAPPED :: HookType where "HT_MEM_UNMAPPED = 0x70"
definition HT_MEM_PROT :: HookType where "HT_MEM_PROT = 0x380"
definition HT_INSN_INVALID :: HookType where "HT_INSN_INVALID = 0x4000"

lemmas hook_type_defs =
  HT_INTR_def HT_CODE_def HT_BLOCK_def HT_MEM_UNMAPPED_def HT_MEM_PROT_def HT_INSN_INVALID_def

text \<open>The engine's registration of a hook over a range of addresses, and its removal.\<close>

type_synonym UcHookId = nat

record 'u hook_engine =
  uc_add_hook :: "HookType \<Rightarrow> u64 \<Rightarrow> u64 \<Rightarrow> 'u \<Rightarrow> (uc_error + UcHookId) \<times> 'u"
  uc_remove_hook :: "UcHookId \<Rightarrow> 'u \<Rightarrow> 'u engine_unit"

section \<open>Data\<close>

definition HOOK_BLOCK :: u32 where "HOOK_BLOCK = 1"

datatype HookKind = Common HookType | Address u64

record HookRet =
  hr_kind :: HookKind
  hr_id :: u64

type_synonym MemType = u32

datatype HookArgs =
    Trace (t_addr: u64) (t_size: u32)
  | Intr u32
  | Mem MemType (m_addr: u64) u64 i64
  | InvalidInsn

type_synonym ('c, 'd) HookCb = "'c \<Rightarrow> HookArgs \<Rightarrow> 'd \<Rightarrow> u32 option \<times> 'c \<times> 'd"
type_synonym ('c, 'd) AddrCb = "'c \<Rightarrow> 'd \<Rightarrow> u32 option \<times> 'c \<times> 'd"

record ('c, 'd) HookCommon =
  hc_id :: u64
  hc_begin :: u64
  hc_end :: u64
  hc_user_data :: 'd
  hc_cb :: "('c, 'd) HookCb"

record ('c, 'd) HookAddr =
  ha_id :: u64
  ha_addr :: u64
  ha_user_data :: 'd
  ha_cb :: "('c, 'd) AddrCb"

record ('c, 'd) VCoreHooks =
  next_id :: u64
  hook_fuc :: "(HookType \<times> UcHookId) list"
  addr_hook_fuc :: "(u64 \<times> UcHookId) list"
  hooks :: "(HookType \<times> ('c, 'd) HookCommon list) list"
  addr_hooks :: "(u64 \<times> ('c, 'd) HookAddr list) list"

definition hooks_new :: "('c, 'd) VCoreHooks" where
  "hooks_new = \<lparr>next_id = 1, hook_fuc = [], addr_hook_fuc = [], hooks = [], addr_hooks = []\<rparr>"

definition alloc_id :: "('c, 'd) VCoreHooks \<Rightarrow> u64 \<times> ('c, 'd) VCoreHooks" where
  "alloc_id h = (next_id h, h\<lparr>next_id := next_id h + 1\<rparr>)"

definition bound_check :: "u64 \<Rightarrow> u64 \<Rightarrow> u64 \<Rightarrow> bool" where
  "bound_check lo hi addr = (if lo = 1 \<and> hi = 0 then True else addr \<ge> lo \<and> addr \<le> hi)"

section \<open>Dispatchers\<close>

type_synonym ('c, 'd, 'u) hook_state = "('c, 'd) VCoreHooks \<times> 'u"
type_synonym ('c, 'd, 'u, 'a) hook_call =
  "('c, 'd, 'u) hook_state \<Rightarrow> 'a vk_outcome \<times> ('c, 'd, 'u) hook_state"

text \<open>The body the five installers of common dispatchers share: nothing to do when one is there.\<close>

definition ensure_dispatcher :: "'u hook_engine \<Rightarrow> HookType \<Rightarrow> ('c, 'd, 'u, unit) hook_call" where
  "ensure_dispatcher E t st =
     (case st of (h, u) \<Rightarrow>
        if map_of (hook_fuc h) t \<noteq> None then (Ok (), (h, u))
        else case uc_add_hook E t 1 0 u of
          (Inl e, u) \<Rightarrow> (Err (UnicornErr e), (h, u))
        | (Inr hook_id, u) \<Rightarrow> (Ok (), (h\<lparr>hook_fuc := AList.update t hook_id (hook_fuc h)\<rparr>, u)))"

definition ensure_code_dispatcher :: "'u hook_engine \<Rightarrow> ('c, 'd, 'u, unit) hook_call" where
  "ensure_code_dispatcher E = ensure_dispatcher E HT_CODE"

definition ensure_block_dispatcher :: "'u hook_engine \<Rightarrow> ('c, 'd, 'u, unit) hook_call" where
  "ensure_block_dispatcher E = ensure_dispatcher E HT_BLOCK"

definition ensure_intr_dispatcher :: "'u hook_engine \<Rightarrow> ('c, 'd, 'u, unit) hook_call" where
  "ensure_intr_dispatcher E = ensure_dispatcher E HT_INTR"

definition ensure_invalid_insn_dispatcher :: "'u hook_engine \<Rightarrow> ('c, 'd, 'u, unit) hook_call" where
  "ensure_invalid_insn_dispatcher E = ensure_dispatcher E HT_INSN_INVALID"

definition ensure_mem_dispatcher :: "'u hook_engine \<Rightarrow> HookType \<Rightarrow> ('c, 'd, 'u, unit) hook_call" where
  "ensure_mem_dispatcher E t = ensure_dispatcher E t"

definition ensure_addr_dispatcher :: "'u hook_engine \<Rightarrow> u64 \<Rightarrow> ('c, 'd, 'u, unit) hook_call" where
  "ensure_addr_dispatcher E address st =
     (case st of (h, u) \<Rightarrow>
        if map_of (addr_hook_fuc h) address \<noteq> None then (Ok (), (h, u))
        else case uc_add_hook E HT_CODE address address u of
          (Inl e, u) \<Rightarrow> (Err (UnicornErr e), (h, u))
        | (Inr hook_id, u) \<Rightarrow> (Ok (), (h\<lparr>addr_hook_fuc := AList.update address hook_id (addr_hook_fuc h)\<rparr>, u)))"

section \<open>Running the hooks\<close>

definition in_scope :: "HookArgs \<Rightarrow> ('c, 'd) HookCommon \<Rightarrow> bool" where
  "in_scope args h =
     (case args of
        Trace addr _ \<Rightarrow> bound_check (hc_begin h) (hc_end h) addr
      | Mem _ addr _ _ \<Rightarrow> bound_check (hc_begin h) (hc_end h) addr
      | _ \<Rightarrow> True)"

definition blocks :: "u32 option \<Rightarrow> bool" where
  "blocks ret = (case ret of Some v \<Rightarrow> v AND HOOK_BLOCK \<noteq> 0 | None \<Rightarrow> False)"

text \<open>The loop over the hooks of a type: whether one was in scope, the context and the hooks after.\<close>

fun run_common ::
  "HookArgs \<Rightarrow> 'c \<Rightarrow> ('c, 'd) HookCommon list \<Rightarrow> bool \<times> 'c \<times> ('c, 'd) HookCommon list" where
  "run_common args ctx [] = (False, ctx, [])"
| "run_common args ctx (h # hs) =
     (if \<not> in_scope args h
      then (case run_common args ctx hs of (handled, ctx, hs) \<Rightarrow> (handled, ctx, h # hs))
      else case hc_cb h ctx args (hc_user_data h) of
        (ret, ctx, d) \<Rightarrow>
          if blocks ret then (True, ctx, h\<lparr>hc_user_data := d\<rparr> # hs)
          else (case run_common args ctx hs of (_, ctx, hs) \<Rightarrow> (True, ctx, h\<lparr>hc_user_data := d\<rparr> # hs)))"

definition needs_handled :: "HookType \<Rightarrow> bool" where
  "needs_handled t \<longleftrightarrow> t AND HT_MEM_UNMAPPED \<noteq> 0 \<or> t AND HT_MEM_PROT \<noteq> 0
     \<or> t = HT_INTR \<or> t = HT_INSN_INVALID"

definition dispatch_common ::
  "('c, 'd) VCoreHooks \<Rightarrow> 'c \<Rightarrow> HookType \<Rightarrow> HookArgs \<Rightarrow> unit vk_outcome \<times> 'c \<times> ('c, 'd) VCoreHooks" where
  "dispatch_common h ctx t args =
     (let (handled, ctx, h) =
        (case map_of (hooks h) t of
           None \<Rightarrow> (False, ctx, h)
         | Some hs \<Rightarrow>
             (case run_common args ctx hs of
                (handled, ctx, hs) \<Rightarrow> (handled, ctx, h\<lparr>hooks := AList.update t hs (hooks h)\<rparr>)))
      in if needs_handled t \<and> \<not> handled then (Err (HookNotHandled ''event not handled''), ctx, h)
         else (Ok (), ctx, h))"

fun run_addr :: "'c \<Rightarrow> ('c, 'd) HookAddr list \<Rightarrow> 'c \<times> ('c, 'd) HookAddr list" where
  "run_addr ctx [] = (ctx, [])"
| "run_addr ctx (h # hs) =
     (case ha_cb h ctx (ha_user_data h) of
        (ret, ctx, d) \<Rightarrow>
          if blocks ret then (ctx, h\<lparr>ha_user_data := d\<rparr> # hs)
          else (case run_addr ctx hs of (ctx, hs) \<Rightarrow> (ctx, h\<lparr>ha_user_data := d\<rparr> # hs)))"

definition dispatch_addr ::
  "('c, 'd) VCoreHooks \<Rightarrow> 'c \<Rightarrow> u64 \<Rightarrow> unit vk_outcome \<times> 'c \<times> ('c, 'd) VCoreHooks" where
  "dispatch_addr h ctx addr =
     (case map_of (addr_hooks h) addr of
        None \<Rightarrow> (Ok (), ctx, h)
      | Some hs \<Rightarrow>
          (case run_addr ctx hs of
             (ctx, hs) \<Rightarrow> (Ok (), ctx, h\<lparr>addr_hooks := AList.update addr hs (addr_hooks h)\<rparr>)))"

section \<open>Registration\<close>

text \<open>\<open>entry(k).or_default().push(x)\<close>.\<close>

definition push_entry :: "'k \<Rightarrow> 'x \<Rightarrow> ('k \<times> 'x list) list \<Rightarrow> ('k \<times> 'x list) list" where
  "push_entry k x m = AList.update k ((case map_of m k of None \<Rightarrow> [] | Some xs \<Rightarrow> xs) @ [x]) m"

definition hook_code ::
  "'u hook_engine \<Rightarrow> ('c \<Rightarrow> u64 \<Rightarrow> u32 \<Rightarrow> 'd \<Rightarrow> u32 option \<times> 'c \<times> 'd) \<Rightarrow> 'd \<Rightarrow> u64 \<Rightarrow> u64
     \<Rightarrow> ('c, 'd, 'u, HookRet) hook_call" where
  "hook_code E cb ud lo hi st =
     and_then (ensure_code_dispatcher E st) (\<lambda>_ (h, u). let (i, h) = alloc_id h in
       (Ok \<lparr>hr_kind = Common HT_CODE, hr_id = i\<rparr>,
        (h\<lparr>hooks := push_entry HT_CODE \<lparr>hc_id = i, hc_begin = lo, hc_end = hi, hc_user_data = ud,
            hc_cb = (\<lambda>ctx args d. case args of Trace addr sz \<Rightarrow> cb ctx addr sz d | _ \<Rightarrow> (None, ctx, d))\<rparr>
            (hooks h)\<rparr>, u)))"

definition hook_block ::
  "'u hook_engine \<Rightarrow> ('c \<Rightarrow> u64 \<Rightarrow> u32 \<Rightarrow> 'd \<Rightarrow> u32 option \<times> 'c \<times> 'd) \<Rightarrow> 'd \<Rightarrow> u64 \<Rightarrow> u64
     \<Rightarrow> ('c, 'd, 'u, HookRet) hook_call" where
  "hook_block E cb ud lo hi st =
     and_then (ensure_block_dispatcher E st) (\<lambda>_ (h, u). let (i, h) = alloc_id h in
       (Ok \<lparr>hr_kind = Common HT_BLOCK, hr_id = i\<rparr>,
        (h\<lparr>hooks := push_entry HT_BLOCK \<lparr>hc_id = i, hc_begin = lo, hc_end = hi, hc_user_data = ud,
            hc_cb = (\<lambda>ctx args d. case args of Trace addr sz \<Rightarrow> cb ctx addr sz d | _ \<Rightarrow> (None, ctx, d))\<rparr>
            (hooks h)\<rparr>, u)))"

definition hook_intr ::
  "'u hook_engine \<Rightarrow> ('c \<Rightarrow> u32 \<Rightarrow> 'd \<Rightarrow> u32 option \<times> 'c \<times> 'd) \<Rightarrow> 'd
     \<Rightarrow> ('c, 'd, 'u, HookRet) hook_call" where
  "hook_intr E cb ud st =
     and_then (ensure_intr_dispatcher E st) (\<lambda>_ (h, u). let (i, h) = alloc_id h in
       (Ok \<lparr>hr_kind = Common HT_INTR, hr_id = i\<rparr>,
        (h\<lparr>hooks := push_entry HT_INTR \<lparr>hc_id = i, hc_begin = 1, hc_end = 0, hc_user_data = ud,
            hc_cb = (\<lambda>ctx args d. case args of Intr intno \<Rightarrow> cb ctx intno d | _ \<Rightarrow> (None, ctx, d))\<rparr>
            (hooks h)\<rparr>, u)))"

definition hook_insn_invalid ::
  "'u hook_engine \<Rightarrow> ('c \<Rightarrow> 'd \<Rightarrow> u32 option \<times> 'c \<times> 'd) \<Rightarrow> 'd
     \<Rightarrow> ('c, 'd, 'u, HookRet) hook_call" where
  "hook_insn_invalid E cb ud st =
     and_then (ensure_invalid_insn_dispatcher E st) (\<lambda>_ (h, u). let (i, h) = alloc_id h in
       (Ok \<lparr>hr_kind = Common HT_INSN_INVALID, hr_id = i\<rparr>,
        (h\<lparr>hooks := push_entry HT_INSN_INVALID \<lparr>hc_id = i, hc_begin = 1, hc_end = 0, hc_user_data = ud,
            hc_cb = (\<lambda>ctx args d. case args of InvalidInsn \<Rightarrow> cb ctx d | _ \<Rightarrow> (None, ctx, d))\<rparr>
            (hooks h)\<rparr>, u)))"

definition hook_mem ::
  "'u hook_engine \<Rightarrow> HookType \<Rightarrow> ('c \<Rightarrow> MemType \<Rightarrow> u64 \<Rightarrow> u64 \<Rightarrow> i64 \<Rightarrow> 'd \<Rightarrow> u32 option \<times> 'c \<times> 'd)
     \<Rightarrow> 'd \<Rightarrow> u64 \<Rightarrow> u64 \<Rightarrow> ('c, 'd, 'u, HookRet) hook_call" where
  "hook_mem E t cb ud lo hi st =
     and_then (ensure_mem_dispatcher E t st) (\<lambda>_ (h, u). let (i, h) = alloc_id h in
       (Ok \<lparr>hr_kind = Common t, hr_id = i\<rparr>,
        (h\<lparr>hooks := push_entry t \<lparr>hc_id = i, hc_begin = lo, hc_end = hi, hc_user_data = ud,
            hc_cb = (\<lambda>ctx args d. case args of Mem access addr sz v \<Rightarrow> cb ctx access addr sz v d
                                  | _ \<Rightarrow> (None, ctx, d))\<rparr>
            (hooks h)\<rparr>, u)))"

definition hook_address ::
  "'u hook_engine \<Rightarrow> u64 \<Rightarrow> ('c, 'd) AddrCb \<Rightarrow> 'd \<Rightarrow> ('c, 'd, 'u, HookRet) hook_call" where
  "hook_address E address cb ud st =
     and_then (ensure_addr_dispatcher E address st) (\<lambda>_ (h, u). let (i, h) = alloc_id h in
       (Ok \<lparr>hr_kind = Address address, hr_id = i\<rparr>,
        (h\<lparr>addr_hooks := push_entry address
            \<lparr>ha_id = i, ha_addr = address, ha_user_data = ud, ha_cb = cb\<rparr> (addr_hooks h)\<rparr>, u)))"

section \<open>Deletion\<close>

text \<open>Removing the engine's hook of a dispatcher that has no hooks left.\<close>

definition drop_engine_hook :: "'u hook_engine \<Rightarrow> UcHookId option \<Rightarrow> ('c, 'd, 'u, unit) hook_call" where
  "drop_engine_hook E handle st =
     (case (handle, st) of
        (None, _) \<Rightarrow> (Ok (), st)
      | (Some uc_handle, h, u) \<Rightarrow>
          (case uc_remove_hook E uc_handle u of
             (Inl e, u) \<Rightarrow> (Err (UnicornErr e), (h, u))
           | (Inr _, u) \<Rightarrow> (Ok (), (h, u))))"

definition hook_del :: "'u hook_engine \<Rightarrow> HookRet \<Rightarrow> ('c, 'd, 'u, unit) hook_call" where
  "hook_del E r st =
     (case (hr_kind r, st) of
        (Common t, h, u) \<Rightarrow>
          (case map_of (hooks h) t of
             None \<Rightarrow> (Ok (), (h, u))
           | Some hs \<Rightarrow>
               let hs = filter (\<lambda>x. hc_id x \<noteq> hr_id r) hs in
               if hs = []
               then drop_engine_hook E (map_of (hook_fuc h) t)
                      (h\<lparr>hooks := AList.delete t (hooks h), hook_fuc := AList.delete t (hook_fuc h)\<rparr>, u)
               else (Ok (), (h\<lparr>hooks := AList.update t hs (hooks h)\<rparr>, u)))
      | (Address addr, h, u) \<Rightarrow>
          (case map_of (addr_hooks h) addr of
             None \<Rightarrow> (Ok (), (h, u))
           | Some hs \<Rightarrow>
               let hs = filter (\<lambda>x. ha_id x \<noteq> hr_id r) hs in
               if hs = []
               then drop_engine_hook E (map_of (addr_hook_fuc h) addr)
                      (h\<lparr>addr_hooks := AList.delete addr (addr_hooks h),
                         addr_hook_fuc := AList.delete addr (addr_hook_fuc h)\<rparr>, u)
               else (Ok (), (h\<lparr>addr_hooks := AList.update addr hs (addr_hooks h)\<rparr>, u))))"

text \<open>Draining a map: an early return drops the rest of the drain, which empties the map all the same.\<close>

fun drain_hooks :: "'u hook_engine \<Rightarrow> UcHookId list \<Rightarrow> 'u \<Rightarrow> (uc_error + unit) \<times> 'u" where
  "drain_hooks E [] u = (Inr (), u)"
| "drain_hooks E (i # is) u =
     (case uc_remove_hook E i u of
        (Inl e, u) \<Rightarrow> (Inl e, u)
      | (Inr _, u) \<Rightarrow> drain_hooks E is u)"

definition clear_hooks :: "'u hook_engine \<Rightarrow> ('c, 'd, 'u, unit) hook_call" where
  "clear_hooks E st =
     (case st of (h, u) \<Rightarrow>
        (case drain_hooks E (map snd (hook_fuc h)) u of
           (Inl e, u) \<Rightarrow> (Err (UnicornErr e), (h\<lparr>hook_fuc := []\<rparr>, u))
         | (Inr _, u) \<Rightarrow>
             (case drain_hooks E (map snd (addr_hook_fuc h)) u of
                (Inl e, u) \<Rightarrow> (Err (UnicornErr e), (h\<lparr>hook_fuc := [], addr_hook_fuc := []\<rparr>, u))
              | (Inr _, u) \<Rightarrow>
                  (Ok (), (h\<lparr>hook_fuc := [], addr_hook_fuc := [], hooks := [], addr_hooks := []\<rparr>, u)))))"

section \<open>Dispatch\<close>

interpretation maps: keyed_table map_of AList.update AList.delete
  by unfold_locales (simp_all add: update_conv' delete_conv')

fun run_until :: "HookArgs \<Rightarrow> 'c \<Rightarrow> ('c, 'd) HookCommon list \<Rightarrow> 'c" where
  "run_until args ctx [] = ctx"
| "run_until args ctx (h # hs) =
     (case hc_cb h ctx args (hc_user_data h) of
        (ret, ctx, d) \<Rightarrow> if blocks ret then ctx else run_until args ctx hs)"

abbreviation hooks_of :: "('c, 'd) VCoreHooks \<Rightarrow> HookType \<Rightarrow> ('c, 'd) HookCommon list" where
  "hooks_of h t \<equiv> (case map_of (hooks h) t of None \<Rightarrow> [] | Some hs \<Rightarrow> hs)"

abbreviation hook_fixed :: "('c, 'd) HookCommon \<Rightarrow> u64 \<times> u64 \<times> u64 \<times> ('c, 'd) HookCb" where
  "hook_fixed x \<equiv> (hc_id x, hc_begin x, hc_end x, hc_cb x)"

lemma run_common_spec:
  "run_common args ctx hs = (handled, ctx', hs') \<Longrightarrow>
     ctx' = run_until args ctx (filter (in_scope args) hs)
     \<and> (handled \<longleftrightarrow> (\<exists>x \<in> set hs. in_scope args x))
     \<and> map hook_fixed hs' = map hook_fixed hs
     \<and> (\<forall>i < length hs. \<not> in_scope args (hs ! i) \<longrightarrow> hs' ! i = hs ! i)"
proof (induction args ctx hs arbitrary: handled ctx' hs' rule: run_common.induct)
  case (2 args ctx h hs)
  show ?case
  proof (cases "in_scope args h")
    case False
    obtain hd' c' t' where r: "run_common args ctx hs = (hd', c', t')" by (metis prod_cases3)
    with "2.IH"(1) [OF False r] "2.prems" False show ?thesis
      by (auto simp: nth_Cons split: nat.split)
  next
    case True
    obtain ret c d where cb: "hc_cb h ctx args (hc_user_data h) = (ret, c, d)" by (metis prod_cases3)
    show ?thesis
    proof (cases "blocks ret")
      case True
      with "2.prems" \<open>in_scope args h\<close> cb show ?thesis
        by (auto simp: nth_Cons split: nat.split)
    next
      case nb: False
      obtain hd' c' t' where r: "run_common args c hs = (hd', c', t')" by (metis prod_cases3)
      have "\<not> \<not> in_scope args h" using True by simp
      from "2.IH"(2) [OF this cb [symmetric] refl nb r] "2.prems" True cb nb r show ?thesis
        by (auto simp: nth_Cons split: nat.split)
    qed
  qed
qed simp

text \<open>
  C34: an event runs, in the order of their registration, exactly the hooks of its type whose range
  contains the address, up to and including the first that asks to block; it is an error precisely when
  the event has to be handled and no hook was in scope. Only user data of hooks that ran can change.
\<close>

theorem dispatch_common_in_order:
  assumes "dispatch_common h ctx t args = (r, ctx', h')"
  shows "ctx' = run_until args ctx (filter (in_scope args) (hooks_of h t))
    \<and> r = (if needs_handled t \<and> (\<forall>x \<in> set (hooks_of h t). \<not> in_scope args x)
            then Err (HookNotHandled ''event not handled'') else Ok ())
    \<and> map hook_fixed (hooks_of h' t) = map hook_fixed (hooks_of h t)
    \<and> (\<forall>t'. t' \<noteq> t \<longrightarrow> hooks_of h' t' = hooks_of h t')
    \<and> hook_fuc h' = hook_fuc h \<and> addr_hooks h' = addr_hooks h"
proof (cases "map_of (hooks h) t")
  case None
  then show ?thesis
    using assms by (auto simp: dispatch_common_def split: if_splits)
next
  case (Some hs)
  obtain handled c hs' where run: "run_common args ctx hs = (handled, c, hs')"
    by (metis prod_cases3)
  then show ?thesis
    using assms Some run_common_spec [OF run]
    by (auto simp: dispatch_common_def maps.look_put split: if_splits)
qed

theorem dispatch_common_in_order_witness:
  "fst (dispatch_common (hooks_new :: (nat, unit) VCoreHooks) 0 HT_INTR (Intr 128))
    = Err (HookNotHandled ''event not handled'')"
proof -
  obtain r ctx' h' where d: "dispatch_common (hooks_new :: (nat, unit) VCoreHooks) 0 HT_INTR (Intr 128) = (r, ctx', h')"
    by (metis prod_cases3)
  from dispatch_common_in_order [OF this] d show ?thesis
    by (simp add: hooks_new_def needs_handled_def)
qed

section \<open>The registry invariant\<close>

text \<open>
  A table of hooks against its table of dispatchers: they have the same keys, no entry is empty, and
  identifiers are distinct and below the next one.
\<close>

definition table_ok :: "('x \<Rightarrow> u64) \<Rightarrow> u64 \<Rightarrow> ('k \<times> 'x list) list \<Rightarrow> ('k \<times> UcHookId) list \<Rightarrow> bool" where
  "table_ok ident nxt hs fuc \<longleftrightarrow> dom (map_of hs) = dom (map_of fuc)
     \<and> (\<forall>k l. map_of hs k = Some l \<longrightarrow> l \<noteq> [] \<and> distinct (map ident l) \<and> (\<forall>x \<in> set l. ident x < nxt))"

definition registry_ok :: "('c, 'd) VCoreHooks \<Rightarrow> bool" where
  "registry_ok h \<longleftrightarrow> table_ok hc_id (next_id h) (hooks h) (hook_fuc h)
     \<and> table_ok ha_id (next_id h) (addr_hooks h) (addr_hook_fuc h)"

lemma table_ok_new: "table_ok ident n [] []"
  by (simp add: table_ok_def)

lemma registry_ok_new: "registry_ok hooks_new"
  by (simp add: registry_ok_def hooks_new_def table_ok_new)

lemma next_gt:
  assumes "(n :: u64) \<noteq> - 1"
  shows "n < n + 1"
proof -
  have "1 + n \<noteq> 0" using assms by (simp add: add_eq_0_iff)
  from unatSuc [OF this] show ?thesis by (simp add: word_less_nat_alt add.commute)
qed

lemma next_gt_le: "(n :: u64) \<noteq> - 1 \<Longrightarrow> x < n \<Longrightarrow> x < n + 1"
  using next_gt [of n] by (rule order_less_trans [rotated])

lemma table_ok_next: "table_ok ident n hs fuc \<Longrightarrow> n \<noteq> - 1 \<Longrightarrow> table_ok ident (n + 1) hs fuc"
  using next_gt_le [of n] by (auto simp: table_ok_def)

lemma table_ok_push:
  assumes "table_ok ident n hs fuc" "n \<noteq> - 1" "ident x = n"
    and "dom (map_of fuc') = insert k (dom (map_of fuc))"
  shows "table_ok ident (n + 1) (push_entry k x hs) fuc'"
  unfolding table_ok_def
proof (intro conjI allI impI)
  show "dom (map_of (push_entry k x hs)) = dom (map_of fuc')"
    using assms by (simp add: table_ok_def push_entry_def maps.dom_put)
next
  fix j l
  assume l: "map_of (push_entry k x hs) j = Some l"
  show "l \<noteq> []" "distinct (map ident l)" "\<forall>x \<in> set l. ident x < n + 1"
    using l assms(1,3) next_gt [OF assms(2)] next_gt_le [OF assms(2)]
    by (fastforce simp: table_ok_def push_entry_def maps.look_put split: if_splits option.splits)+
qed

lemma table_ok_filter:
  assumes "table_ok ident n hs fuc" "map_of hs k = Some l" "filter f l \<noteq> []"
  shows "table_ok ident n (AList.update k (filter f l) hs) fuc"
  using assms
  by (auto simp: table_ok_def maps.look_put maps.dom_put distinct_map_filter split: if_splits)

lemma table_ok_delete:
  "table_ok ident n hs fuc \<Longrightarrow> table_ok ident n (AList.delete k hs) (AList.delete k fuc)"
  by (auto simp: table_ok_def maps.look_del maps.dom_del split: if_splits)

lemma ensure_dispatcher_spec:
  assumes "ensure_dispatcher E t (h, u) = (r, h', u')"
  shows "next_id h' = next_id h \<and> hooks h' = hooks h \<and> addr_hooks h' = addr_hooks h
    \<and> addr_hook_fuc h' = addr_hook_fuc h
    \<and> (if r = Ok () then dom (map_of (hook_fuc h')) = insert t (dom (map_of (hook_fuc h))) else h' = h)
    \<and> (r = Ok () \<or> (\<exists>e. r = Err e))"
  using assms
  by (auto simp: ensure_dispatcher_def maps.look_put split: if_splits prod.splits sum.splits)

lemma ensure_addr_dispatcher_spec:
  assumes "ensure_addr_dispatcher E a (h, u) = (r, h', u')"
  shows "next_id h' = next_id h \<and> hooks h' = hooks h \<and> addr_hooks h' = addr_hooks h
    \<and> hook_fuc h' = hook_fuc h
    \<and> (if r = Ok () then dom (map_of (addr_hook_fuc h')) = insert a (dom (map_of (addr_hook_fuc h))) else h' = h)
    \<and> (r = Ok () \<or> (\<exists>e. r = Err e))"
  using assms
  by (auto simp: ensure_addr_dispatcher_def maps.look_put split: if_splits prod.splits sum.splits)

text \<open>The tail of every registration under a hook type, and of one at an address.\<close>

definition register_common ::
  "'u hook_engine \<Rightarrow> HookType \<Rightarrow> (u64 \<Rightarrow> ('c, 'd) HookCommon) \<Rightarrow> ('c, 'd, 'u, HookRet) hook_call" where
  "register_common E t x st =
     and_then (ensure_dispatcher E t st) (\<lambda>_ (h, u). let (i, h) = alloc_id h in
       (Ok \<lparr>hr_kind = Common t, hr_id = i\<rparr>, (h\<lparr>hooks := push_entry t (x i) (hooks h)\<rparr>, u)))"

lemma register_common_spec:
  assumes "register_common E t x (h, u) = (r, h', u')"
  shows "(\<exists>e. r = Err e) \<and> h' = h
    \<or> r = Ok \<lparr>hr_kind = Common t, hr_id = next_id h\<rparr>
      \<and> next_id h' = next_id h + 1 \<and> hooks h' = push_entry t (x (next_id h)) (hooks h)
      \<and> dom (map_of (hook_fuc h')) = insert t (dom (map_of (hook_fuc h)))
      \<and> addr_hooks h' = addr_hooks h \<and> addr_hook_fuc h' = addr_hook_fuc h"
proof -
  obtain r0 h0 u0 where e: "ensure_dispatcher E t (h, u) = (r0, h0, u0)" by (metis prod_cases3)
  from ensure_dispatcher_spec [OF e] e assms show ?thesis
    by (cases r0) (simp_all add: register_common_def alloc_id_def, (elim conjE, hypsubst, simp)+)
qed

lemma register_common_keeps:
  assumes "registry_ok h" "next_id h \<noteq> - 1" "\<And>i. hc_id (x i) = i"
  shows "registry_ok (fst (snd (register_common E t x (h, u))))"
proof -
  obtain r h' u' where c: "register_common E t x (h, u) = (r, h', u')" by (metis prod_cases3)
  from register_common_spec [OF this] show ?thesis
    using assms c by (auto simp: registry_ok_def table_ok_push table_ok_next)
qed

lemma hook_code_eq: "hook_code E cb ud lo hi = register_common E HT_CODE (\<lambda>i. \<lparr>hc_id = i, hc_begin = lo,
    hc_end = hi, hc_user_data = ud,
    hc_cb = (\<lambda>ctx args d. case args of Trace addr sz \<Rightarrow> cb ctx addr sz d | _ \<Rightarrow> (None, ctx, d))\<rparr>)"
  by (rule ext) (simp add: hook_code_def register_common_def ensure_code_dispatcher_def)

lemma hook_block_eq: "hook_block E cb ud lo hi = register_common E HT_BLOCK (\<lambda>i. \<lparr>hc_id = i, hc_begin = lo,
    hc_end = hi, hc_user_data = ud,
    hc_cb = (\<lambda>ctx args d. case args of Trace addr sz \<Rightarrow> cb ctx addr sz d | _ \<Rightarrow> (None, ctx, d))\<rparr>)"
  by (rule ext) (simp add: hook_block_def register_common_def ensure_block_dispatcher_def)

lemma hook_intr_eq: "hook_intr E icb ud = register_common E HT_INTR (\<lambda>i. \<lparr>hc_id = i, hc_begin = 1,
    hc_end = 0, hc_user_data = ud,
    hc_cb = (\<lambda>ctx args d. case args of Intr intno \<Rightarrow> icb ctx intno d | _ \<Rightarrow> (None, ctx, d))\<rparr>)"
  by (rule ext) (simp add: hook_intr_def register_common_def ensure_intr_dispatcher_def)

lemma hook_insn_invalid_eq: "hook_insn_invalid E ncb ud = register_common E HT_INSN_INVALID (\<lambda>i. \<lparr>hc_id = i,
    hc_begin = 1, hc_end = 0, hc_user_data = ud,
    hc_cb = (\<lambda>ctx args d. case args of InvalidInsn \<Rightarrow> ncb ctx d | _ \<Rightarrow> (None, ctx, d))\<rparr>)"
  by (rule ext) (simp add: hook_insn_invalid_def register_common_def ensure_invalid_insn_dispatcher_def)

lemma hook_mem_eq: "hook_mem E t mcb ud lo hi = register_common E t (\<lambda>i. \<lparr>hc_id = i, hc_begin = lo,
    hc_end = hi, hc_user_data = ud,
    hc_cb = (\<lambda>ctx args d. case args of Mem access addr sz v \<Rightarrow> mcb ctx access addr sz v d
                                  | _ \<Rightarrow> (None, ctx, d))\<rparr>)"
  by (rule ext) (simp add: hook_mem_def register_common_def ensure_mem_dispatcher_def)

lemmas register_eqs = hook_code_eq hook_block_eq hook_intr_eq hook_insn_invalid_eq hook_mem_eq

lemma hook_address_keeps:
  assumes "registry_ok h" "next_id h \<noteq> - 1"
  shows "registry_ok (fst (snd (hook_address E a cb ud (h, u))))"
proof -
  obtain r0 h0 u0 where e: "ensure_addr_dispatcher E a (h, u) = (r0, h0, u0)" by (metis prod_cases3)
  from ensure_addr_dispatcher_spec [OF e] e assms show ?thesis
    by (cases r0) (auto simp: hook_address_def alloc_id_def registry_ok_def table_ok_push table_ok_next)
qed

lemma drop_engine_hook_keeps [simp]: "fst (snd (drop_engine_hook E i (h, u))) = h"
  by (simp add: drop_engine_hook_def split: option.split prod.split sum.split)

lemma hook_del_keeps:
  assumes "registry_ok h"
  shows "registry_ok (fst (snd (hook_del E r (h, u))))"
proof (cases "hr_kind r")
  case (Common t)
  then show ?thesis
    using assms by (auto simp: hook_del_def registry_ok_def table_ok_delete table_ok_filter Let_def split: option.split)
next
  case (Address a)
  then show ?thesis
    using assms by (auto simp: hook_del_def registry_ok_def table_ok_delete table_ok_filter Let_def split: option.split)
qed

lemma table_ok_same_ids:
  assumes "table_ok ident n hs fuc" "map_of hs k = Some l" "map ident l' = map ident l"
  shows "table_ok ident n (AList.update k l' hs) fuc"
proof -
  have "ident ` set l' = ident ` set l" using arg_cong [OF assms(3), of set] by simp
  moreover have "l \<noteq> [] \<longrightarrow> l' \<noteq> []" using assms(3) by (cases l) auto
  moreover have "\<forall>i \<in> ident ` set l. i < n" "l \<noteq> []" "distinct (map ident l)"
    using assms(1,2) by (auto simp: table_ok_def)
  ultimately have new: "l' \<noteq> [] \<and> distinct (map ident l') \<and> (\<forall>x \<in> set l'. ident x < n)"
    unfolding assms(3) [symmetric] by (metis image_eqI)
  show ?thesis
    using assms(1,2) new by (auto simp: table_ok_def maps.look_put maps.dom_put split: if_splits)
qed

lemma dispatch_common_keeps:
  assumes "registry_ok h"
  shows "registry_ok (snd (snd (dispatch_common h ctx t args)))"
proof (cases "map_of (hooks h) t")
  case None
  then show ?thesis using assms by (simp add: dispatch_common_def)
next
  case (Some hs)
  obtain handled c hs' where run: "run_common args ctx hs = (handled, c, hs')" by (metis prod_cases3)
  from run_common_spec [OF run] have "map fst (map hook_fixed hs') = map fst (map hook_fixed hs)" by simp
  then have "map hc_id hs' = map hc_id hs" by (simp add: comp_def)
  then show ?thesis
    using assms Some run by (auto simp: dispatch_common_def registry_ok_def table_ok_same_ids)
qed

lemma run_addr_ids: "map ha_id (snd (run_addr ctx hs)) = map ha_id hs"
  by (induction ctx hs rule: run_addr.induct) (auto split: prod.split)

lemma dispatch_addr_keeps:
  assumes "registry_ok h"
  shows "registry_ok (snd (snd (dispatch_addr h ctx a)))"
  using assms
  by (auto simp: dispatch_addr_def registry_ok_def split: option.split prod.split
      intro!: table_ok_same_ids) (metis run_addr_ids snd_conv)

lemma clear_hooks_Ok: "clear_hooks E (h, u) = (Ok (), h', u') \<Longrightarrow> registry_ok h'"
  by (auto simp: clear_hooks_def registry_ok_def table_ok_def split: sum.splits prod.splits)

text \<open>
  C35: registering, dispatching and deleting keep the registry's invariant, whether the engine agrees or
  refuses: the engine has a dispatcher exactly for the hook types and addresses that have hooks, and identifiers
  within an entry are distinct and already allocated. A \<open>clear_hooks\<close> that succeeds keeps it too; one that the
  engine refuses does not (\<open>clear_hooks_refused\<close> below). Registration needs an identifier left, which
  2^64 - 2 registrations leave.
\<close>

theorem hooks_keep_registry:
  assumes "registry_ok h" "next_id h \<noteq> - 1"
  shows "registry_ok (fst (snd (hook_code E cb ud lo hi (h, u))))
    \<and> registry_ok (fst (snd (hook_block E cb ud lo hi (h, u))))
    \<and> registry_ok (fst (snd (hook_intr E icb ud (h, u))))
    \<and> registry_ok (fst (snd (hook_insn_invalid E ncb ud (h, u))))
    \<and> registry_ok (fst (snd (hook_mem E t mcb ud lo hi (h, u))))
    \<and> registry_ok (fst (snd (hook_address E a acb ud (h, u))))
    \<and> registry_ok (fst (snd (hook_del E r (h, u))))
    \<and> registry_ok (snd (snd (dispatch_common h ctx t args)))
    \<and> registry_ok (snd (snd (dispatch_addr h ctx a)))
    \<and> (fst (clear_hooks E (h, u)) = Ok () \<longrightarrow> registry_ok (fst (snd (clear_hooks E (h, u)))))"
proof -
  have "fst (clear_hooks E (h, u)) = Ok () \<longrightarrow> registry_ok (fst (snd (clear_hooks E (h, u))))"
    by (cases "clear_hooks E (h, u)") (auto intro: clear_hooks_Ok)
  with assms show ?thesis
    by (simp add: register_eqs register_common_keeps hook_address_keeps hook_del_keeps
        dispatch_common_keeps dispatch_addr_keeps)
qed

theorem hooks_keep_registry_witness:
  "registry_ok (fst (snd (hook_address \<lparr>uc_add_hook = \<lambda>_ _ _ u. (Inr 7, u), uc_remove_hook = \<lambda>_ u. (Inr (), u)\<rparr>
     0x401000 (\<lambda>ctx d. (None, ctx + 1, d)) () (hooks_new :: (nat, unit) VCoreHooks, ()))))"
  by (rule hooks_keep_registry [THEN conjunct2, THEN conjunct2, THEN conjunct2, THEN conjunct2,
      THEN conjunct2, THEN conjunct1, OF registry_ok_new]) (simp add: hooks_new_def)

section \<open>Deleting and clearing\<close>

lemma filter_new:
  "table_ok hc_id n hs fuc \<Longrightarrow> map_of hs t = Some l \<Longrightarrow> filter (\<lambda>x. hc_id x \<noteq> n) l = l"
  by (auto simp: table_ok_def intro!: filter_True)

lemma register_then_del:
  assumes reg: "register_common E t x (h, u) = (Ok r, h1, u1)" and inv: "registry_ok h"
    and id: "\<And>i. hc_id (x i) = i"
    and del: "hook_del E r (h1, u1) = (Ok (), h2, u2)"
  shows "map_of (hooks h2) = map_of (hooks h)
    \<and> dom (map_of (hook_fuc h2)) = dom (map_of (hook_fuc h))"
proof -
  note s = register_common_spec [OF reg, simplified]
  have tab: "table_ok hc_id (next_id h) (hooks h) (hook_fuc h)"
    and keys: "dom (map_of (hooks h)) = dom (map_of (hook_fuc h))"
    using inv by (simp_all add: registry_ok_def table_ok_def)
  show ?thesis
  proof (cases "map_of (hooks h) t")
    case None
    then have "t \<notin> dom (map_of (hook_fuc h))" by (simp add: keys [symmetric] domIff)
    moreover have "h2 = h1\<lparr>hooks := AList.delete t (hooks h1), hook_fuc := AList.delete t (hook_fuc h1)\<rparr>"
      using s del None id
      by (auto simp: hook_del_def push_entry_def maps.look_put drop_engine_hook_def
          split: option.splits prod.splits sum.splits)
    ultimately show ?thesis
      using s None by (simp add: push_entry_def maps.dom_del maps.del_put)
  next
    case (Some l)
    then have "t \<in> dom (map_of (hook_fuc h))" "l \<noteq> []"
      using tab by (auto simp: keys [symmetric] domIff table_ok_def)
    moreover have "h2 = h1\<lparr>hooks := AList.update t l (hooks h1)\<rparr>"
      using s del Some id filter_new [OF tab Some] \<open>l \<noteq> []\<close>
      by (simp add: hook_del_def push_entry_def maps.look_put Let_def)
    ultimately show ?thesis
      using s Some by (simp add: push_entry_def maps.put_put maps.put_back insert_absorb)
  qed
qed

text \<open>
  Deleting a code hook right after its registration gives back the registry it was added to: the
  hooks of every type, in their order, and the set of installed dispatchers.
\<close>

theorem hook_del_undoes_hook_code:
  assumes "hook_code E cb ud lo hi (h, u) = (Ok r, h1, u1)" "registry_ok h"
    and "hook_del E r (h1, u1) = (Ok (), h2, u2)"
  shows "map_of (hooks h2) = map_of (hooks h)
    \<and> dom (map_of (hook_fuc h2)) = dom (map_of (hook_fuc h))"
  using assms(1) [unfolded hook_code_eq] assms(2) _ assms(3) by (rule register_then_del) simp

theorem hook_del_undoes_hook_code_witness:
  "\<exists>r h1 u1 h2 u2. hook_code \<lparr>uc_add_hook = \<lambda>_ _ _ u. (Inr u, u + 1), uc_remove_hook = \<lambda>_ u. (Inr (), u)\<rparr>
     (\<lambda>ctx addr sz d. (None, ctx + (1::nat), d)) () 1 0 (hooks_new, 0) = (Ok r, h1, u1)
   \<and> hook_del \<lparr>uc_add_hook = \<lambda>_ _ _ u. (Inr u, u + 1), uc_remove_hook = \<lambda>_ u. (Inr (), u)\<rparr> r (h1, u1) = (Ok (), h2, u2)
   \<and> map_of (hooks h2) = Map.empty"
proof -
  let ?E = "\<lparr>uc_add_hook = \<lambda>_ _ _ u. (Inr u, u + 1), uc_remove_hook = \<lambda>_ u. (Inr (), u)\<rparr> :: nat hook_engine"
  let ?cb = "\<lambda>ctx addr sz d. (None, ctx + (1::nat), d) :: u32 option \<times> nat \<times> unit"
  obtain r h1 u1 where a: "hook_code ?E ?cb () 1 0 (hooks_new, 0) = (Ok r, h1, u1)"
    by (simp add: hook_code_eq register_common_def ensure_dispatcher_def alloc_id_def hooks_new_def)
  obtain h2 u2 where d: "hook_del ?E r (h1, u1) = (Ok (), h2, u2)"
    using a by (auto simp: hook_code_eq register_common_def ensure_dispatcher_def alloc_id_def hooks_new_def
        hook_del_def drop_engine_hook_def push_entry_def)
  from hook_del_undoes_hook_code [OF a _ d] a d show ?thesis
    by (auto simp: registry_ok_def hooks_new_def table_ok_new)
qed

text \<open>
  A removal the engine refuses makes \<open>clear_hooks\<close> return early with every hook still listed but no
  dispatcher recorded, so the invariant of the registry is lost when some hook type had hooks.
\<close>

theorem clear_hooks_refused:
  assumes "clear_hooks E (h, u) = (Err e, h', u')"
  shows "hooks h' = hooks h \<and> addr_hooks h' = addr_hooks h \<and> hook_fuc h' = []
    \<and> (hooks h \<noteq> [] \<longrightarrow> \<not> registry_ok h')"
  using assms
  by (auto simp: clear_hooks_def registry_ok_def table_ok_def split: sum.splits prod.splits)

theorem clear_hooks_refused_witness:
  "\<exists>h' u'. clear_hooks \<lparr>uc_add_hook = \<lambda>_ _ _ u. (Inr 0, u), uc_remove_hook = \<lambda>_ u. (Inl 1, u)\<rparr>
     (hooks_new\<lparr>hooks := [(HT_CODE, [\<lparr>hc_id = 0, hc_begin = 1, hc_end = 0, hc_user_data = (),
       hc_cb = (\<lambda>ctx args d. (None, ctx :: nat, d))\<rparr>])], hook_fuc := [(HT_CODE, 0)]\<rparr>, ()) = (Err (UnicornErr 1), h', u')
   \<and> \<not> registry_ok h'"
proof -
  let ?h = "hooks_new\<lparr>hooks := [(HT_CODE, [\<lparr>hc_id = 0, hc_begin = 1, hc_end = 0, hc_user_data = (),
       hc_cb = (\<lambda>ctx args d. (None, ctx :: nat, d))\<rparr>])], hook_fuc := [(HT_CODE, 0)]\<rparr>"
  let ?E = "\<lparr>uc_add_hook = \<lambda>_ _ _ u. (Inr 0, u), uc_remove_hook = \<lambda>_ u. (Inl 1, u)\<rparr> :: unit hook_engine"
  obtain h' u' where c: "clear_hooks ?E (?h, ()) = (Err (UnicornErr 1), h', u')"
    by (simp add: clear_hooks_def hooks_new_def)
  from clear_hooks_refused [OF this] c show ?thesis by auto
qed

end
