(* ===== verification/Vk_SysThread.thy ===== *)
theory Vk_SysThread
  imports Vk_SysProcess
begin

text \<open>
  The thread system calls of \<open>src/src/os/syscall/thread.rs\<close> and the access to the global descriptor
  table of \<open>src/src/os/linux.rs\<close> they use (\<open>x86_gdt_entry_addr\<close>, \<open>x86_write_gdt_entry\<close>).
\<close>

section \<open>The descriptor table\<close>

definition X86_GDT_ENTRY_TLS_MIN :: u32 where "X86_GDT_ENTRY_TLS_MIN = 6"
definition X86_GDT_ENTRY_TLS_ENTRIES :: u32 where "X86_GDT_ENTRY_TLS_ENTRIES = 3"
definition X86_GDT_ENTRY_TLS_MAX :: u32 where
  "X86_GDT_ENTRY_TLS_MAX = X86_GDT_ENTRY_TLS_MIN + X86_GDT_ENTRY_TLS_ENTRIES - 1"

lemmas tls_range_defs =
  X86_GDT_ENTRY_TLS_MIN_def X86_GDT_ENTRY_TLS_ENTRIES_def X86_GDT_ENTRY_TLS_MAX_def

definition x86_gdt_addr :: "('u, 'h) Valkyrie \<Rightarrow> u64" where
  "x86_gdt_addr vk = tls_addr_start (vmem vk)"

definition x86_gdt_entry_addr :: "('u, 'h) Valkyrie \<Rightarrow> u32 \<Rightarrow> u64" where
  "x86_gdt_entry_addr vk entry_number = x86_gdt_addr vk + ucast entry_number * 8"

definition x86_write_gdt_entry :: "('u, 'h) platform \<Rightarrow> u32 \<Rightarrow> bytes \<Rightarrow> ('u, 'h, unit) vk_call" where
  "x86_write_gdt_entry P entry_number descriptor vk =
     mem_write P (x86_gdt_entry_addr vk entry_number) descriptor vk"

text \<open>The eight bytes of a segment descriptor.\<close>

definition gdt_desc :: "u32 \<Rightarrow> u32 \<Rightarrow> u8 \<Rightarrow> u8 \<Rightarrow> bytes" where
  "gdt_desc base limit access flags =
     [ucast (limit AND 0xff),
      ucast (drop_bit 8 limit AND 0xff),
      ucast (base AND 0xff),
      ucast (drop_bit 8 base AND 0xff),
      ucast (drop_bit 16 base AND 0xff),
      access,
      ucast (drop_bit 16 limit AND 0x0f) OR push_bit 4 (flags AND 0x0f),
      ucast (drop_bit 24 base AND 0xff)]"

lemma length_gdt_desc: "length (gdt_desc base limit access flags) = 8"
  by (simp add: gdt_desc_def)

section \<open>The guest's \<open>user_desc\<close>\<close>

record UserDesc =
  ud_entry_number :: u32
  ud_base_addr :: u32
  ud_limit :: u32
  ud_flags :: u32

definition user_desc_from_guest :: "('u, 'h) platform \<Rightarrow> u64 \<Rightarrow> ('u, 'h, UserDesc) vk_call" where
  "user_desc_from_guest P addr vk =
     and_then (mem_read P addr 16 vk)
       (\<lambda>bs vk. (Ok \<lparr>ud_entry_number = from_le (take 4 bs), ud_base_addr = from_le (take 4 (drop 4 bs)),
          ud_limit = from_le (take 4 (drop 8 bs)), ud_flags = from_le (take 4 (drop 12 bs))\<rparr>, vk))"

definition write_back_entry_number :: "('u, 'h) platform \<Rightarrow> UserDesc \<Rightarrow> u64 \<Rightarrow> ('u, 'h, unit) vk_call" where
  "write_back_entry_number P d addr vk = mem_write P addr (to_le_bytes (ud_entry_number d)) vk"

definition seg_32bit :: "UserDesc \<Rightarrow> bool" where
  "seg_32bit d \<longleftrightarrow> ud_flags d AND 0x1 \<noteq> 0"

definition contents :: "UserDesc \<Rightarrow> u32" where
  "contents d = drop_bit 1 (ud_flags d) AND 0x3"

definition read_exec_only :: "UserDesc \<Rightarrow> bool" where
  "read_exec_only d \<longleftrightarrow> drop_bit 3 (ud_flags d) AND 0x1 \<noteq> 0"

definition limit_in_pages :: "UserDesc \<Rightarrow> bool" where
  "limit_in_pages d \<longleftrightarrow> drop_bit 4 (ud_flags d) AND 0x1 \<noteq> 0"

definition seg_not_present :: "UserDesc \<Rightarrow> bool" where
  "seg_not_present d \<longleftrightarrow> drop_bit 5 (ud_flags d) AND 0x1 \<noteq> 0"

definition useable :: "UserDesc \<Rightarrow> bool" where
  "useable d \<longleftrightarrow> drop_bit 6 (ud_flags d) AND 0x1 \<noteq> 0"

definition user_desc_is_empty :: "UserDesc \<Rightarrow> bool" where
  "user_desc_is_empty d \<longleftrightarrow> ud_base_addr d = 0 \<and> ud_limit d = 0 \<and> \<not> seg_32bit d \<and> contents d = 0
     \<and> read_exec_only d \<and> \<not> limit_in_pages d \<and> seg_not_present d \<and> \<not> useable d"

definition user_desc_access_byte :: "UserDesc \<Rightarrow> u8 option" where
  "user_desc_access_byte d =
     (let present = (if seg_not_present d then 0 else 0x80) in
      if contents d = 0 then Some (present OR 0x60 OR 0x10 OR (if read_exec_only d then 0x0 else 0x2))
      else if contents d = 1 then Some (present OR 0x60 OR 0x10 OR (if read_exec_only d then 0x4 else 0x6))
      else if contents d = 2 then Some (present OR 0x60 OR 0x10 OR (if read_exec_only d then 0x8 else 0xA))
      else None)"

definition user_desc_flags :: "UserDesc \<Rightarrow> u8" where
  "user_desc_flags d =
     (if useable d then 0x1 else 0) OR (if seg_32bit d then 0x4 else 0)
       OR (if limit_in_pages d then 0x8 else 0)"

text \<open>The loop over the thread-local entries.\<close>

fun find_free_from :: "('u, 'h) platform \<Rightarrow> u32 list \<Rightarrow> ('u, 'h, u32 option) vk_call" where
  "find_free_from P [] vk = (Ok None, vk)"
| "find_free_from P (n # ns) vk =
     and_then (mem_read P (x86_gdt_entry_addr vk n) 8 vk)
       (\<lambda>d vk. if list_all (\<lambda>b. b = 0) d then (Ok (Some n), vk) else find_free_from P ns vk)"

definition find_free_tls_entry :: "('u, 'h) platform \<Rightarrow> ('u, 'h, u32 option) vk_call" where
  "find_free_tls_entry P =
     find_free_from P (map of_nat [unat X86_GDT_ENTRY_TLS_MIN ..< Suc (unat X86_GDT_ENTRY_TLS_MAX)])"

section \<open>The handlers\<close>

definition current_tid :: "('u, 'h) platform \<Rightarrow> ('u, 'h) Valkyrie \<Rightarrow> u64" where
  "current_tid P vk = (let tid = libc_gettid P (host vk) in if sint tid < 0 then 0 else tid)"

definition sys_gettid :: "('u, 'h) platform \<Rightarrow> ('u, 'h) sys_fn" where
  "sys_gettid P sctx vk = (Ok (current_tid P vk), vk)"

definition sys_set_tid_address :: "('u, 'h) platform \<Rightarrow> ('u, 'h) sys_fn" where
  "sys_set_tid_address P sctx vk =
     (let tid_ptr = arg0 sctx; tid = (ucast (current_tid P vk) :: u32) in
      and_then (if tid_ptr \<noteq> 0 then mem_write P tid_ptr (to_le_bytes tid) vk else (Ok (), vk))
        (\<lambda>_ vk. (Ok (ucast tid), vk)))"

definition sys_set_robust_list :: "('u, 'h) sys_fn" where
  "sys_set_robust_list sctx vk = (Ok 0, vk)"

definition sys_get_robust_list :: "('u, 'h) platform \<Rightarrow> ('u, 'h) sys_fn" where
  "sys_get_robust_list P sctx vk =
     (let head_ptr = arg1 sctx; len_ptr = arg2 sctx; zero = replicate (ptr_width vk) 0 in
      and_then (if head_ptr \<noteq> 0 then mem_write P head_ptr zero vk else (Ok (), vk))
        (\<lambda>_ vk. and_then (if len_ptr \<noteq> 0 then mem_write P len_ptr zero vk else (Ok (), vk))
          (\<lambda>_ vk. (Ok 0, vk))))"

definition sys_rseq :: "('u, 'h) sys_fn" where
  "sys_rseq sctx vk = (Ok (neg_errno ENOSYS), vk)"

definition sys_set_thread_area :: "('u, 'h) platform \<Rightarrow> ('u, 'h) sys_fn" where
  "sys_set_thread_area P sctx vk =
     (if c_arch (cfg vk) \<noteq> X86 then (Ok (neg_errno ENOSYS), vk)
      else let user_desc_addr = arg0 sctx in
      if user_desc_addr = 0 then (Ok (neg_errno EFAULT), vk)
      else and_then (user_desc_from_guest P user_desc_addr vk) (\<lambda>desc vk.
        if ud_limit desc > 0x000fffff then (Ok (neg_errno EINVAL), vk)
        else and_then
          (if ud_entry_number desc = 0xffffffff then find_free_tls_entry P vk
           else (Ok (Some (ud_entry_number desc)), vk))
          (\<lambda>found vk. case found of
             None \<Rightarrow> (Ok (neg_errno ESRCH), vk)
           | Some entry_number \<Rightarrow>
               if \<not> (X86_GDT_ENTRY_TLS_MIN \<le> entry_number \<and> entry_number \<le> X86_GDT_ENTRY_TLS_MAX)
               then (Ok (neg_errno EINVAL), vk)
               else if contents desc = 3 then (Ok (neg_errno EINVAL), vk)
               else let desc = desc\<lparr>ud_entry_number := entry_number\<rparr> in
               and_then (write_back_entry_number P desc user_desc_addr vk) (\<lambda>_ vk.
                 if user_desc_is_empty desc
                 then and_then (x86_write_gdt_entry P entry_number (replicate 8 0) vk)
                   (\<lambda>_ vk. (Ok 0, vk))
                 else case user_desc_access_byte desc of
                   None \<Rightarrow> (Ok (neg_errno EINVAL), vk)
                 | Some access \<Rightarrow>
                     and_then (x86_write_gdt_entry P entry_number
                         (gdt_desc (ud_base_addr desc) (ud_limit desc) access (user_desc_flags desc)) vk)
                       (\<lambda>_ vk. (Ok 0, vk))))))"

section \<open>Frames\<close>

lemma user_desc_frame [map_frame]:
  "keeps_map view v0 vk \<Longrightarrow> keeps_map view v0 (snd (user_desc_from_guest P a vk))"
  by (auto simp: user_desc_from_guest_def intro!: map_frame)

lemma write_back_frame [map_frame]:
  "engine_maps P view \<Longrightarrow> keeps_map view v0 vk \<Longrightarrow> keeps_map view v0 (snd (write_back_entry_number P d a vk))"
  by (simp add: write_back_entry_number_def mem_write_frame)

lemma write_gdt_frame [map_frame]:
  "engine_maps P view \<Longrightarrow> keeps_map view v0 vk \<Longrightarrow> keeps_map view v0 (snd (x86_write_gdt_entry P n d vk))"
  by (simp add: x86_write_gdt_entry_def mem_write_frame)

lemma find_free_frame [map_frame]:
  "keeps_map view v0 vk \<Longrightarrow> keeps_map view v0 (snd (find_free_from P ns vk))"
  by (induction P ns vk rule: find_free_from.induct) (auto intro!: map_frame)

lemma sys_thread_frame [map_frame]:
  assumes "engine_maps P view"
  shows "keeps_map view vk (snd (sys_gettid P s vk))" "keeps_map view vk (snd (sys_rseq s vk))"
    "keeps_map view vk (snd (sys_set_robust_list s vk))"
    "keeps_map view vk (snd (sys_get_robust_list P s vk))"
    "keeps_map view vk (snd (sys_set_tid_address P s vk))"
  using assms
  by (auto simp: sys_gettid_def sys_rseq_def sys_set_robust_list_def sys_get_robust_list_def
      sys_set_tid_address_def Let_def intro!: map_frame)

lemma sys_set_thread_area_frame [map_frame]:
  assumes "engine_maps P view"
  shows "keeps_map view vk (snd (sys_set_thread_area P s vk))"
  using assms
  by (auto simp: sys_set_thread_area_def find_free_tls_entry_def Let_def split: option.split
      intro!: map_frame)

section \<open>Behaviour\<close>

text \<open>The fields of a descriptor as the processor reads them.\<close>

definition desc_base :: "bytes \<Rightarrow> u32" where
  "desc_base d = from_le [d ! 2, d ! 3, d ! 4, d ! 7]"

definition desc_limit :: "bytes \<Rightarrow> u32" where
  "desc_limit d = from_le [d ! 0, d ! 1, d ! 6 AND 0x0f]"

definition desc_flags :: "bytes \<Rightarrow> u8" where
  "desc_flags d = drop_bit 4 (d ! 6)"

lemma low_masks: "(0xff :: u32) = mask 8" "(0x0f :: u32) = mask 4" "(0x0f :: u8) = mask 4"
  by (simp_all add: mask_eq_exp_minus_1)

text \<open>
  The descriptor built for a segment decodes to its base address, to the low 20 bits of its
  limit, to its access byte and to the low four of its flags.
\<close>

theorem gdt_desc_decodes:
  "length (gdt_desc base limit access flags) = 8
    \<and> desc_base (gdt_desc base limit access flags) = base
    \<and> desc_limit (gdt_desc base limit access flags) = take_bit 20 limit
    \<and> gdt_desc base limit access flags ! 5 = access
    \<and> desc_flags (gdt_desc base limit access flags) = take_bit 4 flags"
proof -
  have low: "(ucast (x AND 0xff) :: u8) = ucast x" for x :: u32
    unfolding low_masks by (rule bit_word_eqI) (auto simp: bit_simps)
  have "[ucast base, ucast (drop_bit 8 base), ucast (drop_bit 16 base), ucast (drop_bit 24 base)]
      = to_le_bytes base"
    by (simp add: to_le_bytes_def le_bytes_def upt_rec)
  then have base: "desc_base (gdt_desc base limit access flags) = base"
    by (simp add: desc_base_def gdt_desc_def low le32.dec_enc)
  have cut: "(ucast limit :: u8) = ucast (take_bit 20 limit)"
    "(ucast (drop_bit 8 limit) :: u8) = ucast (drop_bit 8 (take_bit 20 limit))"
    "((ucast (drop_bit 16 limit AND 0x0f) OR push_bit 4 (flags AND 0x0f)) AND 0x0f :: u8)
      = ucast (drop_bit 16 (take_bit 20 limit))"
    unfolding low_masks by (rule bit_word_eqI, force simp: bit_simps)+
  have "[ucast limit, ucast (drop_bit 8 limit),
      (ucast (drop_bit 16 limit AND 0x0f) OR push_bit 4 (flags AND 0x0f)) AND 0x0f]
      = le_bytes 3 (take_bit 20 limit)"
    unfolding cut by (simp add: le_bytes_def upt_rec)
  then have limit: "desc_limit (gdt_desc base limit access flags) = take_bit 20 limit"
    by (simp add: desc_limit_def gdt_desc_def low from_le_le_bytes min_def)
  have "desc_flags (gdt_desc base limit access flags) = take_bit 4 flags"
    unfolding desc_flags_def gdt_desc_def low_masks by (rule bit_word_eqI) (auto simp: bit_simps)
  with base limit show ?thesis
    by (simp add: gdt_desc_def)
qed

lemma find_free_Some:
  assumes "engine_bytes P content" and "find_free_from P ns vk = (Ok (Some n), vk')"
  shows "vk' = vk \<and> (\<exists>before after. ns = before @ n # after
    \<and> guest_bytes content (x86_gdt_entry_addr vk n) 8 vk = replicate 8 0
    \<and> (\<forall>m \<in> set before. guest_bytes content (x86_gdt_entry_addr vk m) 8 vk \<noteq> replicate 8 0))"
  using assms(2)
proof (induction ns)
  case (Cons m ns)
  obtain d where rd: "mem_read P (x86_gdt_entry_addr vk m) 8 vk = (Ok d, vk)"
    using Cons.prems mem_read_same_state [of P "x86_gdt_entry_addr vk m" 8 vk]
    by (auto simp: outcome_elim)
  have d: "d = guest_bytes content (x86_gdt_entry_addr vk m) 8 vk"
    using mem_read_Ok [OF assms(1) rd] by simp
  have zero: "list_all (\<lambda>b. b = 0) d \<longleftrightarrow> d = replicate 8 0"
    unfolding d by (auto simp: list_all_iff intro!: replicate_eqI)
  show ?case
  proof (cases "list_all (\<lambda>b. b = 0) d")
    case True
    then show ?thesis
      using Cons.prems rd zero d by (intro conjI exI [of _ "[]"] exI [of _ ns]) auto
  next
    case False
    then have "find_free_from P ns vk = (Ok (Some n), vk')"
      using Cons.prems rd by simp
    then obtain before after where "vk' = vk" "ns = before @ n # after"
      "guest_bytes content (x86_gdt_entry_addr vk n) 8 vk = replicate 8 0"
      "\<forall>m \<in> set before. guest_bytes content (x86_gdt_entry_addr vk m) 8 vk \<noteq> replicate 8 0"
      using Cons.IH by blast
    then show ?thesis
      using False zero d by (intro conjI exI [of _ "m # before"] exI [of _ after]) auto
  qed
qed simp

lemma x86_gdt_entry_addr_write:
  "mem_write P a d vk = (r, vk') \<Longrightarrow> x86_gdt_entry_addr vk' n = x86_gdt_entry_addr vk n"
  by (simp add: x86_gdt_entry_addr_def x86_gdt_addr_def mem_write_fields)

definition guest_desc :: "bytes \<Rightarrow> UserDesc" where
  "guest_desc bs = \<lparr>ud_entry_number = from_le (take 4 bs), ud_base_addr = from_le (take 4 (drop 4 bs)),
     ud_limit = from_le (take 4 (drop 8 bs)), ud_flags = from_le (take 4 (drop 12 bs))\<rparr>"

text \<open>
  When \<open>set_thread_area\<close> succeeds it used one of the three thread-local entries, the one the guest
  named or else the first whose descriptor is zero, and that entry of the table now holds the descriptor
  the guest's structure describes, or zeros for an empty one.
\<close>

theorem set_thread_area_writes_entry:
  fixes vk :: "('u, 'h) Valkyrie"
  assumes bytes: "engine_bytes P content"
    and call: "sys_set_thread_area P s vk = (Ok 0, vk')"
  defines "d \<equiv> guest_desc (guest_bytes content (arg0 s) 16 vk)"
  shows "\<exists>n. n \<in> {6, 7, 8}
    \<and> (if ud_entry_number d \<noteq> 0xffffffff then n = ud_entry_number d
       else guest_bytes content (x86_gdt_entry_addr vk n) 8 vk = replicate 8 0
         \<and> (\<forall>m \<in> {6, 7, 8}. m < n \<longrightarrow> guest_bytes content (x86_gdt_entry_addr vk m) 8 vk \<noteq> replicate 8 0))
    \<and> guest_bytes content (x86_gdt_entry_addr vk n) 8 vk' =
        (if user_desc_is_empty d then replicate 8 0
         else gdt_desc (ud_base_addr d) (ud_limit d) (the (user_desc_access_byte d)) (user_desc_flags d))
    \<and> contents d \<noteq> 3 \<and> ud_limit d \<le> 0xfffff"
proof -
  have nz: "neg_errno ENOSYS \<noteq> 0" "neg_errno EFAULT \<noteq> 0" "neg_errno EINVAL \<noteq> 0" "neg_errno ESRCH \<noteq> 0"
    by (simp_all add: neg_errno_def errno_defs)
  have "c_arch (cfg vk) = X86" "arg0 s \<noteq> 0"
    using call nz by (auto simp: sys_set_thread_area_def Let_def split: if_splits)
  obtain bs where rd: "mem_read P (arg0 s) 16 vk = (Ok bs, vk)"
    using call nz \<open>arg0 s \<noteq> 0\<close> mem_read_same_state [of P "arg0 s" 16 vk]
    by (auto simp: sys_set_thread_area_def user_desc_from_guest_def Let_def outcome_elim split: if_splits)
  have desc: "user_desc_from_guest P (arg0 s) vk = (Ok d, vk)"
    using rd mem_read_Ok [OF bytes rd] by (simp add: user_desc_from_guest_def d_def guest_desc_def)
  have lim: "\<not> ud_limit d > 0x000fffff"
    using call nz desc \<open>arg0 s \<noteq> 0\<close> \<open>c_arch (cfg vk) = X86\<close>
    by (auto simp: sys_set_thread_area_def Let_def)
  define slot where "slot = (if ud_entry_number d = 0xffffffff then find_free_tls_entry P vk
           else (Ok (Some (ud_entry_number d)), vk))"
  let ?rest = "\<lambda>n vk. let desc = d\<lparr>ud_entry_number := n\<rparr> in
               and_then (write_back_entry_number P desc (arg0 s) vk) (\<lambda>_ vk.
                 if user_desc_is_empty desc
                 then and_then (x86_write_gdt_entry P n (replicate 8 0) vk) (\<lambda>_ vk. (Ok 0, vk))
                 else case user_desc_access_byte desc of
                   None \<Rightarrow> (Ok (neg_errno EINVAL), vk)
                 | Some access \<Rightarrow>
                     and_then (x86_write_gdt_entry P n
                         (gdt_desc (ud_base_addr desc) (ud_limit desc) access (user_desc_flags desc)) vk)
                       (\<lambda>_ vk. (Ok 0, vk)))"
  have "and_then slot (\<lambda>found vk. case found of
             None \<Rightarrow> (Ok (neg_errno ESRCH), vk)
           | Some n \<Rightarrow>
               if \<not> (X86_GDT_ENTRY_TLS_MIN \<le> n \<and> n \<le> X86_GDT_ENTRY_TLS_MAX)
               then (Ok (neg_errno EINVAL), vk)
               else if contents d = 3 then (Ok (neg_errno EINVAL), vk) else ?rest n vk) = (Ok 0, vk')"
    using call desc lim \<open>arg0 s \<noteq> 0\<close> \<open>c_arch (cfg vk) = X86\<close>
    by (simp add: sys_set_thread_area_def slot_def Let_def)
  then obtain n vk1 where slot: "slot = (Ok (Some n), vk1)"
    and range: "X86_GDT_ENTRY_TLS_MIN \<le> n \<and> n \<le> X86_GDT_ENTRY_TLS_MAX" and c3: "contents d \<noteq> 3"
    and rest: "?rest n vk1 = (Ok 0, vk')"
    using nz by (auto simp: outcome_elim split: option.splits if_splits)
  have n: "n \<in> {6, 7, 8}"
  proof -
    have "6 \<le> unat n" "unat n \<le> 8"
      using range by (simp_all add: tls_range_defs word_le_nat_alt)
    then have "unat n = 6 \<or> unat n = 7 \<or> unat n = 8" by auto
    then show ?thesis
      by (auto simp: word_unat_eq_iff)
  qed
  have which: "vk1 = vk \<and> (if ud_entry_number d \<noteq> 0xffffffff then n = ud_entry_number d
       else guest_bytes content (x86_gdt_entry_addr vk n) 8 vk = replicate 8 0
         \<and> (\<forall>m \<in> {6, 7, 8}. m < n \<longrightarrow> guest_bytes content (x86_gdt_entry_addr vk m) 8 vk \<noteq> replicate 8 0))"
  proof (cases "ud_entry_number d = 0xffffffff")
    case True
    have "map of_nat [unat X86_GDT_ENTRY_TLS_MIN ..< Suc (unat X86_GDT_ENTRY_TLS_MAX)] = [6, 7, 8 :: u32]"
      by (simp add: tls_range_defs upt_rec)
    then have "find_free_from P [6, 7, 8] vk = (Ok (Some n), vk1)"
      using slot True by (simp add: slot_def find_free_tls_entry_def)
    from find_free_Some [OF bytes this] True n show ?thesis
      by (auto simp: Cons_eq_append_conv)
  next
    case False
    then show ?thesis
      using slot by (simp add: slot_def)
  qed
  have same: "user_desc_is_empty (d\<lparr>ud_entry_number := n\<rparr>) = user_desc_is_empty d"
    "user_desc_access_byte (d\<lparr>ud_entry_number := n\<rparr>) = user_desc_access_byte d"
    "user_desc_flags (d\<lparr>ud_entry_number := n\<rparr>) = user_desc_flags d"
    by (simp_all add: user_desc_is_empty_def user_desc_access_byte_def user_desc_flags_def contents_def
        seg_32bit_def read_exec_only_def limit_in_pages_def seg_not_present_def useable_def)
  let ?D = "if user_desc_is_empty d then replicate 8 0
         else gdt_desc (ud_base_addr d) (ud_limit d) (the (user_desc_access_byte d)) (user_desc_flags d)"
  obtain u vk2 where wb: "mem_write P (arg0 s) (to_le_bytes n) vk = (Ok u, vk2)"
    and wr: "x86_write_gdt_entry P n ?D vk2 = (Ok (), vk')"
    using rest which nz
    by (auto simp: same Let_def outcome_elim write_back_entry_number_def split: if_splits option.splits)
  have "length ?D = 8"
    by (simp add: length_gdt_desc)
  then have "guest_bytes content (x86_gdt_entry_addr vk n) 8 vk' = ?D"
    using guest_bytes_written [OF bytes wr [unfolded x86_write_gdt_entry_def], of 8]
      x86_gdt_entry_addr_write [OF wb] by simp
  with n which c3 lim show ?thesis
    by (intro exI [of _ n]) auto
qed

theorem set_thread_area_writes_entry_witness:
  "\<exists>vk vk'. sys_set_thread_area ref_engine (subctx_new [0x400000, 0, 0, 0, 0, 0]) vk = (Ok 0, vk')
    \<and> guest_bytes ref_content (x86_gdt_entry_addr vk 6) 8 vk' = gdt_desc 0 0 0xF2 0"
proof -
  let ?s = "subctx_new [0x400000, 0, 0, 0, 0, 0]"
  define vk where "vk = (ref_vk X86)\<lparr>uc := (uc (ref_vk X86))\<lparr>ref_content := (\<lambda>x. if x = 0x400000 then 6 else 0)\<rparr>\<rparr>"
  have bs: "guest_bytes ref_content 0x400000 16 vk = [6, 0, 0, 0, 0, 0, 0, 0, 0, 0, 0, 0, 0, 0, 0, 0]"
    by (simp add: guest_bytes_def vk_def upt_rec)
  let ?d = "\<lparr>ud_entry_number = 6, ud_base_addr = 0, ud_limit = 0, ud_flags = 0\<rparr>"
  have d: "guest_desc (guest_bytes ref_content 0x400000 16 vk) = ?d"
    unfolding bs guest_desc_def by simp
  have props: "contents ?d = 0" "user_desc_access_byte ?d = Some 0xF2" "user_desc_flags ?d = 0" "\<not> user_desc_is_empty ?d"
    by (simp_all add: contents_def user_desc_access_byte_def user_desc_flags_def user_desc_is_empty_def
        read_exec_only_def seg_not_present_def seg_32bit_def limit_in_pages_def useable_def)
  have desc: "user_desc_from_guest ref_engine 0x400000 vk = (Ok ?d, vk)"
    using d by (simp add: user_desc_from_guest_def guest_desc_def ref_mem_read guest_bytes_def)
  have arch: "c_arch (cfg vk) = X86"
    by (simp add: vk_def)
  obtain u where wb: "mem_write ref_engine 0x400000 (to_le_bytes (6 :: u32)) vk = (Ok (), vk\<lparr>uc := u\<rparr>)"
    using ref_mem_write [of "to_le_bytes (6 :: u32)" "0x400000" vk] by (auto simp flip: length_0_conv)
  obtain u' where wr: "mem_write ref_engine (x86_gdt_entry_addr (vk\<lparr>uc := u\<rparr>) 6) (gdt_desc 0 0 0xF2 0) (vk\<lparr>uc := u\<rparr>)
      = (Ok (), vk\<lparr>uc := u, uc := u'\<rparr>)"
    using ref_mem_write [of "gdt_desc 0 0 0xF2 0" "x86_gdt_entry_addr (vk\<lparr>uc := u\<rparr>) 6" "vk\<lparr>uc := u\<rparr>"]
    by (auto simp: x86_gdt_entry_addr_def x86_gdt_addr_def vk_def ref_vk_def length_gdt_desc simp flip: length_0_conv)
  have "sys_set_thread_area ref_engine ?s vk = (Ok 0, vk\<lparr>uc := u, uc := u'\<rparr>)"
    using arch desc wb wr
    by (simp add: sys_set_thread_area_def Let_def tls_range_defs props write_back_entry_number_def
        x86_write_gdt_entry_def)
  from set_thread_area_writes_entry [OF ref_engine_bytes this] this show ?thesis
    using d props by (intro exI [of _ vk] exI) auto
qed

end
