(* ===== verification/Vk_Dispatch.thy ===== *)
theory Vk_Dispatch
  imports Vk_SysThread
begin

text \<open>
  System calls from the trap to the handler: the number tables of \<open>src/src/arch/x86.rs\<close> and
  \<open>src/src/arch/x86_64.rs\<close>, the handler table of \<open>src/src/os/register_syscall.rs\<close> and the two trap
  handlers. The handlers of \<open>io.rs\<close> and \<open>network.rs\<close> are the argument \<open>io\<close>, by name, which
  \<open>Vk_IoRun\<close> instantiates with the model's own. A log message has no effect.
\<close>

section \<open>The number tables\<close>

text \<open>Each table is split in three for size; the whole is their concatenation.\<close>

definition SYSCALL_TABLE_X86_1 :: "(u64 \<times> string) list" where
  "SYSCALL_TABLE_X86_1 =
   [(0, ''restart_syscall''), (1, ''exit''), (2, ''fork''), (3, ''read''), (4, ''write''),
    (5, ''open''), (6, ''close''), (7, ''waitpid''), (8, ''creat''), (9, ''link''),
    (10, ''unlink''), (11, ''execve''), (12, ''chdir''), (13, ''time''), (14, ''mknod''),
    (15, ''chmod''), (16, ''lchown''), (17, ''break''), (18, ''oldstat''), (19, ''lseek''),
    (20, ''getpid''), (21, ''mount''), (22, ''umount''), (23, ''setuid''), (24, ''getuid''),
    (25, ''stime''), (26, ''ptrace''), (27, ''alarm''), (28, ''oldfstat''), (29, ''pause''),
    (30, ''utime''), (31, ''stty''), (32, ''gtty''), (33, ''access''), (34, ''nice''),
    (35, ''ftime''), (36, ''sync''), (37, ''kill''), (38, ''rename''), (39, ''mkdir''),
    (40, ''rmdir''), (41, ''dup''), (42, ''pipe''), (43, ''times''), (44, ''prof''),
    (45, ''brk''), (46, ''setgid''), (47, ''getgid''), (48, ''signal''), (49, ''geteuid''),
    (50, ''getegid''), (51, ''acct''), (52, ''umount2''), (53, ''lock''), (54, ''ioctl''),
    (55, ''fcntl''), (56, ''mpx''), (57, ''setpgid''), (58, ''ulimit''), (59, ''oldolduname''),
    (60, ''umask''), (61, ''chroot''), (62, ''ustat''), (63, ''dup2''), (64, ''getppid''),
    (65, ''getpgrp''), (66, ''setsid''), (67, ''sigaction''), (68, ''sgetmask''),
    (69, ''ssetmask''), (70, ''setreuid''), (71, ''setregid''), (72, ''sigsuspend''),
    (73, ''sigpending''), (74, ''sethostname''), (75, ''setrlimit''), (76, ''getrlimit''),
    (77, ''getrusage''), (78, ''gettimeofday''), (79, ''settimeofday''), (80, ''getgroups''),
    (81, ''setgroups''), (82, ''select''), (83, ''symlink''), (84, ''oldlstat''),
    (85, ''readlink''), (86, ''uselib''), (87, ''swapon''), (88, ''reboot''), (89, ''readdir''),
    (90, ''mmap''), (91, ''munmap''), (92, ''truncate''), (93, ''ftruncate''), (94, ''fchmod''),
    (95, ''fchown''), (96, ''getpriority''), (97, ''setpriority''), (98, ''profil''),
    (99, ''statfs''), (100, ''fstatfs''), (101, ''ioperm''), (102, ''socketcall''),
    (103, ''syslog''), (104, ''setitimer''), (105, ''getitimer''), (106, ''stat''),
    (107, ''lstat''), (108, ''fstat''), (109, ''olduname''), (110, ''iopl''), (111, ''vhangup''),
    (112, ''idle''), (113, ''vm86old''), (114, ''wait4''), (115, ''swapoff''),
    (116, ''sysinfo''), (117, ''ipc''), (118, ''fsync''), (119, ''sigreturn''), (120, ''clone''),
    (121, ''setdomainname''), (122, ''uname''), (123, ''modify_ldt''), (124, ''adjtimex''),
    (125, ''mprotect''), (126, ''sigprocmask''), (127, ''create_module''),
    (128, ''init_module''), (129, ''delete_module''), (130, ''get_kernel_syms''),
    (131, ''quotactl''), (132, ''getpgid''), (133, ''fchdir''), (134, ''bdflush''),
    (135, ''sysfs''), (136, ''personality'')]"

definition SYSCALL_TABLE_X86_2 :: "(u64 \<times> string) list" where
  "SYSCALL_TABLE_X86_2 =
   [(137, ''afs_syscall''), (138, ''setfsuid''), (139, ''setfsgid''), (140, ''_llseek''),
    (141, ''getdents''), (142, ''_newselect''), (143, ''flock''), (144, ''msync''),
    (145, ''readv''), (146, ''writev''), (147, ''getsid''), (148, ''fdatasync''),
    (149, ''_sysctl''), (150, ''mlock''), (151, ''munlock''), (152, ''mlockall''),
    (153, ''munlockall''), (154, ''sched_setparam''), (155, ''sched_getparam''),
    (156, ''sched_setscheduler''), (157, ''sched_getscheduler''), (158, ''sched_yield''),
    (159, ''sched_get_priority_max''), (160, ''sched_get_priority_min''),
    (161, ''sched_rr_get_interval''), (162, ''nanosleep''), (163, ''mremap''),
    (164, ''setresuid''), (165, ''getresuid''), (166, ''vm86''), (167, ''query_module''),
    (168, ''poll''), (169, ''nfsservctl''), (170, ''setresgid''), (171, ''getresgid''),
    (172, ''prctl''), (173, ''rt_sigreturn''), (174, ''rt_sigaction''),
    (175, ''rt_sigprocmask''), (176, ''rt_sigpending''), (177, ''rt_sigtimedwait''),
    (178, ''rt_sigqueueinfo''), (179, ''rt_sigsuspend''), (180, ''pread64''),
    (181, ''pwrite64''), (182, ''chown''), (183, ''getcwd''), (184, ''capget''),
    (185, ''capset''), (186, ''sigaltstack''), (187, ''sendfile''), (188, ''getpmsg''),
    (189, ''putpmsg''), (190, ''vfork''), (191, ''ugetrlimit''), (192, ''mmap2''),
    (193, ''truncate64''), (194, ''ftruncate64''), (195, ''stat64''), (196, ''lstat64''),
    (197, ''fstat64''), (198, ''lchown32''), (199, ''getuid32''), (200, ''getgid32''),
    (201, ''geteuid32''), (202, ''getegid32''), (203, ''setreuid32''), (204, ''setregid32''),
    (205, ''getgroups32''), (206, ''setgroups32''), (207, ''fchown32''), (208, ''setresuid32''),
    (209, ''getresuid32''), (210, ''setresgid32''), (211, ''getresgid32''), (212, ''chown32''),
    (213, ''setuid32''), (214, ''setgid32''), (215, ''setfsuid32''), (216, ''setfsgid32''),
    (217, ''pivot_root''), (218, ''mincore''), (219, ''madvise''), (220, ''getdents64''),
    (221, ''fcntl64''), (222, ''tuxcall''), (223, ''security''), (224, ''gettid''),
    (225, ''readahead''), (226, ''setxattr''), (227, ''lsetxattr''), (228, ''fsetxattr''),
    (229, ''getxattr''), (230, ''lgetxattr''), (231, ''fgetxattr''), (232, ''listxattr''),
    (233, ''llistxattr''), (234, ''flistxattr''), (235, ''removexattr''),
    (236, ''lremovexattr''), (237, ''fremovexattr''), (238, ''tkill''), (239, ''sendfile64''),
    (240, ''futex''), (241, ''sched_setaffinity''), (242, ''sched_getaffinity''),
    (243, ''set_thread_area''), (244, ''get_thread_area''), (245, ''io_setup''),
    (246, ''io_destroy''), (247, ''io_getevents''), (248, ''io_submit''), (249, ''io_cancel''),
    (250, ''fadvise64''), (252, ''exit_group''), (253, ''lookup_dcookie''),
    (254, ''epoll_create''), (255, ''epoll_ctl''), (256, ''epoll_wait''),
    (257, ''remap_file_pages''), (258, ''set_tid_address''), (259, ''timer_create''),
    (260, ''timer_settime''), (261, ''timer_gettime''), (262, ''timer_getoverrun''),
    (263, ''timer_delete''), (264, ''clock_settime''), (265, ''clock_gettime''),
    (266, ''clock_getres''), (267, ''clock_nanosleep''), (268, ''statfs64''),
    (269, ''fstatfs64''), (270, ''tgkill''), (271, ''utimes''), (272, ''fadvise64_64''),
    (273, ''vserver''), (274, ''mbind'')]"

definition SYSCALL_TABLE_X86_3 :: "(u64 \<times> string) list" where
  "SYSCALL_TABLE_X86_3 =
   [(275, ''get_mempolicy''), (276, ''set_mempolicy''), (277, ''mq_open''), (278, ''mq_unlink''),
    (279, ''mq_timedsend''), (280, ''mq_timedreceive''), (281, ''mq_notify''),
    (282, ''mq_getsetattr''), (283, ''kexec_load''), (284, ''waitid''), (286, ''add_key''),
    (287, ''request_key''), (288, ''keyctl''), (289, ''ioprio_set''), (290, ''ioprio_get''),
    (291, ''inotify_init''), (292, ''inotify_add_watch''), (293, ''inotify_rm_watch''),
    (294, ''migrate_pages''), (295, ''openat''), (296, ''mkdirat''), (297, ''mknodat''),
    (298, ''fchownat''), (299, ''futimesat''), (300, ''fstatat64''), (301, ''unlinkat''),
    (302, ''renameat''), (303, ''linkat''), (304, ''symlinkat''), (305, ''readlinkat''),
    (306, ''fchmodat''), (307, ''faccessat''), (308, ''pselect6''), (309, ''ppoll''),
    (310, ''unshare''), (311, ''set_robust_list''), (312, ''get_robust_list''),
    (313, ''splice''), (314, ''sync_file_range''), (315, ''tee''), (316, ''vmsplice''),
    (317, ''move_pages''), (318, ''getcpu''), (319, ''epoll_pwait''), (320, ''utimensat''),
    (321, ''signalfd''), (322, ''timerfd_create''), (323, ''eventfd''), (324, ''fallocate''),
    (325, ''timerfd_settime''), (326, ''timerfd_gettime''), (327, ''signalfd4''),
    (328, ''eventfd2''), (329, ''epoll_create1''), (330, ''dup3''), (331, ''pipe2''),
    (332, ''inotify_init1''), (333, ''preadv''), (334, ''pwritev''),
    (335, ''rt_tgsigqueueinfo''), (336, ''perf_event_open''), (337, ''recvmmsg''),
    (338, ''fanotify_init''), (339, ''fanotify_mark''), (340, ''prlimit64''),
    (341, ''name_to_handle_at''), (342, ''open_by_handle_at''), (343, ''clock_adjtime''),
    (344, ''syncfs''), (345, ''sendmmsg''), (346, ''setns''), (347, ''process_vm_readv''),
    (348, ''process_vm_writev''), (349, ''kcmp''), (350, ''finit_module''),
    (351, ''sched_setattr''), (352, ''sched_getattr''), (353, ''renameat2''), (354, ''seccomp''),
    (355, ''getrandom''), (356, ''memfd_create''), (357, ''bpf''), (358, ''execveat''),
    (359, ''socket''), (360, ''socketpair''), (361, ''bind''), (362, ''connect''),
    (363, ''listen''), (364, ''accept4''), (365, ''getsockopt''), (366, ''setsockopt''),
    (367, ''getsockname''), (368, ''getpeername''), (369, ''sendto''), (370, ''sendmsg''),
    (371, ''recvfrom''), (372, ''recvmsg''), (373, ''shutdown''), (374, ''userfaultfd''),
    (375, ''membarrier''), (376, ''mlock2''), (377, ''copy_file_range''), (378, ''preadv2''),
    (379, ''pwritev2''), (380, ''pkey_mprotect''), (381, ''pkey_alloc''), (382, ''pkey_free''),
    (383, ''statx''), (384, ''arch_prctl''), (385, ''io_pgetevents''), (386, ''rseq''),
    (393, ''semget''), (394, ''semctl''), (395, ''shmget''), (396, ''shmctl''), (397, ''shmat''),
    (398, ''shmdt''), (399, ''msgget''), (400, ''msgsnd''), (401, ''msgrcv''), (402, ''msgctl''),
    (403, ''clock_gettime64''), (404, ''clock_settime64''), (405, ''clock_adjtime64''),
    (406, ''clock_getres_time64''), (407, ''clock_nanosleep_time64''),
    (408, ''timer_gettime64''), (409, ''timer_settime64''), (410, ''timerfd_gettime64''),
    (411, ''timerfd_settime64''), (412, ''utimensat_time64''), (413, ''pselect6_time64''),
    (414, ''ppoll_time64''), (416, ''io_pgetevents_time64''), (417, ''recvmmsg_time64''),
    (418, ''mq_timedsend_time64''), (419, ''mq_timedreceive_time64'')]"

definition SYSCALL_TABLE_X86 :: "(u64 \<times> string) list" where
  "SYSCALL_TABLE_X86 = SYSCALL_TABLE_X86_1 @ SYSCALL_TABLE_X86_2 @ SYSCALL_TABLE_X86_3"

definition SYSCALL_TABLE_X86_64_1 :: "(u64 \<times> string) list" where
  "SYSCALL_TABLE_X86_64_1 =
   [(0, ''read''), (1, ''write''), (2, ''open''), (3, ''close''), (4, ''stat''), (5, ''fstat''),
    (6, ''lstat''), (7, ''poll''), (8, ''lseek''), (9, ''mmap''), (10, ''mprotect''),
    (11, ''munmap''), (12, ''brk''), (13, ''rt_sigaction''), (14, ''rt_sigprocmask''),
    (15, ''rt_sigreturn''), (16, ''ioctl''), (17, ''pread64''), (18, ''pwrite64''),
    (19, ''readv''), (20, ''writev''), (21, ''access''), (22, ''pipe''), (23, ''select''),
    (24, ''sched_yield''), (25, ''mremap''), (26, ''msync''), (27, ''mincore''),
    (28, ''madvise''), (29, ''shmget''), (30, ''shmat''), (31, ''shmctl''), (32, ''dup''),
    (33, ''dup2''), (34, ''pause''), (35, ''nanosleep''), (36, ''getitimer''), (37, ''alarm''),
    (38, ''setitimer''), (39, ''getpid''), (40, ''sendfile''), (41, ''socket''),
    (42, ''connect''), (43, ''accept''), (44, ''sendto''), (45, ''recvfrom''), (46, ''sendmsg''),
    (47, ''recvmsg''), (48, ''shutdown''), (49, ''bind''), (50, ''listen''),
    (51, ''getsockname''), (52, ''getpeername''), (53, ''socketpair''), (54, ''setsockopt''),
    (55, ''getsockopt''), (56, ''clone''), (57, ''fork''), (58, ''vfork''), (59, ''execve''),
    (60, ''exit''), (61, ''wait4''), (62, ''kill''), (63, ''uname''), (64, ''semget''),
    (65, ''semop''), (66, ''semctl''), (67, ''shmdt''), (68, ''msgget''), (69, ''msgsnd''),
    (70, ''msgrcv''), (71, ''msgctl''), (72, ''fcntl''), (73, ''flock''), (74, ''fsync''),
    (75, ''fdatasync''), (76, ''truncate''), (77, ''ftruncate''), (78, ''getdents''),
    (79, ''getcwd''), (80, ''chdir''), (81, ''fchdir''), (82, ''rename''), (83, ''mkdir''),
    (84, ''rmdir''), (85, ''creat''), (86, ''link''), (87, ''unlink''), (88, ''symlink''),
    (89, ''readlink''), (90, ''chmod''), (91, ''fchmod''), (92, ''chown''), (93, ''fchown''),
    (94, ''lchown''), (95, ''umask''), (96, ''gettimeofday''), (97, ''getrlimit''),
    (98, ''getrusage''), (99, ''sysinfo''), (100, ''times''), (101, ''ptrace''),
    (102, ''getuid''), (103, ''syslog''), (104, ''getgid''), (105, ''setuid''),
    (106, ''setgid''), (107, ''geteuid''), (108, ''getegid''), (109, ''setpgid''),
    (110, ''getppid''), (111, ''getpgrp''), (112, ''setsid''), (113, ''setreuid''),
    (114, ''setregid''), (115, ''getgroups''), (116, ''setgroups''), (117, ''setresuid''),
    (118, ''getresuid'')]"

definition SYSCALL_TABLE_X86_64_2 :: "(u64 \<times> string) list" where
  "SYSCALL_TABLE_X86_64_2 =
   [(119, ''setresgid''), (120, ''getresgid''), (121, ''getpgid''), (122, ''setfsuid''),
    (123, ''setfsgid''), (124, ''getsid''), (125, ''capget''), (126, ''capset''),
    (127, ''rt_sigpending''), (128, ''rt_sigtimedwait''), (129, ''rt_sigqueueinfo''),
    (130, ''rt_sigsuspend''), (131, ''sigaltstack''), (132, ''utime''), (133, ''mknod''),
    (134, ''uselib''), (135, ''personality''), (136, ''ustat''), (137, ''statfs''),
    (138, ''fstatfs''), (139, ''sysfs''), (140, ''getpriority''), (141, ''setpriority''),
    (142, ''sched_setparam''), (143, ''sched_getparam''), (144, ''sched_setscheduler''),
    (145, ''sched_getscheduler''), (146, ''sched_get_priority_max''),
    (147, ''sched_get_priority_min''), (148, ''sched_rr_get_interval''), (149, ''mlock''),
    (150, ''munlock''), (151, ''mlockall''), (152, ''munlockall''), (153, ''vhangup''),
    (154, ''modify_ldt''), (155, ''pivot_root''), (156, ''_sysctl''), (157, ''prctl''),
    (158, ''arch_prctl''), (159, ''adjtimex''), (160, ''setrlimit''), (161, ''chroot''),
    (162, ''sync''), (163, ''acct''), (164, ''settimeofday''), (165, ''mount''),
    (166, ''umount2''), (167, ''swapon''), (168, ''swapoff''), (169, ''reboot''),
    (170, ''sethostname''), (171, ''setdomainname''), (172, ''iopl''), (173, ''ioperm''),
    (174, ''create_module''), (175, ''init_module''), (176, ''delete_module''),
    (177, ''get_kernel_syms''), (178, ''query_module''), (179, ''quotactl''),
    (180, ''nfsservctl''), (181, ''getpmsg''), (186, ''gettid''), (187, ''readahead''),
    (188, ''setxattr''), (189, ''lsetxattr''), (190, ''fsetxattr''), (191, ''getxattr''),
    (192, ''lgetxattr''), (193, ''fgetxattr''), (194, ''listxattr''), (195, ''llistxattr''),
    (196, ''flistxattr''), (197, ''removexattr''), (198, ''lremovexattr''),
    (199, ''fremovexattr''), (200, ''tkill''), (201, ''time''), (202, ''futex''),
    (203, ''sched_setaffinity''), (204, ''sched_getaffinity''), (205, ''set_thread_area''),
    (206, ''io_setup''), (207, ''io_destroy''), (208, ''io_getevents''), (209, ''io_submit''),
    (210, ''io_cancel''), (211, ''get_thread_area''), (212, ''lookup_dcookie''),
    (213, ''epoll_create''), (214, ''epoll_ctl_old''), (215, ''epoll_wait_old''),
    (216, ''remap_file_pages''), (217, ''getdents64''), (218, ''set_tid_address''),
    (219, ''restart_syscall''), (220, ''semtimedop''), (221, ''fadvise64''),
    (222, ''timer_create''), (223, ''timer_settime''), (224, ''timer_gettime''),
    (225, ''timer_getoverrun''), (226, ''timer_delete''), (227, ''clock_settime''),
    (228, ''clock_gettime''), (229, ''clock_getres''), (230, ''clock_nanosleep''),
    (231, ''exit_group''), (232, ''epoll_wait''), (233, ''epoll_ctl''), (234, ''tgkill''),
    (235, ''utimes''), (237, ''mbind''), (238, ''set_mempolicy''), (239, ''get_mempolicy''),
    (240, ''mq_open''), (241, ''mq_unlink''), (242, ''mq_timedsend'')]"

definition SYSCALL_TABLE_X86_64_3 :: "(u64 \<times> string) list" where
  "SYSCALL_TABLE_X86_64_3 =
   [(243, ''mq_timedreceive''), (244, ''mq_notify''), (245, ''mq_getsetattr''),
    (246, ''kexec_load''), (247, ''waitid''), (248, ''add_key''), (249, ''request_key''),
    (250, ''keyctl''), (251, ''ioprio_set''), (252, ''ioprio_get''), (253, ''inotify_init''),
    (254, ''inotify_add_watch''), (255, ''inotify_rm_watch''), (256, ''migrate_pages''),
    (257, ''openat''), (258, ''mkdirat''), (259, ''mknodat''), (260, ''fchownat''),
    (261, ''futimesat''), (262, ''newfstatat''), (263, ''unlinkat''), (264, ''renameat''),
    (265, ''linkat''), (266, ''symlinkat''), (267, ''readlinkat''), (268, ''fchmodat''),
    (269, ''faccessat''), (270, ''pselect6''), (271, ''ppoll''), (272, ''unshare''),
    (273, ''set_robust_list''), (274, ''get_robust_list''), (275, ''splice''), (276, ''tee''),
    (277, ''sync_file_range''), (278, ''vmsplice''), (279, ''move_pages''), (280, ''utimensat''),
    (281, ''epoll_pwait''), (282, ''signalfd''), (283, ''timerfd_create''), (284, ''eventfd''),
    (285, ''fallocate''), (286, ''timerfd_settime''), (287, ''timerfd_gettime''),
    (288, ''accept4''), (289, ''signalfd4''), (290, ''eventfd2''), (291, ''epoll_create1''),
    (292, ''dup3''), (293, ''pipe2''), (294, ''inotify_init1''), (295, ''preadv''),
    (296, ''pwritev''), (297, ''rt_tgsigqueueinfo''), (298, ''perf_event_open''),
    (299, ''recvmmsg''), (300, ''fanotify_init''), (301, ''fanotify_mark''),
    (302, ''prlimit64''), (303, ''name_to_handle_at''), (304, ''open_by_handle_at''),
    (305, ''clock_adjtime''), (306, ''syncfs''), (307, ''sendmmsg''), (308, ''setns''),
    (309, ''getcpu''), (310, ''process_vm_readv''), (311, ''process_vm_writev''),
    (312, ''kcmp''), (313, ''finit_module''), (314, ''sched_setattr''), (315, ''sched_getattr''),
    (316, ''renameat2''), (317, ''seccomp''), (318, ''getrandom''), (319, ''memfd_create''),
    (320, ''kexec_file_load''), (321, ''bpf''), (322, ''execveat''), (323, ''userfaultfd''),
    (324, ''membarrier''), (325, ''mlock2''), (326, ''copy_file_range''), (327, ''preadv2''),
    (328, ''pwritev2''), (329, ''pkey_mprotect''), (330, ''pkey_alloc''), (331, ''pkey_free''),
    (332, ''statx''), (333, ''io_pgetevents''), (334, ''rseq''), (424, ''pidfd_send_signal''),
    (425, ''io_uring_setup''), (426, ''io_uring_enter''), (427, ''io_uring_register''),
    (428, ''open_tree''), (429, ''move_mount''), (430, ''fsopen''), (431, ''fsconfig''),
    (432, ''fsmount''), (433, ''fspick''), (434, ''pidfd_open''), (435, ''clone3''),
    (436, ''close_range''), (437, ''openat2''), (438, ''pidfd_getfd''), (439, ''faccessat2''),
    (440, ''process_madvise''), (441, ''epoll_pwait2''), (442, ''mount_setattr''),
    (443, ''quotactl_fd''), (444, ''landlock_create_ruleset''), (445, ''landlock_add_rule''),
    (446, ''landlock_restrict_self''), (447, ''memfd_secret''), (448, ''process_mrelease'')]"

definition SYSCALL_TABLE_X86_64 :: "(u64 \<times> string) list" where
  "SYSCALL_TABLE_X86_64 = SYSCALL_TABLE_X86_64_1 @ SYSCALL_TABLE_X86_64_2 @ SYSCALL_TABLE_X86_64_3"

section \<open>Lookup\<close>

text \<open>
  The standard library's \<open>binary_search_by_key\<close>: halve the size, keeping the base at or before the key;
  then compare once.
\<close>

function bsearch_base :: "(nat \<Rightarrow> 'k :: linorder) \<Rightarrow> 'k \<Rightarrow> nat \<Rightarrow> nat \<Rightarrow> nat" where
  "bsearch_base key x base sz =
     (if sz \<le> 1 then base
      else let half = sz div 2; mid = base + half in
        bsearch_base key x (if x < key mid then base else mid) (sz - half))"
  by pat_completeness auto
termination by (relation "measure (\<lambda>(_, _, _, sz). sz)") auto

declare bsearch_base.simps [simp del]

definition binary_search_by_key :: "'k :: linorder \<Rightarrow> ('a \<Rightarrow> 'k) \<Rightarrow> 'a list \<Rightarrow> nat option" where
  "binary_search_by_key x f xs =
     (if xs = [] then None
      else let base = bsearch_base (\<lambda>i. f (xs ! i)) x 0 (length xs) in
        if f (xs ! base) = x then Some base else None)"

definition syscall_name_from_no :: "u64 \<Rightarrow> Arch \<Rightarrow> string vk_outcome" where
  "syscall_name_from_no syscall_no a =
     (let table = (case a of X86_64 \<Rightarrow> SYSCALL_TABLE_X86_64 | X86 \<Rightarrow> SYSCALL_TABLE_X86) in
      case binary_search_by_key syscall_no fst table of
        Some idx \<Rightarrow> Ok (snd (table ! idx))
      | None \<Rightarrow> Err (UnknownSyscall syscall_no))"

definition SYSCALL_TABLE_MAPPER ::
  "('u, 'h) platform \<Rightarrow> (string \<Rightarrow> ('u, 'h) sys_fn) \<Rightarrow> (string \<times> ('u, 'h) sys_fn) list" where
  "SYSCALL_TABLE_MAPPER P io =
   [(''read'', io ''sys_read''), (''pread64'', io ''sys_pread64''),
    (''lseek'', io ''sys_lseek''), (''_llseek'', io ''sys_llseek''), (''open'', io ''sys_open''),
    (''write'', io ''sys_write''), (''close'', io ''sys_close''),
    (''access'', io ''sys_access''), (''stat'', io ''sys_stat''), (''fstat'', io ''sys_fstat''),
    (''stat64'', io ''sys_stat64''), (''fstat64'', io ''sys_fstat64''), (''exit'', sys_exit P),
    (''openat'', io ''sys_openat''), (''poll'', io ''sys_poll''),
    (''renameat2'', io ''sys_renameat2''), (''renameat'', io ''sys_renameat''),
    (''statx'', io ''sys_statx''), (''geteuid'', sys_geteuid), (''geteuid32'', sys_geteuid),
    (''getuid'', sys_getuid), (''getuid32'', sys_getuid), (''getegid'', sys_getegid),
    (''getegid32'', sys_getegid), (''getgid'', sys_getgid), (''getgid32'', sys_getgid),
    (''brk'', sys_brk P), (''prctl'', sys_prctl P), (''arch_prctl'', sys_arch_prctl P),
    (''uname'', sys_uname P), (''ugetrlimit'', sys_ugetrlimit P), (''mmap'', sys_mmap P),
    (''mmap2'', sys_mmap2 P), (''munmap'', sys_munmap P), (''gettid'', sys_gettid P),
    (''set_tid_address'', sys_set_tid_address P), (''set_robust_list'', sys_set_robust_list),
    (''get_robust_list'', sys_get_robust_list P), (''rseq'', sys_rseq),
    (''writev'', io ''sys_writev''), (''exit_group'', sys_exit_group P),
    (''mprotect'', sys_mprotect P), (''prlimit64'', sys_prlimit64 P),
    (''clock_gettime'', sys_clock_gettime P), (''clock_gettime64'', sys_clock_gettime64 P),
    (''getrandom'', sys_getrandom P), (''time'', sys_time P),
    (''readlink'', io ''sys_readlink''), (''readlinkat'', io ''sys_readlinkat''),
    (''lookup_dcookie'', sys_lookup_dcookie), (''rt_sigaction'', sys_rt_sigaction P),
    (''rt_sigprocmask'', sys_rt_sigprocmask P), (''newfstatat'', io ''sys_newfstatat''),
    (''fstatat64'', io ''sys_fstatat64''), (''getpid'', sys_getpid P),
    (''tgkill'', sys_tgkill P), (''dup'', io ''sys_dup''), (''fcntl'', io ''sys_fcntl''),
    (''fcntl64'', io ''sys_fcntl''), (''set_thread_area'', sys_set_thread_area P),
    (''fstat'', io ''sys_fstat''), (''ioctl'', io ''sys_ioctl''),
    (''getxattr'', io ''sys_getxattr''), (''lgetxattr'', io ''sys_lgetxattr''),
    (''fgetxattr'', io ''sys_fgetxattr''), (''futex'', io ''sys_futex''),
    (''socket'', io ''sys_socket''), (''socketcall'', io ''sys_socketcall''),
    (''socketpair'', io ''sys_socketpair''), (''connect'', io ''sys_connect''),
    (''shutdown'', io ''sys_shutdown''), (''getsockopt'', io ''sys_getsockopt''),
    (''sendto'', io ''sys_sendto''), (''recvfrom'', io ''sys_recvfrom''),
    (''pselect6'', io ''sys_pselect6''), (''epoll_wait'', io ''sys_epoll_wait''),
    (''epoll_ctl'', io ''sys_epoll_ctl''), (''epoll_create1'', io ''sys_epoll_create1''),
    (''timerfd_create'', io ''sys_timerfd_create''),
    (''timerfd_settime'', io ''sys_timerfd_settime''), (''getdents64'', io ''sys_getdents64''),
    (''statfs'', io ''sys_statfs''), (''statfs64'', io ''sys_statfs64''),
    (''fadvise64'', io ''sys_fadvise64''), (''rename'', io ''sys_rename''),
    (''chmod'', io ''sys_chmod''), (''unlink'', io ''sys_unlink'')]"

definition syscall_fn_from_name ::
  "('u, 'h) platform \<Rightarrow> (string \<Rightarrow> ('u, 'h) sys_fn) \<Rightarrow> string \<Rightarrow> ('u, 'h) sys_fn option" where
  "syscall_fn_from_name P io name =
     map_option snd (find (\<lambda>(n, _). n = name) (SYSCALL_TABLE_MAPPER P io))"

definition dispatch_syscall_by_name ::
  "('u, 'h) platform \<Rightarrow> (string \<Rightarrow> ('u, 'h) sys_fn) \<Rightarrow> string \<Rightarrow> ('u, 'h) sys_fn" where
  "dispatch_syscall_by_name P io name sctx vk =
     (case syscall_fn_from_name P io name of
        None \<Rightarrow> (Err (UnknownSyscallName name), vk)
      | Some f \<Rightarrow> f sctx vk)"

section \<open>The trap handlers\<close>

text \<open>The result of a handler: an error is logged and becomes 0.\<close>

definition result_or_zero :: "u64 vk_outcome \<times> ('u, 'h) Valkyrie \<Rightarrow> u64 vk_outcome \<times> ('u, 'h) Valkyrie" where
  "result_or_zero r = (case r of (Err _, vk) \<Rightarrow> (Ok 0, vk) | _ \<Rightarrow> r)"

definition handle_x86_syscall ::
  "('u, 'h) platform \<Rightarrow> (string \<Rightarrow> ('u, 'h) sys_fn) \<Rightarrow> u64 \<Rightarrow> u32 \<Rightarrow> ('u, 'h, unit) vk_call" where
  "handle_x86_syscall P io addr sz vk =
     (let step = (if sz = 0 then 2 else ucast sz :: u64) in
      and_then (mem_read P addr 2 vk) (\<lambda>insn vk.
      if insn \<noteq> [0xCD, 0x80] then (Ok (), vk)
      else
      and_then (get_reg P (VR_X86 RegX86.EAX) vk) (\<lambda>syscall_no vk.
      and_then (get_reg P (VR_X86 RegX86.EBX) vk) (\<lambda>a0 vk.
      and_then (get_reg P (VR_X86 RegX86.ECX) vk) (\<lambda>a1 vk.
      and_then (get_reg P (VR_X86 RegX86.EDX) vk) (\<lambda>a2 vk.
      and_then (get_reg P (VR_X86 RegX86.ESI) vk) (\<lambda>a3 vk.
      and_then (get_reg P (VR_X86 RegX86.EDI) vk) (\<lambda>a4 vk.
      and_then (get_reg P (VR_X86 RegX86.EBP) vk) (\<lambda>a5 vk.
      case syscall_name_from_no syscall_no (c_arch (cfg vk)) of
        Ok name \<Rightarrow>
          and_then (result_or_zero (dispatch_syscall_by_name P io name (subctx_new [a0, a1, a2, a3, a4, a5]) vk))
            (\<lambda>result vk.
          and_then (set_reg P (VR_X86 RegX86.EAX) result vk) (\<lambda>_ vk.
          and_then (set_reg P (VR_X86 RegX86.EIP) (sat_add addr step) vk) (\<lambda>_ vk. (Ok (), vk))))
      | _ \<Rightarrow>
          and_then (set_reg P (VR_X86 RegX86.EAX) 0 vk) (\<lambda>_ vk.
          and_then (set_reg P (VR_X86 RegX86.EIP) (sat_add addr step) vk) (\<lambda>_ vk. (Ok (), vk))))))))))))"

definition handle_x86_64_syscall ::
  "('u, 'h) platform \<Rightarrow> (string \<Rightarrow> ('u, 'h) sys_fn) \<Rightarrow> u64 \<Rightarrow> u32 \<Rightarrow> ('u, 'h, unit) vk_call" where
  "handle_x86_64_syscall P io addr sz vk =
     (let step = (if sz = 0 then 2 else ucast sz :: u64) in
      and_then (mem_read P addr 2 vk) (\<lambda>insn vk.
      if insn \<noteq> [0x0f, 0x05] then (Ok (), vk)
      else
      and_then (get_reg P (VR_X86_64 RegX86_64.RAX) vk) (\<lambda>syscall_no vk.
      and_then (get_reg P (VR_X86_64 RegX86_64.RDI) vk) (\<lambda>a0 vk.
      and_then (get_reg P (VR_X86_64 RegX86_64.RSI) vk) (\<lambda>a1 vk.
      and_then (get_reg P (VR_X86_64 RegX86_64.RDX) vk) (\<lambda>a2 vk.
      and_then (get_reg P (VR_X86_64 RegX86_64.R10) vk) (\<lambda>a3 vk.
      and_then (get_reg P (VR_X86_64 RegX86_64.R8) vk) (\<lambda>a4 vk.
      and_then (get_reg P (VR_X86_64 RegX86_64.R9) vk) (\<lambda>a5 vk.
      case syscall_name_from_no syscall_no (c_arch (cfg vk)) of
        Ok name \<Rightarrow>
          and_then (result_or_zero (dispatch_syscall_by_name P io name (subctx_new [a0, a1, a2, a3, a4, a5]) vk))
            (\<lambda>result vk.
          and_then (set_reg P (VR_X86_64 RegX86_64.RAX) result vk) (\<lambda>_ vk.
          and_then (set_reg P (VR_X86_64 RegX86_64.RIP) (sat_add addr step) vk) (\<lambda>_ vk. (Ok (), vk))))
      | _ \<Rightarrow>
          and_then (set_reg P (VR_X86_64 RegX86_64.RAX) 0 vk) (\<lambda>_ vk.
          and_then (set_reg P (VR_X86_64 RegX86_64.RIP) (sat_add addr step) vk) (\<lambda>_ vk. (Ok (), vk))))))))))))"

definition syscall_handler_for ::
  "('u, 'h) platform \<Rightarrow> (string \<Rightarrow> ('u, 'h) sys_fn) \<Rightarrow> Arch \<Rightarrow> (u64 \<Rightarrow> u32 \<Rightarrow> ('u, 'h, unit) vk_call) vk_outcome" where
  "syscall_handler_for P io a =
     (case find (\<lambda>(b, _). b = a) [(X86_64, handle_x86_64_syscall P io), (X86, handle_x86_syscall P io)] of
        Some (_, h) \<Rightarrow> Ok h
      | None \<Rightarrow> Err (UnsupportedArch a))"

section \<open>The lookup is exact\<close>

lemma bsearch_base_bounds: "0 < sz \<Longrightarrow> bsearch_base key x base sz < base + sz"
proof (induction key x base sz rule: bsearch_base.induct)
  case (1 key x base sz)
  then show ?case by (subst bsearch_base.simps) (fastforce simp: Let_def)
qed

lemma bsearch_base_finds:
  assumes mono: "\<And>j k. j < k \<Longrightarrow> k < n \<Longrightarrow> key j < key k" and "x = key i"
    and "base \<le> i" "i < base + sz" "base + sz \<le> n"
  shows "bsearch_base key x base sz = i"
  using assms(1-)
proof (induction key x base sz rule: bsearch_base.induct)
  case (1 key x base sz)
  show ?case
  proof (cases "sz \<le> 1")
    case True
    with 1 show ?thesis by (subst bsearch_base.simps) auto
  next
    case False
    let ?mid = "base + sz div 2"
    have "i < n" "?mid < n" using "1.prems" False by auto
    then have side: "x < key ?mid \<longleftrightarrow> i < ?mid"
      unfolding \<open>x = key i\<close> using "1.prems"(1) [of i ?mid] "1.prems"(1) [of ?mid i]
      by (cases i ?mid rule: linorder_cases) (auto dest: order_less_imp_not_less)
    have "bsearch_base key x (if x < key ?mid then base else ?mid) (sz - sz div 2) = i"
      using "1.prems" False side by (intro "1.IH") auto
    with False show ?thesis by (subst bsearch_base.simps) (simp add: Let_def)
  qed
qed

lemmas syscall_table_defs =
  SYSCALL_TABLE_X86_def SYSCALL_TABLE_X86_1_def SYSCALL_TABLE_X86_2_def SYSCALL_TABLE_X86_3_def
  SYSCALL_TABLE_X86_64_def SYSCALL_TABLE_X86_64_1_def SYSCALL_TABLE_X86_64_2_def SYSCALL_TABLE_X86_64_3_def

lemma sorted_table_x86: "sorted_wrt (<) (map fst SYSCALL_TABLE_X86)"
  by (simp add: syscall_table_defs sorted_wrt2 [OF transp_on_less] sorted_wrt1 del: sorted_wrt.simps(2))

lemma sorted_table_x86_64: "sorted_wrt (<) (map fst SYSCALL_TABLE_X86_64)"
  by (simp add: syscall_table_defs sorted_wrt2 [OF transp_on_less] sorted_wrt1 del: sorted_wrt.simps(2))

lemma binary_search_by_key_sorted:
  assumes sorted: "sorted_wrt (<) (map fst xs)"
  shows "(case binary_search_by_key k fst xs of None \<Rightarrow> None | Some i \<Rightarrow> Some (snd (xs ! i))) = map_of xs k"
proof (cases "xs = []")
  case False
  let ?key = "\<lambda>i. fst (xs ! i)"
  let ?b = "bsearch_base ?key k 0 (length xs)"
  have mono: "?key i < ?key j" if "i < j" "j < length xs" for i j
    using sorted_wrt_nth_less [OF sorted that(1)] that by simp
  have dist: "distinct (map fst xs)"
    using sorted strict_sorted_iff by auto
  have b: "?b < length xs" using bsearch_base_bounds [of "length xs" ?key k 0] False by simp
  show ?thesis
  proof (cases "?key ?b = k")
    case True
    with b dist have "map_of xs k = Some (snd (xs ! ?b))"
      by (metis map_of_is_SomeI nth_mem prod.collapse)
    with True False show ?thesis by (simp add: binary_search_by_key_def Let_def)
  next
    case miss: False
    have "k \<notin> fst ` set xs"
    proof
      assume "k \<in> fst ` set xs"
      then obtain i where i: "i < length xs" "k = ?key i" by (auto simp: in_set_conv_nth)
      from bsearch_base_finds [of "length xs" ?key, OF mono i(2)] i(1) have "?b = i" by simp
      with i miss show False by simp
    qed
    then have "map_of xs k = None" by (simp add: map_of_eq_None_iff)
    with miss False show ?thesis by (simp add: binary_search_by_key_def Let_def)
  qed
qed (simp add: binary_search_by_key_def)

lemma syscall_name_table:
  assumes "sorted_wrt (<) (map fst (case a of X86 \<Rightarrow> SYSCALL_TABLE_X86 | X86_64 \<Rightarrow> SYSCALL_TABLE_X86_64))"
  shows "syscall_name_from_no n a =
     (case map_of (case a of X86 \<Rightarrow> SYSCALL_TABLE_X86 | X86_64 \<Rightarrow> SYSCALL_TABLE_X86_64) n of
        Some name \<Rightarrow> Ok name
      | None \<Rightarrow> Err (UnknownSyscall n))"
  using binary_search_by_key_sorted [OF assms, of n, symmetric]
  by (cases a) (simp_all add: syscall_name_from_no_def Let_def split: option.split)

lemma syscall_name_from_no_is_lookup_x86:
  "syscall_name_from_no n X86 =
     (case map_of SYSCALL_TABLE_X86 n of Some name \<Rightarrow> Ok name | None \<Rightarrow> Err (UnknownSyscall n))"
  "syscall_name_from_no n X86_64 =
     (case map_of SYSCALL_TABLE_X86_64 n of Some name \<Rightarrow> Ok name | None \<Rightarrow> Err (UnknownSyscall n))"
  using syscall_name_table [of X86 n] syscall_name_table [of X86_64 n]
  by (simp_all add: sorted_table_x86 sorted_table_x86_64)

lemma syscall_name_from_no_member:
  "(n, name) \<in> set SYSCALL_TABLE_X86 \<Longrightarrow> syscall_name_from_no n X86 = Ok name"
  "(n, name) \<in> set SYSCALL_TABLE_X86_64 \<Longrightarrow> syscall_name_from_no n X86_64 = Ok name"
  using sorted_table_x86 sorted_table_x86_64
  by (auto simp: syscall_name_from_no_is_lookup_x86 strict_sorted_iff map_of_is_SomeI)

text \<open>
  C36: looking a system call number up is looking it up in the table of the architecture: the binary
  search finds the entry exactly when the table has one, and reports the number otherwise.
\<close>

theorem syscall_name_from_no_is_lookup:
  "syscall_name_from_no n a =
     (case map_of (case a of X86 \<Rightarrow> SYSCALL_TABLE_X86 | X86_64 \<Rightarrow> SYSCALL_TABLE_X86_64) n of
        Some name \<Rightarrow> Ok name
      | None \<Rightarrow> Err (UnknownSyscall n))"
  by (rule syscall_name_table) (cases a; simp add: sorted_table_x86 sorted_table_x86_64)

section \<open>A system call from trap to return\<close>

lemma and_then_get_reg:
  assumes "fst (get_reg P r vk) = Ok v"
  shows "and_then (get_reg P r vk) k = k v vk"
  using assms get_reg_same_state [of P r vk] by (cases "get_reg P r vk") auto

lemma and_then_mem_read:
  assumes "fst (mem_read P a n vk) = Ok v"
  shows "and_then (mem_read P a n vk) k = k v vk"
  using assms mem_read_same_state [of P a n vk] by (cases "mem_read P a n vk") auto

lemma and_then_set_reg_x86:
  "rg_arch (vregs vk) = X86 \<Longrightarrow>
     and_then (set_reg P (VR_X86 r) v vk) k = k () (snd (set_reg P (VR_X86 r) v vk))"
  by (simp add: set_reg_def)

lemma and_then_set_reg_x86_64:
  "rg_arch (vregs vk) = X86_64 \<Longrightarrow>
     and_then (set_reg P (VR_X86_64 r) v vk) k = k () (snd (set_reg P (VR_X86_64 r) v vk))"
  by (simp add: set_reg_def)

text \<open>The system call of a trap: its number and arguments in the registers of the ABI.\<close>

definition x86_trap :: "('u, 'h) platform \<Rightarrow> u64 \<Rightarrow> ('u, 'h) Valkyrie \<Rightarrow> u64 \<Rightarrow> u64 list \<Rightarrow> bool" where
  "x86_trap P addr vk no args \<longleftrightarrow> rg_arch (vregs vk) = X86
     \<and> fst (mem_read P addr 2 vk) = Ok [0xCD, 0x80]
     \<and> fst (get_reg P (VR_X86 RegX86.EAX) vk) = Ok no
     \<and> map (\<lambda>r. fst (get_reg P (VR_X86 r) vk)) [RegX86.EBX, RegX86.ECX, RegX86.EDX, RegX86.ESI,
          RegX86.EDI, RegX86.EBP] = map Ok args"

definition x86_64_trap :: "('u, 'h) platform \<Rightarrow> u64 \<Rightarrow> ('u, 'h) Valkyrie \<Rightarrow> u64 \<Rightarrow> u64 list \<Rightarrow> bool" where
  "x86_64_trap P addr vk no args \<longleftrightarrow> rg_arch (vregs vk) = X86_64
     \<and> fst (mem_read P addr 2 vk) = Ok [0x0f, 0x05]
     \<and> fst (get_reg P (VR_X86_64 RegX86_64.RAX) vk) = Ok no
     \<and> map (\<lambda>r. fst (get_reg P (VR_X86_64 r) vk)) [RegX86_64.RDI, RegX86_64.RSI, RegX86_64.RDX,
          RegX86_64.R10, RegX86_64.R8, RegX86_64.R9] = map Ok args"

abbreviation trap_step :: "u32 \<Rightarrow> u64" where
  "trap_step sz \<equiv> (if sz = 0 then 2 else ucast sz)"

abbreviation value_or_zero :: "u64 vk_outcome \<Rightarrow> u64" where
  "value_or_zero out \<equiv> (case out of Ok v \<Rightarrow> v | _ \<Rightarrow> 0)"

lemma six_args: "map Ok args = [x1, x2, x3, x4, x5, x6] \<Longrightarrow>
    \<exists>a b c d e f. args = [a, b, c, d, e, f] \<and> x1 = Ok a \<and> x2 = Ok b \<and> x3 = Ok c \<and> x4 = Ok d \<and> x5 = Ok e \<and> x6 = Ok f"
  by (auto simp: map_eq_Cons_conv)

lemma handle_x86_syscall_eq:
  assumes "x86_trap P addr vk no args"
  shows "handle_x86_syscall P io addr sz vk =
    (let finish = (\<lambda>result vk. and_then (set_reg P (VR_X86 RegX86.EAX) result vk) (\<lambda>_ vk.
          and_then (set_reg P (VR_X86 RegX86.EIP) (sat_add addr (trap_step sz)) vk) (\<lambda>_ vk. (Ok (), vk)))) in
     case syscall_name_from_no no (c_arch (cfg vk)) of
       Ok name \<Rightarrow> and_then (result_or_zero (dispatch_syscall_by_name P io name (subctx_new args) vk)) finish
     | _ \<Rightarrow> finish 0 vk)"
proof -
  note t = assms [unfolded x86_trap_def]
  from t obtain a b c d e f where a: "args = [a, b, c, d, e, f]"
    "fst (get_reg P (VR_X86 RegX86.EBX) vk) = Ok a" "fst (get_reg P (VR_X86 RegX86.ECX) vk) = Ok b"
    "fst (get_reg P (VR_X86 RegX86.EDX) vk) = Ok c" "fst (get_reg P (VR_X86 RegX86.ESI) vk) = Ok d"
    "fst (get_reg P (VR_X86 RegX86.EDI) vk) = Ok e" "fst (get_reg P (VR_X86 RegX86.EBP) vk) = Ok f"
    by (auto dest!: six_args [OF sym])
  show ?thesis
    using t a
    by (simp add: handle_x86_syscall_def Let_def and_then_get_reg and_then_mem_read del: and_then.simps
        cong: outcome.case_cong)
qed

lemma handle_x86_64_syscall_eq:
  assumes "x86_64_trap P addr vk no args"
  shows "handle_x86_64_syscall P io addr sz vk =
    (let finish = (\<lambda>result vk. and_then (set_reg P (VR_X86_64 RegX86_64.RAX) result vk) (\<lambda>_ vk.
          and_then (set_reg P (VR_X86_64 RegX86_64.RIP) (sat_add addr (trap_step sz)) vk) (\<lambda>_ vk. (Ok (), vk)))) in
     case syscall_name_from_no no (c_arch (cfg vk)) of
       Ok name \<Rightarrow> and_then (result_or_zero (dispatch_syscall_by_name P io name (subctx_new args) vk)) finish
     | _ \<Rightarrow> finish 0 vk)"
proof -
  note t = assms [unfolded x86_64_trap_def]
  from t obtain a b c d e f where a: "args = [a, b, c, d, e, f]"
    "fst (get_reg P (VR_X86_64 RegX86_64.RDI) vk) = Ok a" "fst (get_reg P (VR_X86_64 RegX86_64.RSI) vk) = Ok b"
    "fst (get_reg P (VR_X86_64 RegX86_64.RDX) vk) = Ok c" "fst (get_reg P (VR_X86_64 RegX86_64.R10) vk) = Ok d"
    "fst (get_reg P (VR_X86_64 RegX86_64.R8) vk) = Ok e" "fst (get_reg P (VR_X86_64 RegX86_64.R9) vk) = Ok f"
    by (auto dest!: six_args [OF sym])
  show ?thesis
    using t a
    by (simp add: handle_x86_64_syscall_def Let_def and_then_get_reg and_then_mem_read del: and_then.simps
        cong: outcome.case_cong)
qed

lemma set_reg_regions [simp]: "regions (snd (set_reg P r v vk)) = regions vk"
  by (auto simp: set_reg_def set_reg_x86_def set_reg_x86_64_def uc_do_uc split: Arch.split VRegister.split)

lemma finish_x86:
  assumes "engine_regs P (to_uc_x86 ` R) 32" "{RegX86.EAX, RegX86.EIP} \<subseteq> R" "rg_arch (vregs vk) = X86"
  shows "\<exists>vk'. and_then (set_reg P (VR_X86 RegX86.EAX) result vk) (\<lambda>_ vk.
            and_then (set_reg P (VR_X86 RegX86.EIP) pc vk) (\<lambda>_ vk. (Ok (), vk))) = (Ok (), vk')
    \<and> fst (get_reg P (VR_X86 RegX86.EAX) vk') = Ok (take_bit 32 result)
    \<and> fst (get_reg P (VR_X86 RegX86.EIP) vk') = Ok (take_bit 32 pc)
    \<and> (\<forall>r \<in> R - {RegX86.EAX, RegX86.EIP}. fst (get_reg P (VR_X86 r) vk') = fst (get_reg P (VR_X86 r) vk))
    \<and> regions vk' = regions vk"
  using assms by (simp add: and_then_set_reg_x86 set_get_x86 [OF assms(1)] del: and_then.simps)

lemma finish_x86_64:
  assumes "engine_regs P (to_uc_x86_64 ` R) 64" "{RegX86_64.RAX, RegX86_64.RIP} \<subseteq> R" "rg_arch (vregs vk) = X86_64"
  shows "\<exists>vk'. and_then (set_reg P (VR_X86_64 RegX86_64.RAX) result vk) (\<lambda>_ vk.
            and_then (set_reg P (VR_X86_64 RegX86_64.RIP) pc vk) (\<lambda>_ vk. (Ok (), vk))) = (Ok (), vk')
    \<and> fst (get_reg P (VR_X86_64 RegX86_64.RAX) vk') = Ok result
    \<and> fst (get_reg P (VR_X86_64 RegX86_64.RIP) vk') = Ok pc
    \<and> (\<forall>r \<in> R - {RegX86_64.RAX, RegX86_64.RIP}. fst (get_reg P (VR_X86_64 r) vk') = fst (get_reg P (VR_X86_64 r) vk))
    \<and> regions vk' = regions vk"
  using assms by (simp add: and_then_set_reg_x86_64 set_get_x86_64 [OF assms(1)] del: and_then.simps)

text \<open>A reference machine stopped on a trap: the opcode at 0x400000, the number and arguments given.\<close>

definition ref_trap :: "Arch \<Rightarrow> u8 \<Rightarrow> u8 \<Rightarrow> (RegisterX86 \<Rightarrow> u64) \<Rightarrow> (ref_state, unit) Valkyrie" where
  "ref_trap a b0 b1 rs = (ref_vk a)\<lparr>uc := (uc (ref_vk a))\<lparr>
     ref_content := (\<lambda>x. if x = 0x400000 then b0 else b1), ref_regs := rs\<rparr>\<rparr>"

lemma ref_trap_sel [simp]:
  "regions (ref_trap a b c rs) = ref_regions" "cfg (ref_trap a b c rs) = ref_cfg a"
  "varch (ref_trap a b c rs) = varch_new a"
  by (simp_all add: ref_trap_def)

lemma ref_trap_sync: "in_sync ref_view (ref_trap a b c rs)"
  by (rule in_sync_cong [OF ref_in_sync]) (simp_all add: ref_trap_def)

lemma ref_get_reg:
  "fst (get_reg ref_engine (VR_X86 r) (ref_trap X86 b c rs)) = Ok (take_bit 32 (rs (to_uc_x86 r)))"
  "fst (get_reg ref_engine (VR_X86_64 q) (ref_trap X86_64 b c rs)) = Ok (rs (to_uc_x86_64 q))"
  by (simp_all add: get_reg_def get_reg_x86_def get_reg_x86_64_def ref_trap_def ref_engine_def
      low32_take_bit)

lemma ref_x86_trap:
  "x86_trap ref_engine 0x400000 (ref_trap X86 0xCD 0x80 rs) (take_bit 32 (rs RegisterX86.EAX))
     (map (\<lambda>r. take_bit 32 (rs r)) [RegisterX86.EBX, RegisterX86.ECX, RegisterX86.EDX,
        RegisterX86.ESI, RegisterX86.EDI, RegisterX86.EBP])"
  by (simp add: x86_trap_def ref_get_reg) (simp add: mem_read_def ref_engine_def ref_trap_def upt_rec)

lemma ref_x86_64_trap:
  "x86_64_trap ref_engine 0x400000 (ref_trap X86_64 0x0f 0x05 rs) (rs RegisterX86.RAX)
     (map rs [RegisterX86.RDI, RegisterX86.RSI, RegisterX86.RDX, RegisterX86.R10,
        RegisterX86.R8, RegisterX86.R9])"
  by (simp add: x86_64_trap_def ref_get_reg) (simp add: mem_read_def ref_engine_def ref_trap_def upt_rec)

text \<open>
  C19: a trap of a known number on i386 runs the handler of its name on the six argument registers; a
  handler that returns a value, or an error (which counts as 0), leaves it in \<open>eax\<close>, advances \<open>eip\<close>
  past the instruction and changes no other register of the guest and no region.
\<close>

theorem handle_x86_syscall_returns:
  assumes "engine_regs P (to_uc_x86 ` R) 32" "{RegX86.EAX, RegX86.EIP} \<subseteq> R"
    and trap: "x86_trap P addr vk no args" and name: "syscall_name_from_no no (c_arch (cfg vk)) = Ok name"
    and ran: "dispatch_syscall_by_name P io name (subctx_new args) vk = (out, vk1)"
    and "out \<noteq> Panic" "out \<noteq> Diverges" "rg_arch (vregs vk1) = X86"
  shows "\<exists>vk'. handle_x86_syscall P io addr sz vk = (Ok (), vk')
    \<and> fst (get_reg P (VR_X86 RegX86.EAX) vk') = Ok (take_bit 32 (value_or_zero out))
    \<and> fst (get_reg P (VR_X86 RegX86.EIP) vk') = Ok (take_bit 32 (sat_add addr (trap_step sz)))
    \<and> (\<forall>r \<in> R - {RegX86.EAX, RegX86.EIP}. fst (get_reg P (VR_X86 r) vk') = fst (get_reg P (VR_X86 r) vk1))
    \<and> regions vk' = regions vk1"
proof -
  have "result_or_zero (out, vk1) = (Ok (value_or_zero out), vk1)"
    using assms(6,7) by (simp add: result_or_zero_def split: outcome.split)
  then show ?thesis
    using finish_x86 [OF assms(1,2,8)] by (simp only: handle_x86_syscall_eq [OF trap] name ran Let_def
        outcome.case and_then.simps(1))
qed

text \<open>
  C20: the same on x86_64, with \<open>rax\<close> and \<open>rip\<close> at their full width.
\<close>

theorem handle_x86_64_syscall_returns:
  assumes "engine_regs P (to_uc_x86_64 ` R) 64" "{RegX86_64.RAX, RegX86_64.RIP} \<subseteq> R"
    and trap: "x86_64_trap P addr vk no args" and name: "syscall_name_from_no no (c_arch (cfg vk)) = Ok name"
    and ran: "dispatch_syscall_by_name P io name (subctx_new args) vk = (out, vk1)"
    and "out \<noteq> Panic" "out \<noteq> Diverges" "rg_arch (vregs vk1) = X86_64"
  shows "\<exists>vk'. handle_x86_64_syscall P io addr sz vk = (Ok (), vk')
    \<and> fst (get_reg P (VR_X86_64 RegX86_64.RAX) vk') = Ok (value_or_zero out)
    \<and> fst (get_reg P (VR_X86_64 RegX86_64.RIP) vk') = Ok (sat_add addr (trap_step sz))
    \<and> (\<forall>r \<in> R - {RegX86_64.RAX, RegX86_64.RIP}. fst (get_reg P (VR_X86_64 r) vk') = fst (get_reg P (VR_X86_64 r) vk1))
    \<and> regions vk' = regions vk1"
proof -
  have "result_or_zero (out, vk1) = (Ok (value_or_zero out), vk1)"
    using assms(6,7) by (simp add: result_or_zero_def split: outcome.split)
  then show ?thesis
    using finish_x86_64 [OF assms(1,2,8)] by (simp only: handle_x86_64_syscall_eq [OF trap] name ran Let_def
        outcome.case and_then.simps(1))
qed

text \<open>
  A number that is in no table does not reach a handler: on either architecture the call returns 0,
  not \<open>-ENOSYS\<close>, and execution goes on after the instruction.
\<close>

theorem unknown_syscall_returns_zero:
  assumes "engine_regs P (to_uc_x86 ` R) 32" "{RegX86.EAX, RegX86.EIP} \<subseteq> R"
    and trap: "x86_trap P addr vk no args"
    and "c_arch (cfg vk) = X86" "map_of SYSCALL_TABLE_X86 no = None"
  shows "\<exists>vk'. handle_x86_syscall P io addr sz vk = (Ok (), vk')
    \<and> fst (get_reg P (VR_X86 RegX86.EAX) vk') = Ok 0
    \<and> fst (get_reg P (VR_X86 RegX86.EIP) vk') = Ok (take_bit 32 (sat_add addr (trap_step sz)))
    \<and> regions vk' = regions vk"
proof -
  have name: "syscall_name_from_no no (c_arch (cfg vk)) = Err (UnknownSyscall no)"
    using assms(4,5) by (simp add: syscall_name_from_no_is_lookup_x86)
  show ?thesis
    using finish_x86 [OF assms(1,2), of vk 0] trap
    by (auto simp only: handle_x86_syscall_eq [OF trap] name Let_def outcome.case x86_trap_def take_bit_of_0)
qed

theorem unknown_syscall_returns_zero_witness:
  "\<exists>vk'. handle_x86_syscall ref_engine (\<lambda>_ _ vk. (Ok 0, vk)) 0x400000 2
      (ref_trap X86 0xCD 0x80 (\<lambda>_. 999)) = (Ok (), vk')
    \<and> fst (get_reg ref_engine (VR_X86 RegX86.EAX) vk') = Ok 0
    \<and> fst (get_reg ref_engine (VR_X86 RegX86.EIP) vk') = Ok 0x400002"
proof -
  have "list_all (\<lambda>p. fst p \<noteq> 999) SYSCALL_TABLE_X86"
    by (simp add: syscall_table_defs)
  then have none: "map_of SYSCALL_TABLE_X86 (take_bit 32 999) = None"
    by (auto simp: map_of_eq_None_iff list_all_iff)
  have arch: "c_arch (cfg (ref_trap X86 0xCD 0x80 (\<lambda>_. 999))) = X86" by simp
  show ?thesis
    using unknown_syscall_returns_zero [OF ref_engine_regs [of "range to_uc_x86"] subset_UNIV
        ref_x86_trap arch none, of "\<lambda>_ _ vk. (Ok 0, vk)" 2]
    by (auto simp: sat_add_def)
qed

theorem handle_x86_syscall_returns_witness:
  "\<exists>vk'. handle_x86_syscall ref_engine (\<lambda>_ _ vk. (Ok 0, vk)) 0x400000 2
      (ref_trap X86 0xCD 0x80 (\<lambda>_. 20)) = (Ok (), vk')
    \<and> fst (get_reg ref_engine (VR_X86 RegX86.EAX) vk') = Ok 100
    \<and> fst (get_reg ref_engine (VR_X86 RegX86.EIP) vk') = Ok 0x400002"
proof -
  let ?vk = "ref_trap X86 0xCD 0x80 (\<lambda>_. 20)" and ?io = "\<lambda>_ _ vk. (Ok 0, vk)"
  have "(20, ''getpid'') \<in> set SYSCALL_TABLE_X86"
    by (simp add: syscall_table_defs)
  then have name: "syscall_name_from_no 20 (c_arch (cfg ?vk)) = Ok ''getpid''"
    by (simp add: syscall_name_from_no_member)
  have ran: "dispatch_syscall_by_name ref_engine ?io ''getpid'' s ?vk = (Ok 100, ?vk)" for s
    by (simp add: dispatch_syscall_by_name_def syscall_fn_from_name_def SYSCALL_TABLE_MAPPER_def
        sys_getpid_def ref_engine_def)
  show ?thesis
    using handle_x86_syscall_returns [OF ref_engine_regs [of "range to_uc_x86"] _
        ref_x86_trap [of "\<lambda>_. 20"], of "''getpid''" ?io "Ok 100" ?vk 2] name ran
    by (auto simp: sat_add_def)
qed

theorem handle_x86_64_syscall_returns_witness:
  "\<exists>vk'. handle_x86_64_syscall ref_engine (\<lambda>_ _ vk. (Ok 0, vk)) 0x400000 2
      (ref_trap X86_64 0x0f 0x05 (\<lambda>_. 39)) = (Ok (), vk')
    \<and> fst (get_reg ref_engine (VR_X86_64 RegX86_64.RAX) vk') = Ok 100
    \<and> fst (get_reg ref_engine (VR_X86_64 RegX86_64.RIP) vk') = Ok 0x400002"
proof -
  let ?vk = "ref_trap X86_64 0x0f 0x05 (\<lambda>_. 39)" and ?io = "\<lambda>_ _ vk. (Ok 0, vk)"
  have "(39, ''getpid'') \<in> set SYSCALL_TABLE_X86_64"
    by (simp add: syscall_table_defs)
  then have name: "syscall_name_from_no 39 (c_arch (cfg ?vk)) = Ok ''getpid''"
    by (simp add: syscall_name_from_no_member)
  have ran: "dispatch_syscall_by_name ref_engine ?io ''getpid'' s ?vk = (Ok 100, ?vk)" for s
    by (simp add: dispatch_syscall_by_name_def syscall_fn_from_name_def SYSCALL_TABLE_MAPPER_def
        sys_getpid_def ref_engine_def)
  show ?thesis
    using handle_x86_64_syscall_returns [OF ref_engine_regs [of "range to_uc_x86_64"] _
        ref_x86_64_trap [of "\<lambda>_. 39"], of "''getpid''" ?io "Ok 100" ?vk 2] name ran
    by (auto simp: sat_add_def)
qed

end
