(* ===== verification/Vk_Run.thy ===== *)
theory Vk_Run
  imports Vk_Dispatch
begin

text \<open>
  Runs of a guest: its own instructions, which change the engine but not its memory map, interleaved with
  the traps the emulator serves. The agreement between the region list and the engine's map is an
  invariant of runs whose mapping calls stay clear of the two flaws found in \<open>mmap\<close> and \<open>mprotect\<close>.
\<close>

section \<open>The memory calls keep the agreement\<close>

lemma sys_munmap_sync:
  assumes "engine_maps P view" "in_sync view vk"
  shows "in_sync view (snd (sys_munmap P s vk))"
proof -
  obtain res u' where call: "uc_mem_unmap P (arg0 s) (align_up (arg1 s) PAGE_SIZE) (uc vk) = (res, u')"
    by fastforce
  then show ?thesis
    using assms unmap_sync [OF assms] engine_refused(2) [OF assms(1)]
    by (cases res) (auto simp: sys_munmap_def Let_def intro: in_sync_cong)
qed

lemma sys_brk_sync:
  assumes "engine_maps P view" "in_sync view vk"
  shows "in_sync view (snd (sys_brk P s vk))"
proof -
  have mapped: "in_sync view (snd (mem_map P a (sat_sub b a) Prot_ALL HEAP vk))" if "sat_sub b a > 0" for a b
  proof -
    have "a < b" using that by (simp add: word_less_nat_alt unat_sat_sub)
    then have "unat a + unat (sat_sub b a) = unat b"
      by (simp add: unat_sat_sub word_less_nat_alt)
    moreover have "unat b < 2 ^ 64" using unsigned_less [of b] by simp
    ultimately have "unat a + unat (sat_sub b a) \<noteq> 2 ^ 64" by linarith
    from mem_map_spec' [OF assms this, of Prot_ALL HEAP] show ?thesis
      by (auto split: prod.splits outcome.splits)
  qed
  have keep: "in_sync view (v\<lparr>vmem := (vmem v)\<lparr>heap_addr_exit := b\<rparr>\<rparr>)" if "in_sync view v" for v b
    using that by (rule in_sync_cong) simp_all
  have "in_sync view (snd (and_then (if c then let a = f; n = sat_sub b a in
      if n > 0 then mem_map P a n Prot_ALL HEAP vk else (Ok (), vk) else (Ok (), vk))
    (\<lambda>_ vk. (Ok b, vk\<lparr>vmem := (vmem vk)\<lparr>heap_addr_exit := b\<rparr>\<rparr>))))" for c f b
    using assms(2) by (intro and_then_keeps [where P = "in_sync view"]) (simp_all add: Let_def mapped keep)
  then show ?thesis
    using assms(2) by (simp add: sys_brk_def Let_def)
qed

text \<open>A mapping call is clear when its range does not end at the top of the address space and, if fixed, is
  wholly mapped or wholly free.\<close>

definition mmap_clear :: "('u, 'h) platform \<Rightarrow> SubCtx \<Rightarrow> ('u, 'h) Valkyrie \<Rightarrow> bool" where
  "mmap_clear P s vk \<longleftrightarrow>
     (let n = align_up (arg1 s) PAGE_SIZE; fixed = ((ucast (arg3 s) :: i32) AND MAP_FIXED \<noteq> 0) in
      \<forall>a. (if arg0 s = 0 \<or> \<not> fixed then next_mmap_addr (regions vk) (heap_addr_exit (vmem vk)) n
            else Some (arg0 s)) = Some a \<longrightarrow>
        unat a + unat n \<noteq> 2 ^ 64
        \<and> (fixed \<longrightarrow> fst (uc_mem_unmap P a n (uc vk)) = Inr () \<or> book.free (regions vk) a n))"

definition mprotect_clear :: "SubCtx \<Rightarrow> ('u, 'h) Valkyrie \<Rightarrow> bool" where
  "mprotect_clear s vk \<longleftrightarrow>
     no_part (align_down (arg0 s) PAGE_SIZE) (align_up (sat_add (arg0 s) (arg1 s)) PAGE_SIZE) (regions vk)"

lemma next_mmap_addr_aligned:
  "next_mmap_addr rs e n = Some a \<Longrightarrow> unat a mod 4096 = 0"
  unfolding next_mmap_addr_def
  by (drule mmap_search_rule [where I = "\<lambda>c. unat c mod 4096 = 0"]) (simp_all add: align_up_aligned)

lemma mem_map_sync:
  assumes "engine_maps P view" "in_sync view vk" "unat a + unat n \<noteq> 2 ^ 64"
  shows "in_sync view (snd (mem_map P a n p i vk))"
  using mem_map_spec' [OF assms, of p i] by (cases "mem_map P a n p i vk") (auto split: outcome.splits)

lemma map_file_bytes_frame [map_frame]:
  "engine_maps P view \<Longrightarrow> keeps_map view v0 vk \<Longrightarrow> keeps_map view v0 (snd (map_file_bytes P a n fd off vk))"
  by (auto simp: map_file_bytes_def split: option.split prod.split bool.split intro!: map_frame)

lemma sys_mmap_sync:
  assumes laws: "engine_maps P view" and sync: "in_sync view vk" and clear: "mmap_clear P s vk"
  shows "in_sync view (snd (sys_mmap P s vk))"
proof -
  let ?n = "align_up (arg1 s) PAGE_SIZE" and ?fixed = "(ucast (arg3 s) :: i32) AND MAP_FIXED \<noteq> 0"
  let ?target = "if arg0 s = 0 \<or> \<not> ?fixed then next_mmap_addr (regions vk) (heap_addr_exit (vmem vk)) ?n
            else Some (arg0 s)"
  let ?cut = "\<lambda>a. if ?fixed then set_regions (remove_range (regions vk) a ?n)
      (vk\<lparr>uc := snd (uc_mem_unmap P a ?n (uc vk))\<rparr>) else vk"
  consider (early) "arg1 s = 0 \<or> \<not> is_multiple_of (arg0 s) PAGE_SIZE" | (none) "?target = None"
    | (found) a where "arg1 s \<noteq> 0" "is_multiple_of (arg0 s) PAGE_SIZE" "?target = Some a" by blast
  then show ?thesis
  proof cases
    case early
    then show ?thesis using sync by (auto simp: sys_mmap_def Let_def)
  next
    case none
    then show ?thesis using sync by (simp add: sys_mmap_def Let_def)
  next
    case (found a)
    have aligned: "unat a mod 4096 = 0"
      using found(2,3) next_mmap_addr_aligned [of "regions vk" "heap_addr_exit (vmem vk)" ?n a]
      by (auto simp: multiple_of_page split: if_splits)
    have c: "unat a + unat ?n \<noteq> 2 ^ 64"
      "?fixed \<longrightarrow> fst (uc_mem_unmap P a ?n (uc vk)) = Inr () \<or> book.free (regions vk) a ?n"
      using clear found(3) by (simp_all add: mmap_clear_def Let_def)
    have cut: "in_sync view (?cut a)"
      using c(2) sync unmap_fixed_sync [OF laws sync aligned] by simp
    obtain r vk' where m: "mem_map P a ?n (prot_from_flags (ucast (arg2 s))) ''[mmap]'' (?cut a) = (r, vk')"
      by (rule prod.exhaust)
    then have after: "in_sync view vk'"
      using mem_map_sync [OF laws cut c(1)] by (metis snd_conv)
    have filled: "in_sync view (snd (and_then (map_file_bytes P a ?n fd off vk')
        (\<lambda>result vk. if result \<noteq> 0 then (Ok result, vk) else (Ok a, vk))))" for fd off
      by (rule keeps_map_sync [OF _ after]) (auto intro!: map_frame laws)
    show ?thesis
      using found m after filled by (cases r) (simp_all add: sys_mmap_def Let_def)
  qed
qed

lemma sys_mprotect_sync:
  assumes laws: "engine_maps P view" and sync: "in_sync view vk" and clear: "mprotect_clear s vk"
  shows "in_sync view (snd (sys_mprotect P s vk))"
proof -
  let ?start = "align_down (arg0 s) PAGE_SIZE" and ?stop = "align_up (sat_add (arg0 s) (arg1 s)) PAGE_SIZE"
  let ?n = "sat_sub ?stop ?start" and ?p = "prot_from_flags (ucast (arg2 s))"
  have rok: "regions_ok (regions vk)" and pgd: "paged (regions vk)"
    using sync by (simp_all add: in_sync_def)
  note at = protect_regions_whole [OF rok clear [unfolded mprotect_clear_def]]
  obtain res u' where call: "uc_mem_protect P ?start ?n ?p (uc vk) = (res, u')" by fastforce
  show ?thesis
  proof (cases res)
    case (Inl e)
    then show ?thesis
      using call engine_refused(3) [OF laws] sync
      by (auto simp: sys_mprotect_def Let_def uc_do_def intro: in_sync_cong)
  next
    case (Inr y)
    then have view: "view u' = (\<lambda>x. if in_range ?start (unat ?n) x then Some ?p else view (uc vk) x)"
      and mapped: "\<And>x. in_range ?start (unat ?n) x \<Longrightarrow> region_at (regions vk) x \<noteq> None"
      using engine_protect_done [OF laws] call sync in_sync_view by blast+
    have range: "in_range ?start (unat ?n) x \<longleftrightarrow> unat ?start \<le> x \<and> x < unat ?stop" for x
      by (auto simp: unat_sat_sub)
    have "view u' x = map_option fst (region_at (protect_regions ?start ?stop ?p (regions vk)) x)" for x
      using view mapped [of x] sync by (auto simp: at range in_sync_def)
    then show ?thesis
      using Inr call sync rok pgd
      by (auto simp: sys_mprotect_def Let_def uc_do_def in_sync_def protect_regions_ok fun_eq_iff)
  qed
qed

section \<open>Dispatch keeps the agreement\<close>

definition call_clear :: "('u, 'h) platform \<Rightarrow> string \<Rightarrow> SubCtx \<Rightarrow> ('u, 'h) Valkyrie \<Rightarrow> bool" where
  "call_clear P name s vk \<longleftrightarrow>
     (if name = ''mmap'' then mmap_clear P s vk
      else if name = ''mmap2'' then mmap_clear P (subctx_new [arg0 s, arg1 s, arg2 s, arg3 s, arg4 s,
        sat_mul (arg5 s) PAGE_SIZE]) vk
      else if name = ''mprotect'' then mprotect_clear s vk
      else True)"

text \<open>What is asked of the handlers that are not modelled: they leave the memory map alone.\<close>

definition io_keeps_map ::
  "('u \<Rightarrow> nat \<Rightarrow> Prot option) \<Rightarrow> (string \<Rightarrow> ('u, 'h) sys_fn) \<Rightarrow> bool" where
  "io_keeps_map view io \<longleftrightarrow> (\<forall>f s vk. keeps_map view vk (snd (io f s vk)))"

lemma dispatch_sync:
  assumes laws: "engine_maps P view" and io: "io_keeps_map view io"
    and sync: "in_sync view vk" and clear: "call_clear P name s vk"
  shows "in_sync view (snd (dispatch_syscall_by_name P io name s vk))"
proof (cases "syscall_fn_from_name P io name")
  case None
  then show ?thesis using sync by (simp add: dispatch_syscall_by_name_def)
next
  case (Some f)
  let ?good = "\<lambda>(n, g). call_clear P n s vk \<longrightarrow> in_sync view (snd (g s vk))"
  have "in_sync view (snd (io f s vk))" for f s
    using io sync by (auto simp: io_keeps_map_def intro: keeps_map_sync)
  then have "list_all ?good (SYSCALL_TABLE_MAPPER P io)"
    using sync
    by (simp add: SYSCALL_TABLE_MAPPER_def call_clear_def sys_mmap2_def
        sys_brk_sync [OF laws] sys_munmap_sync [OF laws] sys_mmap_sync [OF laws] sys_mprotect_sync [OF laws]
        sys_process_frame [OF laws, THEN keeps_map_sync] sys_clock_frame [OF laws, THEN keeps_map_sync]
        sys_limit_frame [OF laws, THEN keeps_map_sync] sys_prctl_frame [OF laws, THEN keeps_map_sync]
        sys_arch_prctl_frame [OF laws, THEN keeps_map_sync] sys_signal_frame [OF laws, THEN keeps_map_sync]
        sys_thread_frame [OF laws, THEN keeps_map_sync] sys_set_thread_area_frame [OF laws, THEN keeps_map_sync]
        keeps_map_sync)
  moreover have "(name, f) \<in> set (SYSCALL_TABLE_MAPPER P io)"
    using Some by (auto simp: syscall_fn_from_name_def find_Some_iff) (metis nth_mem)
  ultimately show ?thesis
    using Some clear by (auto simp: list_all_iff dispatch_syscall_by_name_def)
qed

lemma and_then_reg_cases:
  "and_then (get_reg P r vk) k = (case fst (get_reg P r vk) of Ok v \<Rightarrow> k v vk
     | Err e \<Rightarrow> (Err e, vk) | Panic \<Rightarrow> (Panic, vk) | Diverges \<Rightarrow> (Diverges, vk))"
  using get_reg_same_state [of P r vk] by (cases "(get_reg P r vk, k)" rule: and_then.cases) auto

lemma and_then_read_cases:
  "and_then (mem_read P a n vk) k = (case fst (mem_read P a n vk) of Ok v \<Rightarrow> k v vk
     | Err e \<Rightarrow> (Err e, vk) | Panic \<Rightarrow> (Panic, vk) | Diverges \<Rightarrow> (Diverges, vk))"
  using mem_read_same_state [of P a n vk] by (cases "(mem_read P a n vk, k)" rule: and_then.cases) auto

lemma get_reg_Ok_arch:
  "fst (get_reg P (VR_X86 r) vk) = Ok v \<Longrightarrow> rg_arch (vregs vk) = X86"
  "fst (get_reg P (VR_X86_64 q) vk) = Ok v \<Longrightarrow> rg_arch (vregs vk) = X86_64"
  by (simp_all add: get_reg_def split: Arch.splits)

lemma map_Ok_6: "\<exists>args. [Ok a, Ok b, Ok c, Ok d, Ok e, Ok f] = map Ok args"
  by (rule exI [of _ "[a, b, c, d, e, f]"]) simp

text \<open>A handler that does not find a trap of its architecture changes nothing.\<close>

lemma handle_x86_syscall_idle:
  "(\<exists>no args. x86_trap P addr vk no args) \<or> snd (handle_x86_syscall P io addr sz vk) = vk"
  unfolding handle_x86_syscall_def Let_def and_then_reg_cases and_then_read_cases x86_trap_def
  by (auto split: outcome.splits simp: map_Ok_6 dest: get_reg_Ok_arch)

lemma handle_x86_64_syscall_idle:
  "(\<exists>no args. x86_64_trap P addr vk no args) \<or> snd (handle_x86_64_syscall P io addr sz vk) = vk"
  unfolding handle_x86_64_syscall_def Let_def and_then_reg_cases and_then_read_cases x86_64_trap_def
  by (auto split: outcome.splits simp: map_Ok_6 dest: get_reg_Ok_arch)

lemma result_or_zero_state [simp]: "snd (result_or_zero r) = snd r"
  by (simp add: result_or_zero_def split: prod.split outcome.split)

text \<open>The call a trap makes is clear.\<close>

definition trap_clear :: "('u, 'h) platform \<Rightarrow> u64 \<Rightarrow> ('u, 'h) Valkyrie \<Rightarrow> bool" where
  "trap_clear P addr vk \<longleftrightarrow> (\<forall>no args name.
     (x86_trap P addr vk no args \<or> x86_64_trap P addr vk no args)
     \<and> syscall_name_from_no no (c_arch (cfg vk)) = Ok name \<longrightarrow> call_clear P name (subctx_new args) vk)"

lemma handle_x86_syscall_sync:
  assumes laws: "engine_maps P view" and io: "io_keeps_map view io"
    and sync: "in_sync view vk" and clear: "trap_clear P addr vk"
  shows "in_sync view (snd (handle_x86_syscall P io addr sz vk))"
proof (cases "\<exists>no args. x86_trap P addr vk no args")
  case True
  then obtain no args where t: "x86_trap P addr vk no args" by blast
  have disp: "in_sync view (snd (dispatch_syscall_by_name P io name (subctx_new args) vk))"
    if "syscall_name_from_no no (c_arch (cfg vk)) = Ok name" for name
    using clear t that by (intro dispatch_sync [OF laws io sync]) (auto simp: trap_clear_def)
  show ?thesis
    unfolding handle_x86_syscall_eq [OF t] Let_def
    by (auto split: outcome.split simp: disp sync
        intro!: and_then_keeps [where P = "in_sync view"] set_reg_sync [OF laws])
qed (use sync handle_x86_syscall_idle [of P addr vk] in auto)

lemma handle_x86_64_syscall_sync:
  assumes laws: "engine_maps P view" and io: "io_keeps_map view io"
    and sync: "in_sync view vk" and clear: "trap_clear P addr vk"
  shows "in_sync view (snd (handle_x86_64_syscall P io addr sz vk))"
proof (cases "\<exists>no args. x86_64_trap P addr vk no args")
  case True
  then obtain no args where t: "x86_64_trap P addr vk no args" by blast
  have disp: "in_sync view (snd (dispatch_syscall_by_name P io name (subctx_new args) vk))"
    if "syscall_name_from_no no (c_arch (cfg vk)) = Ok name" for name
    using clear t that by (intro dispatch_sync [OF laws io sync]) (auto simp: trap_clear_def)
  show ?thesis
    unfolding handle_x86_64_syscall_eq [OF t] Let_def
    by (auto split: outcome.split simp: disp sync
        intro!: and_then_keeps [where P = "in_sync view"] set_reg_sync [OF laws])
qed (use sync handle_x86_64_syscall_idle [of P addr vk] in auto)

section \<open>Runs\<close>

text \<open>
  The guest's own instructions change registers and contents; a trap at any address is served by the
  handler installed for the configured architecture, whatever it returns.
\<close>

inductive guest_run ::
  "('u, 'h) platform \<Rightarrow> (string \<Rightarrow> ('u, 'h) sys_fn) \<Rightarrow> ('u \<Rightarrow> nat \<Rightarrow> Prot option)
     \<Rightarrow> ('u, 'h) Valkyrie \<Rightarrow> ('u, 'h) Valkyrie \<Rightarrow> bool"
  for P io view where
  stay: "guest_run P io view vk vk"
| exec: "guest_run P io view vk vk1 \<Longrightarrow> view u = view (uc vk1) \<Longrightarrow> guest_run P io view vk (vk1\<lparr>uc := u\<rparr>)"
| trap: "guest_run P io view vk vk1 \<Longrightarrow> syscall_handler_for P io (c_arch (cfg vk1)) = Ok handler
     \<Longrightarrow> trap_clear P addr vk1 \<Longrightarrow> guest_run P io view vk (snd (handler addr sz vk1))"

inductive_cases guest_runE: "guest_run P io view vk vk'"

text \<open>
  C2: along any run, however long, in which every \<open>mmap\<close> and \<open>mprotect\<close> is clear of the flaws above, the
  region list and the engine's memory map agree on every address after every step.
\<close>

theorem guest_run_keeps_sync:
  assumes "guest_run P io view vk vk'" "engine_maps P view" "io_keeps_map view io" "in_sync view vk"
  shows "in_sync view vk'"
  using assms
proof (induction rule: guest_run.induct)
  case (exec vk vk1 u)
  then show ?case by (auto intro: in_sync_cong)
next
  case (trap vk vk1 handler addr sz)
  then show ?case
    by (auto simp: syscall_handler_for_def handle_x86_syscall_sync handle_x86_64_syscall_sync
        split: if_splits)
qed

theorem guest_run_keeps_sync_witness:
  "in_sync ref_view (snd (handle_x86_syscall ref_engine (\<lambda>_ _ vk. (Ok 0, vk)) 0x400000 2
     (ref_trap X86 0xCD 0x80 (\<lambda>_. 45))))"
proof -
  let ?vk = "ref_trap X86 0xCD 0x80 (\<lambda>_. 45)" and ?io = "\<lambda>_ _ vk. (Ok 0, vk)"
  have "(45, ''brk'') \<in> set SYSCALL_TABLE_X86"
    by (simp add: syscall_table_defs)
  then have "syscall_name_from_no 45 X86 = Ok ''brk''"
    by (simp add: syscall_name_from_no_member)
  then have "trap_clear ref_engine 0x400000 ?vk"
    by (auto simp: ref_get_reg trap_clear_def x86_trap_def x86_64_trap_def call_clear_def)
  moreover have "syscall_handler_for ref_engine ?io (c_arch (cfg ?vk)) = Ok (handle_x86_syscall ref_engine ?io)"
    by (simp add: syscall_handler_for_def)
  ultimately have "guest_run ref_engine ?io ref_view ?vk (snd (handle_x86_syscall ref_engine ?io 0x400000 2 ?vk))"
    by (intro guest_run.trap guest_run.stay)
  then show ?thesis
    by (rule guest_run_keeps_sync [OF _ ref_engine_maps _ ref_trap_sync]) (simp add: io_keeps_map_def)
qed

end
