(* ===== verification/Vk_Os.thy ===== *)
theory Vk_Os
  imports Vk_SysThread
begin

text \<open>
  The OS layer: \<open>src/src/os/linux.rs\<close> (thread-local page and descriptor table, initial stack with its
  auxiliary vector, the i386 entry stub), \<open>src/src/os/blob.rs\<close> and the dispatch of \<open>src/src/os/mod.rs\<close>.
  Running the guest is the engine's \<open>emu_start\<close>, an argument: it is given start, end, timeout and
  count, and may change the whole emulator, since the hooks do.
\<close>

type_synonym ('u, 'h) emu_start =
  "u64 \<Rightarrow> u64 \<Rightarrow> u64 \<Rightarrow> u64 \<Rightarrow> ('u, 'h) Valkyrie \<Rightarrow> (uc_error + unit) \<times> ('u, 'h) Valkyrie"

section \<open>Constants\<close>

definition AT_NULL :: u64 where "AT_NULL = 0"
definition AT_PHDR :: u64 where "AT_PHDR = 3"
definition AT_PHENT :: u64 where "AT_PHENT = 4"
definition AT_PHNUM :: u64 where "AT_PHNUM = 5"
definition AT_PAGESZ :: u64 where "AT_PAGESZ = 6"
definition AT_BASE :: u64 where "AT_BASE = 7"
definition AT_ENTRY :: u64 where "AT_ENTRY = 9"
definition AT_UID :: u64 where "AT_UID = 11"
definition AT_EUID :: u64 where "AT_EUID = 12"
definition AT_GID :: u64 where "AT_GID = 13"
definition AT_EGID :: u64 where "AT_EGID = 14"
definition AT_CLKTCK :: u64 where "AT_CLKTCK = 17"
definition AT_SECURE :: u64 where "AT_SECURE = 23"
definition AT_RANDOM :: u64 where "AT_RANDOM = 25"
definition AT_EXECFN :: u64 where "AT_EXECFN = 31"
definition X86_GDT_LIMIT :: u32 where "X86_GDT_LIMIT = 0x0fff"
definition X86_TLS_STUB_OFFSET :: u64 where "X86_TLS_STUB_OFFSET = 0x100"

section \<open>Thread-local page and descriptor table\<close>

definition install_x86_gdtr :: "('u, 'h) platform \<Rightarrow> ('u, 'h, unit) vk_call" where
  "install_x86_gdtr P vk =
     uc_do (\<lambda>_. UnicornGeneralError ''failed to set GDTR'')
       (uc_write_gdtr P (x86_gdt_addr vk) X86_GDT_LIMIT) vk"

definition setup_tls_i386 :: "('u, 'h) platform \<Rightarrow> ('u, 'h, unit) vk_call" where
  "setup_tls_i386 P vk =
     and_then (zero_fill P (x86_gdt_addr vk) (ucast X86_GDT_LIMIT + 1) vk) (\<lambda>_ vk.
     and_then (install_x86_gdtr P vk) (\<lambda>_ vk.
     and_then (x86_write_gdt_entry P 1 (gdt_desc 0 0xFFFFF 0x9A 0xC) vk) (\<lambda>_ vk.
     and_then (x86_write_gdt_entry P 2 (gdt_desc 0 0xFFFFF 0x92 0xC) vk) (\<lambda>_ vk.
     and_then (x86_write_gdt_entry P 3 (gdt_desc 0 0xFFFFF 0xFA 0xC) vk) (\<lambda>_ vk.
     and_then (x86_write_gdt_entry P 4 (gdt_desc 0 0xFFFFF 0xF2 0xC) vk) (\<lambda>_ vk. (Ok (), vk)))))))"

definition setup_tls_minimal :: "('u, 'h) platform \<Rightarrow> ('u, 'h, unit) vk_call" where
  "setup_tls_minimal P vk =
     (let tls_size = tls_addr_exit (vmem vk) - tls_addr_start (vmem vk);
          tls_prot = (case c_arch (cfg vk) of X86 \<Rightarrow> Prot_ALL | X86_64 \<Rightarrow> prot_or Prot_READ Prot_WRITE) in
      and_then (mem_map P (tls_addr_start (vmem vk)) tls_size tls_prot ''[tls]'' vk) (\<lambda>_ vk.
      case c_arch (cfg vk) of
        X86 \<Rightarrow> setup_tls_i386 P vk
      | X86_64 \<Rightarrow>
          let tls_base = tls_addr_start (vmem vk) + 2 * PAGE_SIZE in
          set_reg P (VR_X86_64 RegX86_64.FsBase) tls_base vk))"

section \<open>The initial stack\<close>

definition guest_argv :: "('u, 'h) Valkyrie \<Rightarrow> bytes list" where
  "guest_argv vk =
     (if c_argv (cfg vk) \<noteq> [] then c_argv (cfg vk)
      else [case elf_auxv vk of Some info \<Rightarrow> ax_execfn info | None \<Rightarrow> ascii ''valkyrie-rs''])"

text \<open>\<open>vk.uc.mem_write(..)?\<close>, without the checks of \<open>VMemory::write\<close>.\<close>

definition uc_write :: "('u, 'h) platform \<Rightarrow> u64 \<Rightarrow> bytes \<Rightarrow> ('u, 'h, unit) vk_call" where
  "uc_write P addr data = uc_do UnicornErr (uc_mem_write P addr data)"

text \<open>The loop over the arguments, last first; \<open>ptrs\<close> is the vector it pushes to.\<close>

fun push_args ::
  "('u, 'h) platform \<Rightarrow> bytes list \<Rightarrow> u64 \<Rightarrow> u64 list \<Rightarrow> ('u, 'h, u64 \<times> u64 list) vk_call" where
  "push_args P [] sp ptrs vk = (Ok (sp, ptrs), vk)"
| "push_args P (arg # args) sp ptrs vk =
     (let sp = sp - (of_nat (length arg) + 1) in
      and_then (uc_write P sp arg vk) (\<lambda>_ vk.
      and_then (uc_write P (sp + of_nat (length arg)) [0] vk) (\<lambda>_ vk.
      push_args P args sp (ptrs @ [sp]) vk)))"

text \<open>The loop over the words of the frame, \<open>step\<close> bytes each.\<close>

fun write_frame :: "('u, 'h) platform \<Rightarrow> u64 \<Rightarrow> u64 \<Rightarrow> bytes list \<Rightarrow> ('u, 'h, unit) vk_call" where
  "write_frame P step p [] vk = (Ok (), vk)"
| "write_frame P step p (w # ws) vk =
     and_then (uc_write P p w vk) (\<lambda>_ vk. write_frame P step (p + step) ws vk)"

definition append_auxv64 :: "('u, 'h) Valkyrie \<Rightarrow> u64 list \<Rightarrow> u64 \<Rightarrow> u64 \<Rightarrow> u64 list" where
  "append_auxv64 vk frame execfn_ptr at_random_ptr =
     frame
     @ (case elf_auxv vk of
          Some info \<Rightarrow>
            [AT_PHDR, ax_phdr info, AT_PHENT, ax_phent info, AT_PHNUM, ax_phnum info,
             AT_BASE, ax_base info, AT_ENTRY, ax_entry info,
             AT_UID, ucast (cr_uid (linux_creds vk)), AT_EUID, ucast (cr_euid (linux_creds vk)),
             AT_GID, ucast (cr_gid (linux_creds vk)), AT_EGID, ucast (cr_egid (linux_creds vk)),
             AT_CLKTCK, 100, AT_SECURE, 0, AT_EXECFN, execfn_ptr]
        | None \<Rightarrow> [])
     @ [AT_PAGESZ, PAGE_SIZE, AT_RANDOM, at_random_ptr, AT_NULL, 0]"

definition append_auxv32 :: "('u, 'h) Valkyrie \<Rightarrow> u32 list \<Rightarrow> u32 \<Rightarrow> u32 \<Rightarrow> u32 list" where
  "append_auxv32 vk frame execfn_ptr at_random_ptr =
     frame
     @ (case elf_auxv vk of
          Some info \<Rightarrow>
            [ucast AT_PHDR, ucast (ax_phdr info), ucast AT_PHENT, ucast (ax_phent info),
             ucast AT_PHNUM, ucast (ax_phnum info), ucast AT_BASE, ucast (ax_base info),
             ucast AT_ENTRY, ucast (ax_entry info),
             ucast AT_UID, cr_uid (linux_creds vk), ucast AT_EUID, cr_euid (linux_creds vk),
             ucast AT_GID, cr_gid (linux_creds vk), ucast AT_EGID, cr_egid (linux_creds vk),
             ucast AT_CLKTCK, 100, ucast AT_SECURE, 0, ucast AT_EXECFN, execfn_ptr]
        | None \<Rightarrow> [])
     @ [ucast AT_PAGESZ, ucast PAGE_SIZE, ucast AT_RANDOM, at_random_ptr, ucast AT_NULL, 0]"

definition setup_stack_x86_64 :: "('u, 'h) platform \<Rightarrow> ('u, 'h, unit) vk_call" where
  "setup_stack_x86_64 P vk =
     and_then (get_reg P (rg_sp (vregs vk)) vk) (\<lambda>sp vk.
     let sp = sp - 16; at_random_ptr = sp in
     and_then (uc_write P sp (replicate 16 0x42) vk) (\<lambda>_ vk.
     and_then (push_args P (rev (guest_argv vk)) sp [] vk) (\<lambda>(sp, argv_ptrs) vk.
     let argv_ptrs = rev argv_ptrs in
     case argv_ptrs of
       [] \<Rightarrow> (Err (BadConfig ''guest argv must contain at least one entry''), vk)
     | execfn_ptr # _ \<Rightarrow>
         let sp = sp AND NOT 0xF;
             frame = append_auxv64 vk (of_nat (length argv_ptrs) # argv_ptrs @ [0, 0])
               execfn_ptr at_random_ptr;
             sp = sp - of_nat (length frame) * 8 in
         and_then (write_frame P 8 sp (map to_le_bytes frame) vk) (\<lambda>_ vk.
         and_then (set_reg P (VR_X86_64 RegX86_64.RSP) sp vk) (\<lambda>_ vk. (Ok (), vk))))))"

definition setup_stack_x86 :: "('u, 'h) platform \<Rightarrow> ('u, 'h, unit) vk_call" where
  "setup_stack_x86 P vk =
     and_then (get_reg P (rg_sp (vregs vk)) vk) (\<lambda>sp vk.
     let sp = sp - 16; at_random_ptr = sp in
     and_then (uc_write P sp (replicate 16 0x42) vk) (\<lambda>_ vk.
     and_then (push_args P (rev (guest_argv vk)) sp [] vk) (\<lambda>(sp, ptrs) vk.
     let argv_ptrs = rev (map ucast ptrs) :: u32 list in
     case argv_ptrs of
       [] \<Rightarrow> (Err (BadConfig ''guest argv must contain at least one entry''), vk)
     | execfn_ptr # _ \<Rightarrow>
         let sp = sp AND NOT 0xF;
             frame = append_auxv32 vk (of_nat (length argv_ptrs) # argv_ptrs @ [0, 0])
               execfn_ptr (ucast at_random_ptr);
             sp = sp - of_nat (length frame) * 4 in
         and_then (write_frame P 4 sp (map to_le_bytes frame) vk) (\<lambda>_ vk.
         and_then (set_reg P (VR_X86 RegX86.ESP) sp vk) (\<lambda>_ vk. (Ok (), vk))))))"

definition setup_stack :: "('u, 'h) platform \<Rightarrow> ('u, 'h, unit) vk_call" where
  "setup_stack P vk =
     (case c_arch (cfg vk) of X86 \<Rightarrow> setup_stack_x86 P vk | X86_64 \<Rightarrow> setup_stack_x86_64 P vk)"

section \<open>The i386 entry stub\<close>

definition selector :: "u16 \<Rightarrow> u16 \<Rightarrow> u16" where
  "selector idx rpl = push_bit 3 idx OR (rpl AND 0x3)"

text \<open>\<open>i64::try_from\<close> of a \<open>u64\<close> and \<open>i32::try_from\<close> of an \<open>i64\<close>.\<close>

definition i64_try_from :: "u64 \<Rightarrow> i64 option" where
  "i64_try_from v = (if unat v < 2 ^ 63 then Some v else None)"

definition i32_try_from :: "i64 \<Rightarrow> i32 option" where
  "i32_try_from v = (if - (2 ^ 31) \<le> sint v \<and> sint v < 2 ^ 31 then Some (ucast v) else None)"

definition setup_x86_entry_stub :: "('u, 'h) platform \<Rightarrow> ('u, 'h, u64) vk_call" where
  "setup_x86_entry_stub P vk =
     (let stub_addr = tls_addr_start (vmem vk) + X86_TLS_STUB_OFFSET;
          target = c_entry_point (cfg vk);
          data_selector = selector 2 0;
          stub = [0x66, 0xB8] @ to_le_bytes data_selector @ [0x8E, 0xD8] @ [0x8E, 0xC0]
            @ [0x8E, 0xD0] @ [0xE9];
          jump_src = stub_addr + of_nat (length stub) + 4 in
      case (i64_try_from target, i64_try_from jump_src) of
        (Some t, Some j) \<Rightarrow>
          (case i32_try_from (t - j) of
             Some rel \<Rightarrow>
               and_then (mem_write P stub_addr (stub @ to_le_bytes rel) vk) (\<lambda>_ vk. (Ok stub_addr, vk))
           | None \<Rightarrow> (Err (UnicornGeneralError ''x86 entry jump out of range''), vk))
      | _ \<Rightarrow> (Err (UnicornGeneralError ''x86 entry target overflow''), vk))"

section \<open>The layers\<close>

definition os_new :: OsInfo where
  "os_new = \<lparr>os_load_address = None, os_code_size = None, os_skip_exit_check = False\<rparr>"

definition os_set_loader_info :: "u64 \<Rightarrow> u64 \<Rightarrow> bool \<Rightarrow> OsInfo \<Rightarrow> OsInfo" where
  "os_set_loader_info load_address code_size skip_exit_check os =
     os\<lparr>os_load_address := Some load_address, os_code_size := Some code_size,
        os_skip_exit_check := skip_exit_check\<rparr>"

definition linux_prepare_execution :: "('u, 'h) platform \<Rightarrow> ('u, 'h, u64 \<times> u64) vk_call" where
  "linux_prepare_execution P vk =
     and_then (setup_tls_minimal P vk) (\<lambda>_ vk.
     and_then (setup_stack P vk) (\<lambda>_ vk.
     and_then (case c_arch (cfg vk) of
                 X86 \<Rightarrow> setup_x86_entry_stub P vk
               | X86_64 \<Rightarrow> (Ok (c_entry_point (cfg vk)), vk)) (\<lambda>start vk.
     (Ok (start, if c_exit_point (cfg vk) \<noteq> 0 then c_exit_point (cfg vk) else - 1), vk))))"

definition blob_prepare_execution :: "('u, 'h, u64 \<times> u64) vk_call" where
  "blob_prepare_execution vk =
     (let vk = vk\<lparr>vstate := Running\<rparr>;
          vk = (if c_exit_point (cfg vk) = 0
                then vk\<lparr>cfg := (cfg vk)\<lparr>c_exit_point :=
                  sat_add (c_entry_point (cfg vk)) (of_nat (length (c_baremetal_code (cfg vk))))\<rparr>\<rparr>
                else vk) in
      (Ok (c_entry_point (cfg vk), c_exit_point (cfg vk)), vk))"

text \<open>\<open>handle_unicorn_error\<close> of \<open>src/src/lib.rs\<close>: a soft error ends the run as a crash, any other panics.\<close>

definition handle_unicorn_error :: "uc_error \<Rightarrow> ('u, 'h, unit) vk_call" where
  "handle_unicorn_error err vk =
     (if soft_unicorn_errors vk then (Ok (), vk\<lparr>crashed := True, vstate := Ended\<rparr>)
      else (Panic, vk\<lparr>crashed := True\<rparr>))"

text \<open>Starting the engine and what follows it in both layers and in \<open>run_prepared\<close>.\<close>

definition emulate :: "('u, 'h) emu_start \<Rightarrow> u64 \<Rightarrow> u64 \<Rightarrow> ('u, 'h, unit) vk_call" where
  "emulate emu start stop vk =
     and_then (case emu start stop (c_timeout (cfg vk)) (c_count (cfg vk)) vk of
                 (Inl err, vk) \<Rightarrow> handle_unicorn_error err vk
               | (Inr _, vk) \<Rightarrow> (Ok (), vk))
       (\<lambda>_ vk. (Ok (), vk\<lparr>vstate := Ended\<rparr>))"

definition linux_run :: "('u, 'h) platform \<Rightarrow> ('u, 'h) emu_start \<Rightarrow> ('u, 'h, unit) vk_call" where
  "linux_run P emu vk =
     and_then (linux_prepare_execution P (vk\<lparr>vstate := Running\<rparr>))
       (\<lambda>(start, stop) vk. emulate emu start stop vk)"

definition blob_run :: "('u, 'h) platform \<Rightarrow> ('u, 'h) emu_start \<Rightarrow> ('u, 'h, unit) vk_call" where
  "blob_run P emu vk =
     and_then (blob_prepare_execution vk) (\<lambda>(entry_point, exit_point) vk. emulate emu entry_point exit_point vk)"

definition vos_set_loader_info :: "u64 \<Rightarrow> u64 \<Rightarrow> bool \<Rightarrow> VCoreOs \<Rightarrow> VCoreOs" where
  "vos_set_loader_info load_address code_size skip_exit_check os =
     (case os of
        Blob i \<Rightarrow> Blob (os_set_loader_info load_address code_size skip_exit_check i)
      | LinuxOs i \<Rightarrow> LinuxOs (os_set_loader_info load_address code_size skip_exit_check i))"

definition vos_skip_exit_trap :: "VCoreOs \<Rightarrow> bool" where
  "vos_skip_exit_trap os = (case os of Blob i \<Rightarrow> os_skip_exit_check i | LinuxOs i \<Rightarrow> os_skip_exit_check i)"

definition vos_run :: "('u, 'h) platform \<Rightarrow> ('u, 'h) emu_start \<Rightarrow> VCoreOs \<Rightarrow> ('u, 'h, unit) vk_call" where
  "vos_run P emu os vk = (case os of Blob _ \<Rightarrow> blob_run P emu vk | LinuxOs _ \<Rightarrow> linux_run P emu vk)"

definition vos_prepare_execution :: "('u, 'h) platform \<Rightarrow> VCoreOs \<Rightarrow> ('u, 'h, u64 \<times> u64) vk_call" where
  "vos_prepare_execution P os vk =
     (case os of Blob _ \<Rightarrow> blob_prepare_execution vk | LinuxOs _ \<Rightarrow> linux_prepare_execution P vk)"

definition select_os :: "OsType \<Rightarrow> VCoreOs vk_outcome" where
  "select_os ostype = (case ostype of BareMetal \<Rightarrow> Ok (Blob os_new) | Linux \<Rightarrow> Ok (LinuxOs os_new))"

section \<open>What the loops write\<close>

lemma uc_write_Ok:
  assumes "engine_bytes P content" and "uc_write P a d vk = (Ok x, vk')"
  shows "\<exists>u. unat a + length d \<le> 2 ^ 64 \<and> vk' = vk\<lparr>uc := u\<rparr>
    \<and> content u = (\<lambda>x. if in_range a (length d) x then d ! (x - unat a) else content (uc vk) x)"
  using assms by (auto simp: uc_write_def uc_do_def engine_bytes_def split: prod.splits sum.splits)

lemma unat_of_nat_u64: "n < 18446744073709551616 \<Longrightarrow> unat (of_nat n :: u64) = n"
  by (simp add: unsigned_of_nat take_bit_nat_eq_self)

text \<open>Two states that differ in the engine alone, with the same bytes outside a range.\<close>

definition same_outside ::
  "('u \<Rightarrow> nat \<Rightarrow> u8) \<Rightarrow> nat \<Rightarrow> nat \<Rightarrow> ('u, 'h) Valkyrie \<Rightarrow> ('u, 'h) Valkyrie \<Rightarrow> bool" where
  "same_outside content lo hi vk vk' \<longleftrightarrow>
     (\<exists>u. vk' = vk\<lparr>uc := u\<rparr> \<and> (\<forall>x. x < lo \<or> hi \<le> x \<longrightarrow> content u x = content (uc vk) x))"

lemma same_outside_refl: "same_outside content lo hi vk vk"
  unfolding same_outside_def by (rule exI [of _ "uc vk"]) simp

lemma same_outside_trans:
  assumes "same_outside content lo hi a b" "same_outside content lo' hi' b c"
    and "l \<le> lo" "l \<le> lo'" "hi \<le> h" "hi' \<le> h"
  shows "same_outside content l h a c"
  using assms by (fastforce simp: same_outside_def)

lemma same_outside_bytes:
  "same_outside content lo hi vk vk' \<Longrightarrow> unat a + n \<le> lo \<or> hi \<le> unat a \<Longrightarrow>
     guest_bytes content a n vk' = guest_bytes content a n vk"
  by (auto simp: same_outside_def guest_bytes_def)

lemma uc_write_same_outside:
  assumes "engine_bytes P content" and "uc_write P a d vk = (Ok x, vk')"
  shows "same_outside content (unat a) (unat a + length d) vk vk'" "guest_bytes content a (length d) vk' = d"
    "unat a + length d \<le> 2 ^ 64"
  using uc_write_Ok [OF assms] by (auto simp: same_outside_def guest_bytes_def intro: nth_equalityI)

lemma guest_bytes_append:
  assumes "unat b = unat a + m"
  shows "guest_bytes content a (m + n) vk = guest_bytes content a m vk @ guest_bytes content b n vk"
  by (rule nth_equalityI) (auto simp: guest_bytes_def nth_append assms)

lemma write_frame_spec:
  assumes bytes: "engine_bytes P content"
  shows "write_frame P step p ws vk = (Ok x, vk') \<Longrightarrow> \<forall>w \<in> set ws. length w = unat step \<Longrightarrow>
    unat p + length ws * unat step \<le> 2 ^ 64 \<Longrightarrow> 0 < unat step \<Longrightarrow>
    guest_bytes content p (length ws * unat step) vk' = concat ws
    \<and> same_outside content (unat p) (unat p + length ws * unat step) vk vk'"
  using bytes
proof (induction P step p ws vk rule: write_frame.induct)
  case (1 P step p vk)
  then show ?case by (simp add: guest_bytes_def same_outside_refl)
next
  case (2 P step p w ws vk)
  note bytes = "2.prems"(5)
  obtain vk1 where w: "uc_write P p w vk = (Ok (), vk1)"
    and rest: "write_frame P step (p + step) ws vk1 = (Ok x, vk')"
    using "2.prems"(1) by (auto simp: outcome_elim)
  note first = uc_write_same_outside [OF bytes w]
  have len: "length w = unat step" using "2.prems"(2) by simp
  show ?case
  proof (cases ws)
    case Nil
    then show ?thesis using rest first len by simp
  next
    case (Cons w' ws')
    have next_p: "unat (p + step) = unat p + unat step"
      using "2.prems"(3,4) Cons by (intro unat_add_no_wrap) simp
    have "guest_bytes content (p + step) (length ws * unat step) vk' = concat ws
        \<and> same_outside content (unat (p + step)) (unat (p + step) + length ws * unat step) vk1 vk'"
      using "2.prems" w next_p by (intro "2.IH" [OF _ rest]) auto
    moreover from this have "guest_bytes content p (unat step) vk' = guest_bytes content p (unat step) vk1"
      using next_p by (auto intro: same_outside_bytes)
    ultimately show ?thesis
      using first len next_p
      by (auto simp: guest_bytes_append [OF next_p] intro: same_outside_trans)
  qed
qed

abbreviation args_size :: "bytes list \<Rightarrow> nat" where
  "args_size args \<equiv> sum_list (map (\<lambda>a. length a + 1) args)"

definition arg_at :: "('u \<Rightarrow> nat \<Rightarrow> u8) \<Rightarrow> ('u, 'h) Valkyrie \<Rightarrow> nat \<Rightarrow> nat \<Rightarrow> u64 \<Rightarrow> bytes \<Rightarrow> bool" where
  "arg_at content vk lo hi p a \<longleftrightarrow> guest_bytes content p (length a + 1) vk = a @ [0]
     \<and> lo \<le> unat p \<and> unat p + length a + 1 \<le> hi"

lemma arg_at_mono:
  "arg_at content vk lo hi p a \<Longrightarrow> same_outside content l h vk vk' \<Longrightarrow> h \<le> lo \<Longrightarrow> lo' \<le> lo \<Longrightarrow> hi \<le> hi' \<Longrightarrow>
     arg_at content vk' lo' hi' p a"
  using same_outside_bytes [of content l h vk vk' p "length a + 1"] by (auto simp: arg_at_def)

lemma push_args_spec:
  assumes "engine_bytes P content"
  shows "push_args P args sp ptrs vk = (Ok (sp', ptrs'), vk') \<Longrightarrow> args_size args \<le> unat sp \<Longrightarrow>
    unat sp' = unat sp - args_size args
    \<and> same_outside content (unat sp') (unat sp) vk vk'
    \<and> (\<exists>new. ptrs' = ptrs @ new \<and> list_all2 (arg_at content vk' (unat sp') (unat sp)) new args)"
  using assms
proof (induction P args sp ptrs vk rule: push_args.induct)
  case (1 P sp ptrs vk)
  then show ?case by (simp add: same_outside_refl)
next
  case (2 P a args sp ptrs vk)
  note bytes = "2.prems"(3)
  let ?sp = "sp - (of_nat (length a) + 1)"
  have room: "length a + 1 \<le> unat sp" using "2.prems"(2) by simp
  from le_less_trans [OF this unat_bound] have lt: "length a + 1 < 18446744073709551616" .
  then have n: "unat (of_nat (length a) + 1 :: u64) = length a + 1"
    using unat_of_nat_u64 [OF lt] by (simp add: add.commute)
  have sp1: "unat ?sp = unat sp - (length a + 1)"
    using room n by (simp add: unat_sub word_le_nat_alt)
  have end_a: "unat (?sp + of_nat (length a)) = unat ?sp + length a"
  proof -
    have "unat ?sp + length a < 18446744073709551616"
      using sp1 room by (intro le_less_trans [OF _ unat_bound [of sp]]) simp
    moreover have "unat (of_nat (length a) :: u64) = length a"
      using lt by (intro unat_of_nat_u64) simp
    ultimately show ?thesis
      using unat_add_no_wrap [of ?sp "of_nat (length a)"] by (simp del: diff_add_cancel diff_diff_add add_diff_eq)
  qed
  obtain vk1 vk2 where w: "uc_write P ?sp a vk = (Ok (), vk1)"
    and z: "uc_write P (?sp + of_nat (length a)) [0] vk1 = (Ok (), vk2)"
    and rest: "push_args P args ?sp (ptrs @ [?sp]) vk2 = (Ok (sp', ptrs'), vk')"
    using "2.prems"(1) by (auto simp: outcome_elim Let_def)
  note fw = uc_write_same_outside [OF bytes w] and fz = uc_write_same_outside [OF bytes z]
  have "guest_bytes content ?sp (length a) vk2 = a"
    using fw(2) same_outside_bytes [OF fz(1), of ?sp "length a"] end_a by simp
  then have a2: "arg_at content vk2 (unat ?sp) (unat sp) ?sp a"
    using guest_bytes_append [OF end_a, of content 1 vk2] fz(2) sp1 room by (simp add: arg_at_def)
  have o2: "same_outside content (unat ?sp) (unat sp) vk vk2"
    by (rule same_outside_trans [OF fw(1) fz(1)]) (use end_a sp1 room in auto)
  have "args_size args \<le> unat ?sp" using "2.prems"(2) sp1 by simp
  from "2.IH" [OF refl w z rest this bytes] obtain new where
    ih: "unat sp' = unat ?sp - args_size args" "same_outside content (unat sp') (unat ?sp) vk2 vk'"
      "ptrs' = (ptrs @ [?sp]) @ new" "list_all2 (arg_at content vk' (unat sp') (unat ?sp)) new args"
    by auto
  have "arg_at content vk' (unat sp') (unat sp) ?sp a"
    by (rule arg_at_mono [OF a2 ih(2)]) (use ih(1) in auto)
  moreover have "list_all2 (arg_at content vk' (unat sp') (unat sp)) new args"
    using ih(4) by (rule list_all2_mono) (use sp1 in \<open>auto simp: arg_at_def\<close>)
  moreover have "same_outside content (unat sp') (unat sp) vk vk'"
    by (rule same_outside_trans [OF o2 ih(2)]) (use ih(1) sp1 in auto)
  ultimately show ?case
    using ih(1,3) sp1 by (auto intro!: exI [of _ "?sp # new"])
qed

lemma get_reg_uc: "same_outside content lo hi vk vk' \<Longrightarrow> vregs vk' = vregs vk \<and> cfg vk' = cfg vk
    \<and> elf_auxv vk' = elf_auxv vk \<and> linux_creds vk' = linux_creds vk"
  by (auto simp: same_outside_def)

lemma uc_write_keeps:
  "uc_write P a d vk = (Ok x, vk') \<Longrightarrow> \<exists>u. vk' = vk\<lparr>uc := u\<rparr>"
  by (auto simp: uc_write_def uc_do_def split: prod.splits sum.splits)

lemma push_args_keeps:
  "push_args P args sp ptrs vk = (Ok (sp', ptrs'), vk') \<Longrightarrow>
     length ptrs' = length ptrs + length args \<and> (\<exists>u. vk' = vk\<lparr>uc := u\<rparr>)"
proof (induction P args sp ptrs vk rule: push_args.induct)
  case (1 P sp ptrs vk)
  then show ?case by (auto intro: exI [of _ "uc vk"])
next
  case (2 P a args sp ptrs vk)
  obtain vk1 vk2 where w: "uc_write P (sp - (of_nat (length a) + 1)) a vk = (Ok (), vk1)"
    and z: "uc_write P (sp - (of_nat (length a) + 1) + of_nat (length a)) [0] vk1 = (Ok (), vk2)"
    and rest: "push_args P args (sp - (of_nat (length a) + 1)) (ptrs @ [sp - (of_nat (length a) + 1)]) vk2
      = (Ok (sp', ptrs'), vk')"
    using 2(2) by (auto simp: outcome_elim Let_def)
  from 2(1) [OF refl w z rest] uc_write_keeps [OF w] uc_write_keeps [OF z] show ?case by auto
qed

lemma length_append_auxv64:
  "length (append_auxv64 vk frame e r) = length frame + (if elf_auxv vk = None then 6 else 30)"
  by (cases "elf_auxv vk") (simp_all add: append_auxv64_def)

lemma concat_words: "length (concat (map to_le_bytes (ws :: u64 list))) = 8 * length ws"
  by (induction ws) simp_all

text \<open>The bytes the initial stack takes below the stack pointer it starts from.\<close>

definition stack_need :: "nat \<Rightarrow> nat \<Rightarrow> bytes list \<Rightarrow> nat" where
  "stack_need width auxv argv = 16 + args_size argv + 15 + width * (length argv + 3 + auxv)"

lemma align16_unat: "unat (x AND NOT 0xF :: u64) \<le> unat x" "unat x < unat (x AND NOT 0xF) + 16"
proof -
  have "x AND NOT 0xF = x AND NOT (mask 4)" by (simp add: mask_eq_exp_minus_1)
  then have "unat (x AND NOT 0xF) = 16 * (unat x div 16)"
    using unat_and_not_mask [of x 4] by simp
  then show "unat (x AND NOT 0xF :: u64) \<le> unat x" "unat x < unat (x AND NOT 0xF) + 16"
    by simp_all
qed

text \<open>The common image of the stack of both architectures: vectors, strings and random bytes in place.\<close>

lemma stack_image:
  assumes bytes: "engine_bytes P content"
    and w: "uc_write P (sp0 - 16) (replicate 16 0x42) vk = (Ok x, vk1)"
    and push: "push_args P (rev argv) (sp0 - 16) [] vk1 = (Ok (sp1, ps), vk2)"
    and sp: "sp = (sp1 AND NOT 0xF) - of_nat (length ws) * step"
    and frame: "write_frame P step sp ws vk2 = (Ok y, vk3)"
    and ws: "\<forall>w \<in> set ws. length w = unat step" "0 < unat step"
    and room: "16 + args_size argv + 15 + length ws * unat step \<le> unat sp0"
  shows "guest_bytes content sp (length ws * unat step) vk3 = concat ws
    \<and> guest_bytes content (sp0 - 16) 16 vk3 = replicate 16 0x42
    \<and> list_all2 (\<lambda>p a. guest_bytes content p (length a + 1) vk3 = a @ [0]) (rev ps) argv
    \<and> same_outside content (unat sp) (unat sp0) vk vk3"
proof -
  have r: "unat (sp0 - 16) = unat sp0 - 16" using room by (simp add: unat_sub word_le_nat_alt)
  note w1 = uc_write_same_outside [OF bytes w]
  have sz: "args_size (rev argv) = args_size argv" by (simp add: rev_map [symmetric])
  have "args_size (rev argv) \<le> unat (sp0 - 16)" unfolding sz r using room by simp
  note spec = push_args_spec [OF bytes push this]
  have p: "unat sp1 = unat sp0 - 16 - args_size argv" "same_outside content (unat sp1) (unat (sp0 - 16)) vk1 vk2"
    "list_all2 (arg_at content vk2 (unat sp1) (unat (sp0 - 16))) ps (rev argv)"
    using spec [THEN conjunct1] spec [THEN conjunct2, THEN conjunct1] spec [THEN conjunct2, THEN conjunct2]
    unfolding sz r by simp_all
  note al = align16_unat [of sp1]
  have "length ws * unat step < 18446744073709551616"
    using room unat_bound [of sp0] by linarith
  then have n: "unat (of_nat (length ws) * step) = length ws * unat step"
    using unat_of_nat_u64 [of "length ws * unat step"] by simp
  have spn: "unat sp = unat (sp1 AND NOT 0xF) - length ws * unat step"
    "length ws * unat step \<le> unat (sp1 AND NOT 0xF)"
    using al p(1) room n unfolding sp by (auto simp: unat_sub word_le_nat_alt)
  have "unat sp + length ws * unat step \<le> 2 ^ 64"
    using spn by (simp add: order.trans [OF unat_bound_le])
  from write_frame_spec [OF bytes frame ws(1) this ws(2)]
  have f: "guest_bytes content sp (length ws * unat step) vk3 = concat ws"
    "same_outside content (unat sp) (unat sp + length ws * unat step) vk2 vk3" by auto
  have top: "unat sp + length ws * unat step \<le> unat sp1" using spn al by simp
  have "unat sp + length ws * unat step \<le> unat (sp0 - 16)"
    by (rule order.trans [OF top]) (simp add: p(1) r)
  then have "guest_bytes content (sp0 - 16) 16 vk3 = replicate 16 0x42"
    using same_outside_bytes [OF f(2), of "sp0 - 16" 16] same_outside_bytes [OF p(2), of "sp0 - 16" 16]
      w1(2) by simp
  moreover have "list_all2 (\<lambda>p a. guest_bytes content p (length a + 1) vk3 = a @ [0]) ps (rev argv)"
    using p(3) by (rule list_all2_mono) (use same_outside_bytes [OF f(2)] top in \<open>auto simp: arg_at_def\<close>)
  then have "list_all2 (\<lambda>p a. guest_bytes content p (length a + 1) vk3 = a @ [0]) (rev ps) argv"
    by (simp add: list_all2_rev1)
  moreover have "same_outside content (unat sp1) (unat sp0) vk vk2"
    by (rule same_outside_trans [OF w1(1) p(2)]) (use r p(1) room in auto)
  then have "same_outside content (unat sp) (unat sp0) vk vk3"
    by (rule same_outside_trans [OF _ f(2)]) (use top p(1) in auto)
  ultimately show ?thesis using f(1) by blast
qed

lemma content_set_reg:
  "engine_bytes P content \<Longrightarrow> content (uc (snd (set_reg P r v vk))) = content (uc vk)"
  by (auto simp: set_reg_def set_reg_x86_def set_reg_x86_64_def uc_do_uc engine_bytes_def
      split: Arch.split VRegister.split)

lemma guest_bytes_set_reg:
  "engine_bytes P content \<Longrightarrow> guest_bytes content a n (snd (set_reg P r v vk)) = guest_bytes content a n vk"
  by (simp add: guest_bytes_def content_set_reg)

section \<open>The initial stack of x86_64\<close>

text \<open>The frame at the stack pointer: argument count, argument pointers, two null words, auxiliary vector.\<close>

definition frame64 :: "('u, 'h) Valkyrie \<Rightarrow> u64 list \<Rightarrow> u64 \<Rightarrow> u64 list" where
  "frame64 vk ptrs at_random = append_auxv64 vk (of_nat (length ptrs) # ptrs @ [0, 0]) (hd ptrs) at_random"

lemma length_frame64: "length (frame64 vk ptrs r) = length ptrs + 3 + (if elf_auxv vk = None then 6 else 30)"
  by (simp add: frame64_def length_append_auxv64)

lemma setup_stack_x86_64_run:
  assumes "setup_stack_x86_64 P vk = (Ok (), vk')"
  shows "\<exists>sp0 vk1 sp1 ps vk2 vk3. get_reg P (rg_sp (vregs vk)) vk = (Ok sp0, vk)
    \<and> uc_write P (sp0 - 16) (replicate 16 0x42) vk = (Ok (), vk1)
    \<and> push_args P (rev (guest_argv vk1)) (sp0 - 16) [] vk1 = (Ok (sp1, ps), vk2) \<and> ps \<noteq> []
    \<and> write_frame P 8 ((sp1 AND NOT 0xF) - of_nat (length (frame64 vk2 (rev ps) (sp0 - 16))) * 8)
        (map to_le_bytes (frame64 vk2 (rev ps) (sp0 - 16))) vk2 = (Ok (), vk3)
    \<and> vk' = snd (set_reg P (VR_X86_64 RegX86_64.RSP)
        ((sp1 AND NOT 0xF) - of_nat (length (frame64 vk2 (rev ps) (sp0 - 16))) * 8) vk3)
    \<and> rg_arch (vregs vk3) = X86_64"
proof -
  obtain sp0 where g: "get_reg P (rg_sp (vregs vk)) vk = (Ok sp0, vk)"
    using assms get_reg_same_state [of P "rg_sp (vregs vk)" vk]
    by (auto simp: setup_stack_x86_64_def outcome_elim)
  obtain vk1 sp1 ps vk2 where w: "uc_write P (sp0 - 16) (replicate 16 0x42) vk = (Ok (), vk1)"
    and push: "push_args P (rev (guest_argv vk1)) (sp0 - 16) [] vk1 = (Ok (sp1, ps), vk2)"
    using assms g by (auto simp: setup_stack_x86_64_def Let_def outcome_elim)
  let ?f = "frame64 vk2 (rev ps) (sp0 - 16)"
  let ?sp = "(sp1 AND NOT 0xF) - of_nat (length ?f) * 8"
  have "ps \<noteq> []"
    using assms g w push by (auto simp: setup_stack_x86_64_def Let_def split: list.splits)
  then obtain e es where ps: "rev ps = e # es" by (cases "rev ps") auto
  have tail: "and_then (write_frame P 8 ?sp (map to_le_bytes ?f) vk2) (\<lambda>_ vk.
      and_then (set_reg P (VR_X86_64 RegX86_64.RSP) ?sp vk) (\<lambda>_ vk. (Ok (), vk))) = (Ok (), vk')"
    using assms g w push by (simp add: setup_stack_x86_64_def Let_def ps frame64_def)
  then obtain vk3 where f: "write_frame P 8 ?sp (map to_le_bytes ?f) vk2 = (Ok (), vk3)"
    and s: "set_reg P (VR_X86_64 RegX86_64.RSP) ?sp vk3 = (Ok (), vk')"
    by (auto simp: outcome_elim)
  moreover from s have "rg_arch (vregs vk3) = X86_64"
    by (simp add: set_reg_def split: Arch.splits)
  ultimately show ?thesis
    using g w push \<open>ps \<noteq> []\<close> by (metis snd_conv)
qed

text \<open>
  C22: the stack an x86_64 guest starts on. With enough room below the initial stack pointer, a setup
  that succeeds leaves the stack pointer at the frame (count, argument pointers, terminators and
  auxiliary vector), every pointer at its argument followed by a zero, the random bytes where the vector
  says, and nothing outside changed.
\<close>

theorem setup_stack_x86_64_layout:
  assumes bytes: "engine_bytes P content" and regs: "engine_regs P (to_uc_x86_64 ` R) 64" "RegX86_64.RSP \<in> R"
    and run: "setup_stack_x86_64 P vk = (Ok (), vk')" and sp0: "fst (get_reg P (rg_sp (vregs vk)) vk) = Ok sp0"
    and room: "stack_need 8 (if elf_auxv vk = None then 6 else 30) (guest_argv vk) \<le> unat sp0"
  shows "\<exists>sp ptrs r. fst (get_reg P (VR_X86_64 RegX86_64.RSP) vk') = Ok sp
    \<and> guest_bytes content sp (8 * length (frame64 vk ptrs r)) vk' = concat (map to_le_bytes (frame64 vk ptrs r))
    \<and> list_all2 (\<lambda>p a. guest_bytes content p (length a + 1) vk' = a @ [0]) ptrs (guest_argv vk)
    \<and> guest_bytes content r 16 vk' = replicate 16 0x42
    \<and> (\<forall>x. x < unat sp \<or> unat sp0 \<le> x \<longrightarrow> content (uc vk') x = content (uc vk) x)"
proof -
  obtain vk1 sp1 ps vk2 vk3 where w: "uc_write P (sp0 - 16) (replicate 16 0x42) vk = (Ok (), vk1)"
    and push: "push_args P (rev (guest_argv vk1)) (sp0 - 16) [] vk1 = (Ok (sp1, ps), vk2)"
    and f: "write_frame P 8 ((sp1 AND NOT 0xF) - of_nat (length (frame64 vk2 (rev ps) (sp0 - 16))) * 8)
        (map to_le_bytes (frame64 vk2 (rev ps) (sp0 - 16))) vk2 = (Ok (), vk3)"
    and vk': "vk' = snd (set_reg P (VR_X86_64 RegX86_64.RSP)
        ((sp1 AND NOT 0xF) - of_nat (length (frame64 vk2 (rev ps) (sp0 - 16))) * 8) vk3)"
    and arch: "rg_arch (vregs vk3) = X86_64"
    using setup_stack_x86_64_run [OF run] sp0 by auto
  let ?f = "frame64 vk2 (rev ps) (sp0 - 16)" and ?argv = "guest_argv vk1"
  let ?sp = "(sp1 AND NOT 0xF) - of_nat (length ?f) * 8"
  have argv: "guest_argv vk1 = guest_argv vk"
    using uc_write_keeps [OF w] by (auto simp: guest_argv_def)
  have n: "length ps = length ?argv" and aux: "elf_auxv vk2 = elf_auxv vk" "linux_creds vk2 = linux_creds vk"
    using push_args_keeps [OF push] uc_write_keeps [OF w] by auto
  have room': "16 + args_size ?argv + 15 + length (map to_le_bytes ?f) * unat (8 :: u64) \<le> unat sp0"
    using room n aux argv by (simp add: stack_need_def length_frame64)
  have img: "guest_bytes content ?sp (length (map to_le_bytes ?f) * unat (8 :: u64)) vk3 = concat (map to_le_bytes ?f)
    \<and> guest_bytes content (sp0 - 16) 16 vk3 = replicate 16 0x42
    \<and> list_all2 (\<lambda>p a. guest_bytes content p (length a + 1) vk3 = a @ [0]) (rev ps) ?argv
    \<and> same_outside content (unat ?sp) (unat sp0) vk vk3"
    by (rule stack_image [OF bytes w push _ f _ _ room']) simp_all
  have same: "?f = frame64 vk (rev ps) (sp0 - 16)"
    by (simp add: frame64_def append_auxv64_def aux split: option.split)
  show ?thesis
  proof (rule exI [of _ ?sp], rule exI [of _ "rev ps"], rule exI [of _ "sp0 - 16"], intro conjI)
    show "fst (get_reg P (VR_X86_64 RegX86_64.RSP) vk') = Ok ?sp"
      unfolding vk' by (simp add: set_get_x86_64 [OF regs(1) arch regs(2) regs(2)])
  qed (use img same argv in \<open>auto simp: vk' guest_bytes_set_reg [OF bytes] content_set_reg [OF bytes] mult.commute
      same_outside_def\<close>)
qed

lemma stack_pointer_mod_16:
  "unat ((x AND NOT 0xF) - of_nat n * 8 :: u64) mod 16 = (if even n then 0 else 8)"
proof -
  have "x AND NOT 0xF = x AND NOT (mask 4)" by (simp add: mask_eq_exp_minus_1)
  also have "\<dots> = push_bit 4 (drop_bit 4 x)"
    by (rule bit_word_eqI) (auto simp: bit_simps not_le)
  also have "\<dots> = drop_bit 4 x * 16"
    by (simp add: push_bit_eq_mult)
  finally have x: "x AND NOT 0xF = drop_bit 4 x * 16" .
  have low: "unat (z * 16 + c) mod 16 = unat c mod 16" for z c :: u64
  proof -
    have "unat (z * 16 + c) = (unat z * 16 + unat c) mod 2 ^ 64"
      by (simp add: unat_word_ariths mod_simps)
    then show ?thesis by (simp add: mod_mod_cancel)
  qed
  obtain k where n: "n = 2 * k + (if even n then 0 else 1)" by (metis add.right_neutral dvdE oddE)
  show ?thesis
  proof (cases "even n")
    case True
    then obtain k where "n = 2 * k" by blast
    then have "(x AND NOT 0xF) - of_nat n * 8 = (drop_bit 4 x - of_nat k) * 16 + 0"
      unfolding x by (simp add: algebra_simps)
    from arg_cong [OF this, of "\<lambda>w. unat w mod 16"] show ?thesis
      using True low [of "drop_bit 4 x - of_nat k" 0] by (simp only: unat_0 mod_0 if_True refl)
  next
    case False
    then obtain k where "n = 2 * k + 1" by (rule oddE)
    then have "(x AND NOT 0xF) - of_nat n * 8 = (drop_bit 4 x - of_nat k - 1) * 16 + 8"
      unfolding x by (simp add: algebra_simps)
    from arg_cong [OF this, of "\<lambda>w. unat w mod 16"] show ?thesis
      unfolding low using False by simp
  qed
qed

text \<open>
  C32: the x86_64 stack pointer handed to the guest is a multiple of 16, which the ABI asks for at process
  entry, exactly when the number of arguments is odd; an even number leaves it 8 off.
\<close>

theorem setup_stack_x86_64_alignment:
  assumes regs: "engine_regs P (to_uc_x86_64 ` R) 64" "RegX86_64.RSP \<in> R"
    and run: "setup_stack_x86_64 P vk = (Ok (), vk')"
  shows "\<exists>sp. fst (get_reg P (VR_X86_64 RegX86_64.RSP) vk') = Ok sp
    \<and> unat sp mod 16 = (if odd (length (guest_argv vk)) then 0 else 8)"
proof -
  obtain sp0 vk1 sp1 ps vk2 vk3 where w: "uc_write P (sp0 - 16) (replicate 16 0x42) vk = (Ok (), vk1)"
    and push: "push_args P (rev (guest_argv vk1)) (sp0 - 16) [] vk1 = (Ok (sp1, ps), vk2)"
    and vk': "vk' = snd (set_reg P (VR_X86_64 RegX86_64.RSP)
        ((sp1 AND NOT 0xF) - of_nat (length (frame64 vk2 (rev ps) (sp0 - 16))) * 8) vk3)"
    and arch: "rg_arch (vregs vk3) = X86_64"
    using setup_stack_x86_64_run [OF run] by blast
  have "length ps = length (guest_argv vk)"
    using push_args_keeps [OF push] uc_write_keeps [OF w] by (auto simp: guest_argv_def)
  then show ?thesis
    unfolding vk' set_get_x86_64 [OF regs(1) arch regs(2) regs(2)]
    using stack_pointer_mod_16 [of sp1 "length (frame64 vk2 (rev ps) (sp0 - 16))"]
    by (simp add: length_frame64 split: if_splits)
qed

section \<open>The i386 entry stub\<close>

lemma i32_try_from_sound: "i32_try_from v = Some r \<Longrightarrow> scast r = v"
proof -
  assume "i32_try_from v = Some r"
  then have r: "r = ucast v" and b: "- (2 ^ 31) \<le> sint v" "sint v < 2 ^ 31"
    by (auto simp: i32_try_from_def split: if_splits)
  have "r = (word_of_int (sint v) :: i32)"
    unfolding r by (rule bit_word_eqI) (auto simp: bit_simps min_def)
  then have "sint r = signed_take_bit 31 (sint v)"
    by (simp only: signed_of_int) simp
  also have "\<dots> = sint v"
    using b by (simp add: signed_take_bit_int_eq_self_iff)
  finally show "scast r = v"
    unfolding scast_eq by simp
qed

lemma i64_try_from_sound: "i64_try_from v = Some t \<Longrightarrow> t = v"
  by (simp add: i64_try_from_def split: if_splits)

text \<open>
  The i386 entry stub. When the setup succeeds, the stub's last instruction at its offset 10 is a
  relative jump whose 32-bit displacement, sign-extended and added to the address after the stub, is
  the entry point.
\<close>

theorem entry_stub_jumps_to_entry:
  assumes bytes: "engine_bytes P content"
    and run: "setup_x86_entry_stub P vk = (Ok start, vk')"
  shows "start = tls_addr_start (vmem vk) + 0x100
    \<and> (\<exists>rel :: i32. guest_bytes content start 15 vk' =
          [0x66, 0xB8, 0x10, 0x00, 0x8E, 0xD8, 0x8E, 0xC0, 0x8E, 0xD0, 0xE9] @ to_le_bytes rel
        \<and> start + 15 + scast rel = c_entry_point (cfg vk))"
proof -
  let ?stub = "[0x66, 0xB8] @ to_le_bytes (selector 2 0) @ [0x8E, 0xD8] @ [0x8E, 0xC0] @ [0x8E, 0xD0] @ [0xE9] :: bytes"
  let ?a = "tls_addr_start (vmem vk) + X86_TLS_STUB_OFFSET"
  have stub: "?stub = [0x66, 0xB8, 0x10, 0x00, 0x8E, 0xD8, 0x8E, 0xC0, 0x8E, 0xD0, 0xE9]"
    by (simp add: selector_def to_le_bytes_def le_bytes_def upt_rec)
  obtain t j where t: "i64_try_from (c_entry_point (cfg vk)) = Some t"
    "i64_try_from (?a + of_nat (length ?stub) + 4) = Some j"
    using run unfolding setup_x86_entry_stub_def Let_def
    by (cases "i64_try_from (c_entry_point (cfg vk))";
      cases "i64_try_from (?a + of_nat (length ?stub) + 4)") simp_all
  note ts = t [THEN i64_try_from_sound]
  obtain rel where rel: "i32_try_from (t - j) = Some rel"
    using run unfolding setup_x86_entry_stub_def Let_def t by (cases "i32_try_from (t - j)") simp_all
  have step: "and_then (mem_write P ?a (?stub @ to_le_bytes rel) vk) (\<lambda>_ vk. (Ok ?a, vk)) = (Ok start, vk')"
    using run unfolding setup_x86_entry_stub_def Let_def t by (simp add: rel)
  obtain u where wr: "mem_write P ?a (?stub @ to_le_bytes rel) vk = (Ok u, vk')" and start: "start = ?a"
    using step [unfolded outcome_elim] by (elim exE conjE) (simp only: prod.inject outcome.inject)
  have "guest_bytes content ?a (length (?stub @ to_le_bytes rel)) vk' = ?stub @ to_le_bytes rel"
    using guest_bytes_write [OF bytes wr] .
  moreover have "length (?stub @ to_le_bytes rel) = 15" "length ?stub = 11" unfolding stub by simp_all
  moreover have "scast rel = c_entry_point (cfg vk) - (?a + 15)"
    using i32_try_from_sound [OF rel] unfolding ts \<open>length ?stub = 11\<close> by simp
  ultimately show ?thesis
    using start stub by (auto simp: X86_TLS_STUB_OFFSET_def intro!: exI [of _ rel])
qed

text \<open>The reference emulator with every register, the stack pointer among them, set to \<open>sp\<close>.\<close>

definition ref_rsp :: "u64 \<Rightarrow> (ref_state, unit) Valkyrie" where
  "ref_rsp sp = (ref_vk X86_64)\<lparr>uc := (uc (ref_vk X86_64))\<lparr>ref_regs := (\<lambda>r. sp)\<rparr>\<rparr>"

lemma ref_rsp_sel:
  "fst (get_reg ref_engine (rg_sp (vregs (ref_rsp sp))) (ref_rsp sp)) = Ok sp"
  "guest_argv (ref_rsp sp) = [ascii ''valkyrie-rs'']" "elf_auxv (ref_rsp sp) = None"
  by (simp_all add: ref_rsp_def ref_engine_def get_reg_def varch_new_def vregs_new_def get_reg_x86_64_def
      guest_argv_def ref_vk_def ref_cfg_def)

lemma ref_setup_stack: "\<exists>vk'. setup_stack_x86_64 ref_engine (ref_rsp 0x602000) = (Ok (), vk')"
  by (simp add: setup_stack_x86_64_def Let_def ref_rsp_def ref_engine_def get_reg_def varch_new_def vregs_new_def get_reg_x86_64_def
      guest_argv_def ref_vk_def ref_cfg_def uc_write_def uc_do_def ascii_def append_auxv64_def to_le_bytes_def le_bytes_def set_reg_def set_reg_x86_64_def)

theorem setup_stack_x86_64_layout_witness:
  "\<exists>vk' sp ptrs r. setup_stack_x86_64 ref_engine (ref_rsp 0x602000) = (Ok (), vk')
    \<and> fst (get_reg ref_engine (VR_X86_64 RegX86_64.RSP) vk') = Ok sp
    \<and> list_all2 (\<lambda>p a. guest_bytes ref_content p (length a + 1) vk' = a @ [0]) ptrs [ascii ''valkyrie-rs'']
    \<and> guest_bytes ref_content r 16 vk' = replicate 16 0x42"
proof -
  obtain vk' where run: "setup_stack_x86_64 ref_engine (ref_rsp 0x602000) = (Ok (), vk')"
    using ref_setup_stack by blast
  have "stack_need 8 (if elf_auxv (ref_rsp 0x602000) = None then 6 else 30) (guest_argv (ref_rsp 0x602000))
      \<le> unat (0x602000 :: u64)"
    by (simp add: ref_rsp_sel stack_need_def ascii_def)
  from setup_stack_x86_64_layout [OF ref_engine_bytes ref_engine_regs UNIV_I run ref_rsp_sel(1) this] run
  show ?thesis
    unfolding ref_rsp_sel by blast
qed

theorem setup_stack_x86_64_alignment_witness:
  "\<exists>vk' sp. setup_stack_x86_64 ref_engine (ref_rsp 0x602000) = (Ok (), vk')
    \<and> fst (get_reg ref_engine (VR_X86_64 RegX86_64.RSP) vk') = Ok sp \<and> unat sp mod 16 = 0"
proof -
  obtain vk' where run: "setup_stack_x86_64 ref_engine (ref_rsp 0x602000) = (Ok (), vk')"
    using ref_setup_stack by blast
  from setup_stack_x86_64_alignment [OF ref_engine_regs UNIV_I run] run show ?thesis
    unfolding ref_rsp_sel by auto
qed

theorem entry_stub_jumps_to_entry_witness:
  "\<exists>start vk'. setup_x86_entry_stub ref_engine (ref_vk X86) = (Ok start, vk') \<and> start = 0x500100
    \<and> guest_bytes ref_content start 15 vk' = [0x66, 0xB8, 0x10, 0x00, 0x8E, 0xD8, 0x8E, 0xC0, 0x8E, 0xD0, 0xE9]
        @ to_le_bytes (- 0x10010F :: i32)"
proof -
  obtain start vk' where run: "setup_x86_entry_stub ref_engine (ref_vk X86) = (Ok start, vk')"
    by (simp add: setup_x86_entry_stub_def ref_vk_def ref_cfg_def X86_TLS_STUB_OFFSET_def i64_try_from_def
        i32_try_from_def mem_write_def uc_do_def ref_engine_def to_le_bytes_def le_bytes_def)
  from entry_stub_jumps_to_entry [OF ref_engine_bytes run] obtain rel :: i32 where
    a: "start = 0x500100" "0x50010F + scast rel = (0x400000 :: u64)"
    and b: "guest_bytes ref_content start 15 vk' = [0x66, 0xB8, 0x10, 0x00, 0x8E, 0xD8, 0x8E, 0xC0, 0x8E, 0xD0, 0xE9]
      @ to_le_bytes rel"
    by (auto simp: ref_vk_def ref_cfg_def)
  have "scast rel = (0x400000 - 0x50010F :: u64)"
    using eq_diff_eq [of "scast rel" "0x400000 :: u64" "0x50010F"] a(2) by (simp only: add.commute)
  then have "ucast (scast rel :: u64) = (- 0x10010F :: i32)" by simp
  moreover have "ucast (scast rel :: u64) = rel"
    by (rule bit_word_eqI) (auto simp: bit_simps)
  ultimately have "rel = - 0x10010F" by (simp only:)
  with run a b show ?thesis by blast
qed

end
