(* ===== verification/Vk_OsRun.thy ===== *)
theory Vk_OsRun
  imports Vk_Os
begin

text \<open>
  What the OS layer guarantees: the descriptor table and the thread pointer after the setup
  (\<open>src/src/os/linux.rs\<close>), and, through the contract of both layers, how a run starts and ends.
\<close>

section \<open>The descriptor table after the setup\<close>

lemma mem_write_same_outside:
  assumes "engine_bytes P content" and "mem_write P a d vk = (Ok x, vk')"
  shows "same_outside content (unat a) (unat a + length d) vk vk'"
  using mem_write_Ok [OF assms] by (force simp: same_outside_def)

lemma zero_fill_bytes:
  assumes "engine_bytes P content" and "unat a + unat n \<le> 2 ^ 64" and "zero_fill P a n vk = (Ok x, vk')"
  shows "same_outside content (unat a) (unat a + unat n) vk vk'"
    "unat a \<le> unat b \<Longrightarrow> unat b + k \<le> unat a + unat n \<Longrightarrow> guest_bytes content b k vk' = replicate k 0"
proof -
  note z = zero_fill_content [OF assms]
  show "same_outside content (unat a) (unat a + unat n) vk vk'"
    unfolding same_outside_def using z by (intro exI [of _ "uc vk'"]) auto
  show "guest_bytes content b k vk' = replicate k 0" if "unat a \<le> unat b" "unat b + k \<le> unat a + unat n"
    using z that by (auto simp: guest_bytes_def map_replicate_const intro!: nth_equalityI)
qed

lemma gdt_entry_addr:
  assumes "unat (x86_gdt_addr vk) + 4096 \<le> 18446744073709551616" and "unat n < 512"
  shows "unat (x86_gdt_entry_addr vk n) = unat (x86_gdt_addr vk) + 8 * unat n"
proof -
  have "unat (ucast n * 8 :: u64) = 8 * unat n"
    using assms(2) by (simp add: unat_word_ariths unsigned_ucast_eq take_bit_nat_eq_self)
  then show ?thesis
    unfolding x86_gdt_entry_addr_def using assms by (subst unat_add_no_wrap) auto
qed

lemma write_gdt_entry:
  assumes bytes: "engine_bytes P content" and top: "unat (x86_gdt_addr vk) + 4096 \<le> 18446744073709551616"
    and n: "unat n < 512" and d: "length d = 8" and wr: "x86_write_gdt_entry P n d vk = (Ok x, vk')"
  shows "vmem vk' = vmem vk"
    "unat m < 512 \<Longrightarrow> guest_bytes content (x86_gdt_entry_addr vk m) 8 vk' =
      (if m = n then d else guest_bytes content (x86_gdt_entry_addr vk m) 8 vk)"
proof -
  have w: "mem_write P (x86_gdt_entry_addr vk n) d vk = (Ok x, vk')"
    using wr by (simp add: x86_write_gdt_entry_def)
  note o = mem_write_same_outside [OF bytes w]
  show "vmem vk' = vmem vk" using o by (auto simp: same_outside_def)
  show "guest_bytes content (x86_gdt_entry_addr vk m) 8 vk' =
      (if m = n then d else guest_bytes content (x86_gdt_entry_addr vk m) 8 vk)" if m: "unat m < 512"
  proof (cases "m = n")
    case True
    then show ?thesis using guest_bytes_write [OF bytes w] d by simp
  next
    case False
    then have "unat m \<noteq> unat n" using word_unat_eq_iff by blast
    then show ?thesis
      using False same_outside_bytes [OF o, of "x86_gdt_entry_addr vk m" 8] gdt_entry_addr [OF top m]
        gdt_entry_addr [OF top n] d by simp linarith
  qed
qed


text \<open>
  The descriptor table of an i386 guest. A setup that succeeds leaves the four flat code and data
  descriptors in entries 1 to 4 and every other entry, the thread-local ones 6 to 8 among them, zero.
\<close>

theorem setup_tls_i386_descriptors:
  assumes bytes: "engine_bytes P content" and top: "unat (x86_gdt_addr vk) + 4096 \<le> 18446744073709551616"
    and run: "setup_tls_i386 P vk = (Ok (), vk')" and n: "unat n < 512"
  shows "guest_bytes content (x86_gdt_entry_addr vk n) 8 vk' =
    (if n = 1 then gdt_desc 0 0xFFFFF 0x9A 0xC else if n = 2 then gdt_desc 0 0xFFFFF 0x92 0xC
     else if n = 3 then gdt_desc 0 0xFFFFF 0xFA 0xC else if n = 4 then gdt_desc 0 0xFFFFF 0xF2 0xC
     else replicate 8 0)"
proof -
  obtain vk0 vk1 vk2 vk3 vk4 where z: "zero_fill P (x86_gdt_addr vk) (ucast X86_GDT_LIMIT + 1) vk = (Ok (), vk0)"
    and g: "install_x86_gdtr P vk0 = (Ok (), vk1)"
    and w1: "x86_write_gdt_entry P 1 (gdt_desc 0 0xFFFFF 0x9A 0xC) vk1 = (Ok (), vk2)"
    and w2: "x86_write_gdt_entry P 2 (gdt_desc 0 0xFFFFF 0x92 0xC) vk2 = (Ok (), vk3)"
    and w3: "x86_write_gdt_entry P 3 (gdt_desc 0 0xFFFFF 0xFA 0xC) vk3 = (Ok (), vk4)"
    and w4: "x86_write_gdt_entry P 4 (gdt_desc 0 0xFFFFF 0xF2 0xC) vk4 = (Ok (), vk')"
    using run by (auto simp: setup_tls_i386_def outcome_elim)
  have limit: "ucast X86_GDT_LIMIT + 1 = (4096 :: u64)" by (simp add: X86_GDT_LIMIT_def)
  have "unat (x86_gdt_addr vk) + unat (4096 :: u64) \<le> 2 ^ 64" using top by simp
  note zero = zero_fill_bytes [OF bytes this z [unfolded limit]]
  have m0: "vmem vk0 = vmem vk" using zero(1) by (auto simp: same_outside_def)
  have m1: "vmem vk1 = vmem vk" and c1: "content (uc vk1) = content (uc vk0)"
    using g m0 bytes by (auto simp: install_x86_gdtr_def uc_do_def engine_bytes_def split: prod.splits sum.splits)
      (metis snd_conv)
  have addr: "x86_gdt_addr s = x86_gdt_addr vk" "x86_gdt_entry_addr s k = x86_gdt_entry_addr vk k"
    if "vmem s = vmem vk" for s :: "('a, 'b) Valkyrie" and k
    using that by (simp_all add: x86_gdt_addr_def x86_gdt_entry_addr_def)
  have step: "vmem t = vmem vk \<and> guest_bytes content (x86_gdt_entry_addr vk n) 8 t =
      (if n = k then d else guest_bytes content (x86_gdt_entry_addr vk n) 8 s)"
    if "vmem s = vmem vk" "x86_write_gdt_entry P k d s = (Ok (), t)" "unat k < 512" "length d = 8" for s t k d
    using write_gdt_entry [OF bytes _ that(3,4,2)] top n addr [OF that(1)] that(1) by simp
  note s1 = step [OF m1 w1] and s2 = step [OF _ w2] and s3 = step [OF _ w3] and s4 = step [OF _ w4]
  have "guest_bytes content (x86_gdt_entry_addr vk n) 8 vk0 = replicate 8 0"
    using gdt_entry_addr [OF top n] n by (intro zero(2)) simp_all
  moreover have "guest_bytes content (x86_gdt_entry_addr vk n) 8 vk1 = guest_bytes content (x86_gdt_entry_addr vk n) 8 vk0"
    by (simp add: guest_bytes_def c1)
  ultimately show ?thesis
    using s1 s2 s3 s4 by (auto simp: length_gdt_desc)
qed

section \<open>The thread pointer\<close>

lemma mem_map_cfg:
  "mem_map P a n p i vk = (Ok x, vk') \<Longrightarrow> cfg vk' = cfg vk \<and> (\<exists>rs. vmem vk' = (vmem vk)\<lparr>m_regions := rs\<rparr>)"
  by (auto simp: mem_map_def uc_do_def outcome_elim split: if_splits prod.splits sum.splits)

lemma tls_fits: "e \<noteq> 0 \<Longrightarrow> unat a + unat (e - a) \<noteq> 2 ^ 64" for a e :: u64
  using unat_word_ariths(1) [of a "e - a"] by (auto simp: unat_eq_zero)

text \<open>
  On x86_64 a setup that succeeds maps the thread-local range read-write and leaves the thread pointer
  two pages above its start.
\<close>

lemma setup_tls_x86_64_spec:
  assumes laws: "engine_maps P view" and sync: "in_sync view vk" "tls_addr_exit (vmem vk) \<noteq> 0"
    and regs: "engine_regs P (to_uc_x86_64 ` R) 64" "RegX86_64.FsBase \<in> R"
    and arch: "c_arch (cfg vk) = X86_64" and run: "setup_tls_minimal P vk = (Ok (), vk')"
  shows "fst (get_reg P (VR_X86_64 RegX86_64.FsBase) vk') = Ok (tls_addr_start (vmem vk) + 0x2000)
    \<and> in_sync view vk' \<and> vmem vk' = (vmem vk)\<lparr>m_regions := push_region (regions vk) (tls_addr_start (vmem vk))
        (tls_addr_exit (vmem vk) - tls_addr_start (vmem vk)) (prot_or Prot_READ Prot_WRITE, ''[tls]'')\<rparr>"
proof -
  let ?a = "tls_addr_start (vmem vk)" and ?n = "tls_addr_exit (vmem vk) - tls_addr_start (vmem vk)"
  obtain vk1 where m: "mem_map P ?a ?n (prot_or Prot_READ Prot_WRITE) ''[tls]'' vk = (Ok (), vk1)"
    and rest: "(case c_arch (cfg vk1) of X86 \<Rightarrow> setup_tls_i386 P vk1
      | X86_64 \<Rightarrow> set_reg P (VR_X86_64 RegX86_64.FsBase) (tls_addr_start (vmem vk1) + 2 * PAGE_SIZE) vk1) = (Ok (), vk')"
    using run arch unfolding setup_tls_minimal_def Let_def by (auto simp: outcome_elim Let_def)
  have s: "set_reg P (VR_X86_64 RegX86_64.FsBase) (?a + 2 * PAGE_SIZE) vk1 = (Ok (), vk')"
  proof -
    have "cfg vk1 = cfg vk" "tls_addr_start (vmem vk1) = ?a"
      using mem_map_cfg [OF m] by auto
    with rest arch show ?thesis by simp
  qed
  from mem_map_spec [OF laws sync(1) tls_fits [OF sync(2), of ?a], of "prot_or Prot_READ Prot_WRITE" "''[tls]''"] m
  have m1: "in_sync view vk1" "regions vk1 = push_region (regions vk) ?a ?n (prot_or Prot_READ Prot_WRITE, ''[tls]'')"
    by simp_all
  have m2: "vmem vk1 = (vmem vk)\<lparr>m_regions := regions vk1\<rparr>"
    using mem_map_cfg [OF m] by auto
  have vk': "vk' = snd (set_reg P (VR_X86_64 RegX86_64.FsBase) (?a + 2 * PAGE_SIZE) vk1)" using s by simp
  have a1: "rg_arch (vregs vk1) = X86_64"
    using s by (simp add: set_reg_def split: Arch.splits)
  have "fst (get_reg P (VR_X86_64 RegX86_64.FsBase) vk') = Ok (?a + 2 * PAGE_SIZE)"
    unfolding vk' by (simp add: set_get_x86_64 [OF regs(1) a1 regs(2) regs(2)])
  moreover have "vmem vk' = vmem vk1"
    unfolding vk' by (auto simp: set_reg_def note_reg_update_def set_reg_x86_64_def uc_do_uc a1)
  ultimately show ?thesis
    using set_reg_sync [OF laws m1(1)] m1 m2 unfolding vk' by (simp add: PAGE_SIZE_def)
qed


section \<open>Running a prepared guest\<close>

text \<open>
  The contract of a layer of \<open>Os\<close>: preparing keeps the region list in step with the engine and
  touches nothing of the run's result. Both layers run the same way on top of it.
\<close>

definition run_result :: "('u, 'h) Valkyrie \<Rightarrow> VState \<times> bool \<times> bool \<times> u64 option \<times> u64 \<times> u64" where
  "run_result vk = (vstate vk, crashed vk, soft_unicorn_errors vk, exit_status vk, c_timeout (cfg vk), c_count (cfg vk))"

definition os_run ::
  "(('u, 'h) platform \<Rightarrow> ('u, 'h, u64 \<times> u64) vk_call) \<Rightarrow> ('u, 'h) platform \<Rightarrow> ('u, 'h) emu_start
     \<Rightarrow> ('u, 'h, unit) vk_call" where
  "os_run prep P emu vk =
     and_then (prep P (vk\<lparr>vstate := Running\<rparr>)) (\<lambda>(start, stop) vk. emulate emu start stop vk)"

definition emu_keeps_map :: "('u, 'h) emu_start \<Rightarrow> ('u \<Rightarrow> nat \<Rightarrow> Prot option) \<Rightarrow> bool" where
  "emu_keeps_map emu view \<longleftrightarrow>
     (\<forall>a b t n vk. in_sync view vk \<longrightarrow> in_sync view (snd (emu a b t n vk)))"

locale os_layer =
  fixes prep :: "('u, 'h) platform \<Rightarrow> ('u, 'h, u64 \<times> u64) vk_call"
  assumes prep_sync: "engine_maps P view \<Longrightarrow> in_sync view vk \<Longrightarrow> tls_addr_exit (vmem vk) \<noteq> 0 \<Longrightarrow>
      in_sync view (snd (prep P vk))"
    and prep_result: "prep P (vk\<lparr>vstate := Running\<rparr>) = (Ok ends, vk') \<Longrightarrow>
      run_result vk' = run_result (vk\<lparr>vstate := Running\<rparr>)"
begin

lemma run_keeps_map:
  assumes "engine_maps P view" "emu_keeps_map emu view" "in_sync view vk" "tls_addr_exit (vmem vk) \<noteq> 0"
  shows "in_sync view (snd (os_run prep P emu vk))"
  unfolding os_run_def
proof (rule and_then_keeps [where P = "in_sync view"])
  show "in_sync view (snd (prep P (vk\<lparr>vstate := Running\<rparr>)))"
    using assms by (intro prep_sync) (simp_all add: in_sync_def)
next
  fix ends :: "u64 \<times> u64" and s :: "('u, 'h) Valkyrie" assume sync: "in_sync view s"
  obtain start stop where e: "ends = (start, stop)" by force
  have "in_sync view (snd (emulate emu start stop s))"
    using assms(2) sync by (auto simp: emulate_def emu_keeps_map_def handle_unicorn_error_def in_sync_def
        split: prod.split sum.split) (metis snd_conv)+
  then show "in_sync view (snd ((\<lambda>(start, stop) vk. emulate emu start stop vk) ends s))"
    by (simp add: e)
qed

lemma run_Ok:
  assumes "os_run prep P emu vk = (Ok (), vk')"
  shows "\<exists>start stop vk1 r vk2. prep P (vk\<lparr>vstate := Running\<rparr>) = (Ok (start, stop), vk1) \<and> vstate vk1 = Running
    \<and> emu start stop (c_timeout (cfg vk)) (c_count (cfg vk)) vk1 = (r, vk2)
    \<and> (isl r \<longrightarrow> soft_unicorn_errors vk2)
    \<and> vk' = vk2\<lparr>crashed := crashed vk2 \<or> isl r, vstate := Ended\<rparr>"
proof -
  obtain start stop vk1 where p: "prep P (vk\<lparr>vstate := Running\<rparr>) = (Ok (start, stop), vk1)"
    and e: "emulate emu start stop vk1 = (Ok (), vk')"
    using assms by (auto simp: os_run_def outcome_elim)
  obtain r vk2 where r: "emu start stop (c_timeout (cfg vk)) (c_count (cfg vk)) vk1 = (r, vk2)"
    by (meson surj_pair)
  have "(isl r \<longrightarrow> soft_unicorn_errors vk2) \<and> vk' = vk2\<lparr>crashed := crashed vk2 \<or> isl r, vstate := Ended\<rparr>"
    using e r prep_result [OF p] by (cases r) (auto simp: emulate_def run_result_def handle_unicorn_error_def split: if_splits)
  then show ?thesis using p r prep_result [OF p] by (auto simp: run_result_def)
qed

end


subsection \<open>Both layers honour the contract\<close>

text \<open>What is kept by every primitive the setup calls is kept by the setup.\<close>

definition prep_keeps :: "('u, 'h) platform \<Rightarrow> (('u, 'h) Valkyrie \<Rightarrow> bool) \<Rightarrow> bool" where
  "prep_keeps P I \<longleftrightarrow>
     (\<forall>a d. keeps I (uc_write P a d)) \<and> (\<forall>a d. keeps I (mem_write P a d))
   \<and> (\<forall>a n. keeps I (zero_fill P a n)) \<and> (\<forall>r v. keeps I (set_reg P r v)) \<and> keeps I (install_x86_gdtr P)
   \<and> (\<forall>p i. keeps I (\<lambda>vk. mem_map P (tls_addr_start (vmem vk))
        (tls_addr_exit (vmem vk) - tls_addr_start (vmem vk)) p i vk))"

lemma prep_keepsD:
  assumes "prep_keeps P I" "I vk"
  shows "I (snd (uc_write P a d vk))" "I (snd (mem_write P a d vk))" "I (snd (zero_fill P a n vk))"
    "I (snd (set_reg P r v vk))" "I (snd (install_x86_gdtr P vk))"
    "I (snd (mem_map P (tls_addr_start (vmem vk)) (tls_addr_exit (vmem vk) - tls_addr_start (vmem vk)) p i vk))"
  using assms by (auto simp: prep_keeps_def keeps_def)

lemma push_args_prep: "prep_keeps P I \<Longrightarrow> I vk \<Longrightarrow> I (snd (push_args P args sp ptrs vk))"
  by (induction P args sp ptrs vk rule: push_args.induct)
    (auto simp: Let_def prep_keepsD intro!: and_then_keeps [where P = I])

lemma write_frame_prep: "prep_keeps P I \<Longrightarrow> I vk \<Longrightarrow> I (snd (write_frame P step p ws vk))"
  by (induction P step p ws vk rule: write_frame.induct)
    (auto simp: prep_keepsD intro!: and_then_keeps [where P = I])

lemma setup_stack_prep:
  assumes "prep_keeps P I" "I vk" shows "I (snd (setup_stack P vk))"
  using assms
  by (auto simp: setup_stack_def setup_stack_x86_def setup_stack_x86_64_def Let_def prep_keepsD push_args_prep
      write_frame_prep get_reg_same_state split: Arch.split list.split prod.split
      intro!: and_then_keeps [where P = I])

lemma setup_tls_prep:
  assumes "prep_keeps P I" "I vk" shows "I (snd (setup_tls_minimal P vk))"
  using assms
  by (auto simp: setup_tls_minimal_def setup_tls_i386_def x86_write_gdt_entry_def Let_def prep_keepsD
      split: Arch.split intro!: and_then_keeps [where P = I])

lemma entry_stub_prep:
  assumes "prep_keeps P I" "I vk" shows "I (snd (setup_x86_entry_stub P vk))"
  using assms
  by (auto simp: setup_x86_entry_stub_def Let_def prep_keepsD split: option.split
      intro!: and_then_keeps [where P = I])

lemma linux_prepare_prep:
  assumes "prep_keeps P I" "I vk" shows "I (snd (linux_prepare_execution P vk))"
  using assms
  by (auto simp: linux_prepare_execution_def setup_tls_prep setup_stack_prep entry_stub_prep split: Arch.split
      intro!: and_then_keeps [where P = I])

text \<open>What no primitive touches.\<close>

definition run_core :: "('u, 'h) Valkyrie \<Rightarrow> (VState \<times> bool \<times> bool \<times> u64 option \<times> u64 \<times> u64) \<times> u64" where
  "run_core vk = (run_result vk, tls_addr_exit (vmem vk))"

lemma uc_do_core: "run_core (snd (uc_do conv f vk)) = run_core vk"
  by (simp add: uc_do_uc run_core_def run_result_def)

lemma zero_fill_core: "run_core (snd (zero_fill P a n vk)) = run_core vk"
proof (induction P a n vk rule: zero_fill.induct)
  case (1 P a n vk)
  let ?r = "uc_do (\<lambda>_. UnicornGeneralError ''mem_write failed'') (uc_mem_write P a (replicate (unat (min n PAGE_SIZE)) 0)) vk"
  have "run_core (snd (and_then ?r (\<lambda>_ vk. zero_fill P (sat_add a (min n PAGE_SIZE)) (sat_sub n (min n PAGE_SIZE)) vk)))
      = run_core vk" if "n \<noteq> 0"
    by (rule and_then_keeps [where P = "\<lambda>s. run_core s = run_core vk"]) (simp_all add: uc_do_core "1.IH" [OF that refl])
  then show ?case
    unfolding zero_fill.simps [of P a n vk] by (simp add: Let_def)
qed

lemma prim_core:
  "run_core (snd (uc_write P a d vk)) = run_core vk" "run_core (snd (mem_write P a d vk)) = run_core vk"
  "run_core (snd (zero_fill P a n vk)) = run_core vk" "run_core (snd (set_reg P r v vk)) = run_core vk"
  "run_core (snd (install_x86_gdtr P vk)) = run_core vk" "run_core (snd (mem_map P a m p i vk)) = run_core vk"
       apply (simp_all add: uc_write_def mem_write_def zero_fill_core install_x86_gdtr_def uc_do_core mem_map_def)
   apply (auto simp: set_reg_def note_reg_update_def set_reg_x86_def set_reg_x86_64_def uc_do_uc run_core_def
      run_result_def split: Arch.split VRegister.split)[1]
  apply (auto simp: uc_do_core uc_do_def run_core_def run_result_def split: prod.split sum.split)
  done

lemma prep_keeps_result: "prep_keeps P (\<lambda>vk. run_result vk = c)"
proof -
  have same: "run_result s = run_result vk" if "run_core s = run_core vk" for s vk :: "('a, 'b) Valkyrie"
    using that by (simp add: run_core_def)
  show ?thesis
    unfolding prep_keeps_def keeps_def by (simp add: prim_core [THEN same])
qed

lemma prep_keeps_map:
  assumes "engine_maps P view"
  shows "prep_keeps P (\<lambda>vk. in_sync view vk \<and> tls_addr_exit (vmem vk) \<noteq> 0)"
proof -
  have exit: "tls_addr_exit (vmem s) = tls_addr_exit (vmem vk)" if "run_core s = run_core vk"
    for s vk :: "('a, 'b) Valkyrie"
    using that by (simp add: run_core_def)
  have sync: "in_sync view (snd (uc_do conv f vk))" if "in_sync view vk" "\<And>u. view (snd (f u)) = view u"
    for conv vk and f :: "'a \<Rightarrow> (uc_error + unit) \<times> 'a"
    using that by (auto simp: uc_do_uc intro: in_sync_cong)
  have gdtr: "view (snd (uc_write_gdtr P b l u)) = view u" for b l u
    using assms by (simp add: engine_maps_def)
  have map: "in_sync view (snd (mem_map P (tls_addr_start (vmem vk)) (tls_addr_exit (vmem vk) - tls_addr_start (vmem vk)) p i vk))"
    if "in_sync view vk" "tls_addr_exit (vmem vk) \<noteq> 0" for p i vk
    using mem_map_spec [OF assms that(1) tls_fits [OF that(2)]] by blast
  show ?thesis
    unfolding prep_keeps_def keeps_def
    by (auto simp: exit [OF uc_do_core] prim_core [THEN exit] map mem_write_sync [OF assms] zero_fill_sync [OF assms]
        set_reg_sync [OF assms] uc_write_def install_x86_gdtr_def gdtr view_uc_do_write [OF assms] intro!: sync)
qed

interpretation linux: os_layer linux_prepare_execution
proof
  show "in_sync view (snd (linux_prepare_execution P vk))"
    if "engine_maps P view" "in_sync view vk" "tls_addr_exit (vmem vk) \<noteq> 0" for P :: "('u, 'h) platform" and view vk
    using linux_prepare_prep [OF prep_keeps_map [OF that(1)]] that by blast
next
  show "run_result vk' = run_result (vk\<lparr>vstate := Running\<rparr>)"
    if "linux_prepare_execution P (vk\<lparr>vstate := Running\<rparr>) = (Ok ends, vk')"
    for P :: "('u, 'h) platform" and ends and vk vk' :: "('u, 'h) Valkyrie"
    using linux_prepare_prep [OF prep_keeps_result, of "vk\<lparr>vstate := Running\<rparr>" "run_result (vk\<lparr>vstate := Running\<rparr>)" P] that
    by simp
qed

interpretation blob: os_layer "\<lambda>P. blob_prepare_execution"
  by unfold_locales (auto simp: blob_prepare_execution_def Let_def in_sync_def run_result_def)

lemma vos_run_os_run:
  "vos_run P emu os vk = os_run (case os of Blob _ \<Rightarrow> (\<lambda>P. blob_prepare_execution) | LinuxOs _ \<Rightarrow> linux_prepare_execution) P emu vk"
  by (simp add: vos_run_def os_run_def linux_run_def blob_run_def blob_prepare_execution_def split: VCoreOs.split)


text \<open>
  C23: the end of a run, in both layers. A run that returns without an error has prepared the guest in
  the state \<open>Running\<close>, started the engine once between the prepared bounds with the configured
  timeout and count, and leaves the state \<open>Ended\<close>; an engine error is only survived when errors
  are soft, and it is then recorded as a crash.
\<close>

theorem vos_run_ends:
  assumes "vos_run P emu os vk = (Ok (), vk')"
  shows "\<exists>start stop vk1 r vk2. vos_prepare_execution P os (vk\<lparr>vstate := Running\<rparr>) = (Ok (start, stop), vk1)
    \<and> vstate vk1 = Running \<and> emu start stop (c_timeout (cfg vk)) (c_count (cfg vk)) vk1 = (r, vk2)
    \<and> (isl r \<longrightarrow> soft_unicorn_errors vk2)
    \<and> vk' = vk2\<lparr>crashed := crashed vk2 \<or> isl r, vstate := Ended\<rparr>"
  using assms linux.run_Ok [of P emu vk vk'] blob.run_Ok [of P emu vk vk']
  by (cases os) (simp_all add: vos_run_os_run vos_prepare_execution_def)

text \<open>
  A run keeps the region list in step with the engine's memory map, setup included, as long as
  the engine's execution (with the system calls it hooks) does.
\<close>

theorem vos_run_keeps_map:
  assumes "engine_maps P view" "emu_keeps_map emu view" "in_sync view vk" "tls_addr_exit (vmem vk) \<noteq> 0"
  shows "in_sync view (snd (vos_run P emu os vk))"
  using linux.run_keeps_map [OF assms] blob.run_keeps_map [OF assms]
  by (cases os) (simp_all add: vos_run_os_run)

text \<open>An execution that faults at once, and the reference emulator with soft errors.\<close>

definition ref_fault :: "(ref_state, unit) emu_start" where
  "ref_fault a b t n vk = (Inl 1, vk)"

theorem vos_run_ends_witness:
  "\<exists>vk'. vos_run ref_engine ref_fault (Blob os_new) ((ref_vk X86)\<lparr>soft_unicorn_errors := True\<rparr>) = (Ok (), vk')
    \<and> crashed vk' \<and> vstate vk' = Ended"
proof -
  obtain vk' where run: "vos_run ref_engine ref_fault (Blob os_new) ((ref_vk X86)\<lparr>soft_unicorn_errors := True\<rparr>) = (Ok (), vk')"
    by (simp add: vos_run_def blob_run_def blob_prepare_execution_def emulate_def ref_fault_def
        handle_unicorn_error_def Let_def ref_vk_def ref_cfg_def)
  from vos_run_ends [OF run] run show ?thesis
    by (auto simp: ref_fault_def)
qed

theorem vos_run_keeps_map_witness:
  "in_sync ref_view (snd (vos_run ref_engine ref_fault (LinuxOs os_new) (ref_vk X86)))"
  by (rule vos_run_keeps_map [OF ref_engine_maps _ ref_in_sync])
    (simp_all add: emu_keeps_map_def ref_fault_def ref_vk_def)

theorem setup_tls_i386_descriptors_witness:
  "\<exists>vk'. setup_tls_i386 ref_engine (ref_vk X86) = (Ok (), vk')
    \<and> guest_bytes ref_content (x86_gdt_entry_addr (ref_vk X86) 4) 8 vk' = gdt_desc 0 0xFFFFF 0xF2 0xC
    \<and> guest_bytes ref_content (x86_gdt_entry_addr (ref_vk X86) 6) 8 vk' = replicate 8 0"
proof -
  obtain vk' where run: "setup_tls_i386 ref_engine (ref_vk X86) = (Ok (), vk')"
    by (simp add: setup_tls_i386_def zero_fill.simps x86_gdt_addr_def X86_GDT_LIMIT_def PAGE_SIZE_def
        install_x86_gdtr_def uc_do_def ref_engine_def x86_write_gdt_entry_def x86_gdt_entry_addr_def mem_write_def
        gdt_desc_def sat_sub_def ref_vk_def)
  have "unat (x86_gdt_addr (ref_vk X86)) + 4096 \<le> 18446744073709551616"
    by (simp add: x86_gdt_addr_def ref_vk_def)
  note d = setup_tls_i386_descriptors [OF ref_engine_bytes this run]
  from d [of 4] d [of 6] run show ?thesis by simp
qed

lemma ref_vk_tls: "tls_addr_start (vmem (ref_vk a)) = 0x500000" "tls_addr_exit (vmem (ref_vk a)) = 0x501000"
  by (simp_all add: ref_vk_def)

lemma ref_tls_free: "0x500000 \<le> x \<Longrightarrow> x < 0x501000 \<Longrightarrow> region_at ref_regions x = None"
  by (simp add: ref_regions_def region_at_def in_region_def)

end
