(* ===== verification/Vk_Loader.thy ===== *)
theory Vk_Loader
  imports Vk_Fs Vk_OsRun
begin

text \<open>
  The loaders: \<open>src/src/loader/blob.rs\<close>, \<open>src/src/loader/elf.rs\<close> and the dispatch of
  \<open>src/src/loader/mod.rs\<close>. The parser of ELF files is the crate \<open>lief\<close>: a parsed file is the
  record \<open>Binary\<close> of what the loader reads of it, and \<open>Binary::parse\<close> is an argument, a function
  of the path and the host's state. A loader returns its load address.
\<close>

section \<open>What the loader reads of a parsed file\<close>

datatype FileType = DYN | OtherFileType

datatype SegmentType = LOAD | INTERP | OtherSegment

record Segment =
  sg_type :: SegmentType
  sg_virtual_address :: u64
  sg_virtual_size :: u64
  sg_file_offset :: u64
  sg_physical_size :: u64
  sg_flags :: u32
  sg_content :: bytes

record Section =
  sn_name :: string
  sn_flags :: u64
  sn_virtual_address :: u64
  sn_size :: u64

record Binary =
  file_type :: FileType
  entrypoint :: u64
  program_headers_offset :: u64
  program_header_size :: u16
  numberof_segments :: u16
  segments :: "Segment list"
  sections :: "Section list"
  interpreter :: string

section \<open>elf.rs\<close>

record SectionSpan =
  ss_start :: u64
  ss_end :: u64
  ss_name :: string

record MappedElf =
  me_min_addr :: u64
  me_max_addr :: u64
  me_entry :: u64
  me_phdr :: u64
  me_phent :: u64
  me_phnum :: u64
  me_base :: u64

definition has_interp :: "Binary \<Rightarrow> bool" where
  "has_interp elf = list_ex (\<lambda>seg. sg_type seg = INTERP) (segments elf)"

definition choose_shared_object_base :: "('u, 'h) Valkyrie \<Rightarrow> u64" where
  "choose_shared_object_base vk =
     (let highest = foldl max 0 (map (\<lambda>r. sat_add (r_start r) (r_size r)) (regions vk)) in
      align_up (sat_add highest 0x01000000) PAGE_SIZE)"

fun find_program_headers :: "u64 \<Rightarrow> u64 \<Rightarrow> u64 \<Rightarrow> Segment list \<Rightarrow> u64 vk_outcome" where
  "find_program_headers phoff phend load_bias [] =
     Err (LoaderErr ''failed to locate mapped ELF program headers'')"
| "find_program_headers phoff phend load_bias (seg # segs) =
     (if sg_type seg \<noteq> LOAD then find_program_headers phoff phend load_bias segs
      else let file_start = sg_file_offset seg;
               file_end = sat_add file_start (sg_physical_size seg) in
        if phoff \<ge> file_start \<and> phend \<le> file_end
        then Ok (sat_add (sat_add load_bias (sg_virtual_address seg)) (sat_sub phoff file_start))
        else find_program_headers phoff phend load_bias segs)"

definition program_headers_addr :: "Binary \<Rightarrow> u64 \<Rightarrow> u64 vk_outcome" where
  "program_headers_addr elf load_bias =
     (let phoff = program_headers_offset elf;
          phsize = ucast (program_header_size elf);
          phnum = ucast (numberof_segments elf);
          phend = sat_add phoff (sat_mul phsize phnum) in
      find_program_headers phoff phend load_bias (segments elf))"

definition prot_from_segment_flags :: "u32 \<Rightarrow> Prot" where
  "prot_from_segment_flags flags =
     (let prot = Prot_NONE;
          prot = (if flags AND 4 \<noteq> 0 then prot_or prot Prot_READ else prot);
          prot = (if flags AND 2 \<noteq> 0 then prot_or prot Prot_WRITE else prot)
      in if flags AND 1 \<noteq> 0 then prot_or prot Prot_EXEC else prot)"

definition alloc_span :: "Section \<Rightarrow> SectionSpan option" where
  "alloc_span section =
     (if sn_flags section AND 2 = 0 then None
      else if sn_size section = 0 then None
      else let start = sn_virtual_address section; stop = sat_add start (sn_size section) in
        if start \<ge> stop then None
        else if sn_name section = [] then None
        else Some \<lparr>ss_start = start, ss_end = stop, ss_name = sn_name section\<rparr>)"

definition collect_alloc_sections :: "Binary \<Rightarrow> SectionSpan list" where
  "collect_alloc_sections elf = sort_key ss_start (List.map_filter alloc_span (sections elf))"

fun best_section :: "u64 \<Rightarrow> u64 \<Rightarrow> SectionSpan list \<Rightarrow> string \<Rightarrow> u64 \<Rightarrow> string" where
  "best_section page_start page_end [] best_name best_overlap = best_name"
| "best_section page_start page_end (s # ss) best_name best_overlap =
     (if ss_end s \<le> page_start \<or> ss_start s \<ge> page_end
      then best_section page_start page_end ss best_name best_overlap
      else let overlap_start = max page_start (ss_start s);
               overlap_end = min page_end (ss_end s);
               overlap = sat_sub overlap_end overlap_start in
        if overlap > best_overlap then best_section page_start page_end ss (ss_name s) overlap
        else best_section page_start page_end ss best_name best_overlap)"

definition section_name_for_page :: "u64 \<Rightarrow> u64 \<Rightarrow> SectionSpan list \<Rightarrow> string" where
  "section_name_for_page page_start page_end ss =
     ''['' @ best_section page_start page_end ss ''segment'' 0 @ '']''"

definition trim_brackets :: "string \<Rightarrow> string" where
  "trim_brackets s =
     (let b = (\<lambda>c. c = CHR ''['' \<or> c = CHR '']'') in rev (dropWhile b (rev (dropWhile b s))))"

definition prefixed_section_name :: "string \<Rightarrow> string option \<Rightarrow> string" where
  "prefixed_section_name section_name name_prefix =
     (case name_prefix of
        Some prefix \<Rightarrow> ''['' @ prefix @ '':'' @ trim_brackets section_name @ '']''
      | None \<Rightarrow> section_name)"

text \<open>
  The loop of \<open>map_segment_by_section\<close>. It ends when the bounds are multiples of the page size; a
  \<open>current\<close> that wraps past the top would make it run for ever, which is the value \<open>None\<close>.
\<close>

partial_function (option) map_pages ::
  "('u, 'h) platform \<Rightarrow> u64 \<Rightarrow> Prot \<Rightarrow> (u64 \<Rightarrow> u64 \<Rightarrow> string) \<Rightarrow> u64 \<Rightarrow> u64 \<Rightarrow> u64 \<Rightarrow> string
     \<Rightarrow> ('u, 'h) Valkyrie \<Rightarrow> (unit vk_outcome \<times> ('u, 'h) Valkyrie) option" where
  "map_pages P aligned_end prot label_of page_size current chunk_start chunk_label vk =
     (if current < aligned_end
      then let next_page = current + page_size;
               next_label = (if next_page < aligned_end then label_of next_page (next_page + page_size)
                             else chunk_label) in
        if next_page \<ge> aligned_end \<or> next_label \<noteq> chunk_label
        then let r = mem_map P chunk_start (sat_sub next_page chunk_start) prot chunk_label vk in
          if fst r = Ok ()
          then map_pages P aligned_end prot label_of page_size next_page next_page next_label (snd r)
          else Some r
        else map_pages P aligned_end prot label_of page_size next_page chunk_start chunk_label vk
      else Some (Ok (), vk))"

definition map_segment_by_section ::
  "('u, 'h) platform \<Rightarrow> u64 \<Rightarrow> u64 \<Rightarrow> Prot \<Rightarrow> SectionSpan list \<Rightarrow> u64 \<Rightarrow> string option
     \<Rightarrow> ('u, 'h, unit) vk_call" where
  "map_segment_by_section P aligned_start aligned_end prot ss page_size name_prefix vk =
     (let label_of = (\<lambda>a b. prefixed_section_name (section_name_for_page a b ss) name_prefix) in
      case map_pages P aligned_end prot label_of page_size aligned_start aligned_start
             (label_of aligned_start (aligned_start + page_size)) vk of
        Some r \<Rightarrow> r
      | None \<Rightarrow> (Diverges, vk))"

text \<open>The loop over the segments; \<open>min_addr\<close> and \<open>max_addr\<close> are threaded through.\<close>

fun map_load_segments ::
  "('u, 'h) platform \<Rightarrow> u64 \<Rightarrow> SectionSpan list \<Rightarrow> string option \<Rightarrow> Segment list \<Rightarrow> u64 \<Rightarrow> u64
     \<Rightarrow> ('u, 'h, u64 \<times> u64) vk_call" where
  "map_load_segments P load_bias ss name_prefix [] min_addr max_addr vk = (Ok (min_addr, max_addr), vk)"
| "map_load_segments P load_bias ss name_prefix (seg # segs) min_addr max_addr vk =
     (if sg_type seg \<noteq> LOAD then map_load_segments P load_bias ss name_prefix segs min_addr max_addr vk
      else let vaddr = sat_add load_bias (sg_virtual_address seg);
               vsize = sg_virtual_size seg in
      if vsize = 0 then map_load_segments P load_bias ss name_prefix segs min_addr max_addr vk
      else let aligned_start = align_down vaddr PAGE_SIZE;
               aligned_end = align_up (sat_add vaddr vsize) PAGE_SIZE;
               prot = prot_from_segment_flags (sg_flags seg);
               content = sg_content seg in
      and_then (map_segment_by_section P aligned_start aligned_end prot ss PAGE_SIZE name_prefix vk) (\<lambda>_ vk.
      and_then (if content \<noteq> [] then mem_write P vaddr content vk else (Ok (), vk)) (\<lambda>_ vk.
      let bss_size = sat_sub vsize (of_nat (length content)) in
      and_then (if bss_size > 0 then zero_fill P (vaddr + of_nat (length content)) bss_size vk
                else (Ok (), vk)) (\<lambda>_ vk.
      map_load_segments P load_bias ss name_prefix segs (min min_addr aligned_start) (max max_addr aligned_end) vk))))"

definition map_elf_binary ::
  "('u, 'h) platform \<Rightarrow> Binary \<Rightarrow> u64 \<Rightarrow> string option \<Rightarrow> ('u, 'h, MappedElf) vk_call" where
  "map_elf_binary P elf base_hint name_prefix vk =
     (let load_bias = (case file_type elf of DYN \<Rightarrow> base_hint | _ \<Rightarrow> 0);
          alloc_sections = collect_alloc_sections elf in
      and_then (map_load_segments P load_bias alloc_sections name_prefix (segments elf) (- 1) 0 vk)
        (\<lambda>(min_addr, max_addr) vk.
      if min_addr = - 1 then (Err (LoaderErr ''no loadable ELF segments''), vk)
      else and_then (program_headers_addr elf load_bias, vk) (\<lambda>phdr vk.
      (Ok \<lparr>me_min_addr = min_addr, me_max_addr = max_addr,
           me_entry = sat_add load_bias (entrypoint elf), me_phdr = phdr,
           me_phent = ucast (program_header_size elf), me_phnum = ucast (numberof_segments elf),
           me_base = load_bias\<rparr>, vk))))"

text \<open>The first half of \<open>run\<close>: the program, its interpreter when it names one, and the auxiliary vector.\<close>

definition load_images ::
  "(string \<Rightarrow> 'h \<Rightarrow> Binary option) \<Rightarrow> ('u, 'h) platform \<Rightarrow> string \<Rightarrow> ('u, 'h, u64 \<times> u64) vk_call" where
  "load_images parse P elf_path vk =
     (case parse elf_path (host vk) of
        None \<Rightarrow> (Err (LoaderErr ''failed to parse ELF file''), vk)
      | Some elf \<Rightarrow>
          and_then (map_elf_binary P elf 0 None vk) (\<lambda>main vk.
          let auxv = (\<lambda>base. \<lparr>ax_phdr = me_phdr main, ax_phent = me_phent main, ax_phnum = me_phnum main,
                ax_base = base, ax_entry = me_entry main, ax_execfn = ascii elf_path\<rparr>) in
          if has_interp elf
          then case parse (resolve_guest_path vk (interpreter elf)) (host vk) of
              None \<Rightarrow> (Err (LoaderErr ''failed to parse ELF interpreter''), vk)
            | Some ld \<Rightarrow>
                and_then (map_elf_binary P ld (choose_shared_object_base vk) (Some ''ld.so'') vk) (\<lambda>interp vk.
                let load_address = min (me_min_addr main) (me_min_addr interp) in
                (Ok (me_entry interp, load_address),
                 vk\<lparr>elf_auxv := Some (auxv (me_base interp)),
                   vmem := (vmem vk)\<lparr>code_addr_start := load_address,
                     code_addr_exit := max (me_max_addr main) (me_max_addr interp)\<rparr>\<rparr>))
          else (Ok (me_entry main, me_min_addr main),
                vk\<lparr>elf_auxv := Some (auxv 0),
                  vmem := (vmem vk)\<lparr>code_addr_start := me_min_addr main, code_addr_exit := me_max_addr main\<rparr>\<rparr>)))"

definition sp_register :: "('u, 'h) Valkyrie \<Rightarrow> VRegister" where
  "sp_register vk = (case c_arch (cfg vk) of X86 \<Rightarrow> VR_X86 RegX86.ESP | X86_64 \<Rightarrow> VR_X86_64 RegX86_64.RSP)"

definition loader_elf_run ::
  "(string \<Rightarrow> 'h \<Rightarrow> Binary option) \<Rightarrow> ('u, 'h) platform \<Rightarrow> ('u, 'h, u64) vk_call" where
  "loader_elf_run parse P vk =
     (case c_elf_file (cfg vk) of
        None \<Rightarrow> (Err (BadConfig ''elf file path is missing''), vk)
      | Some elf_path \<Rightarrow>
      and_then (load_images parse P elf_path vk) (\<lambda>(runtime_entry, load_address) vk.
      let vk = (if c_entry_point (cfg vk) = 0 then vk\<lparr>cfg := (cfg vk)\<lparr>c_entry_point := runtime_entry\<rparr>\<rparr> else vk);
          max_addr = code_addr_exit (vmem vk); stack_size = c_stack_size (cfg vk);
          heap_size = c_heap_size (cfg vk) in
      if stack_size = 0 then (Err (BadConfig ''stack_size must be > 0''), vk)
      else if heap_size = 0 then (Err (BadConfig ''heap_size must be > 0''), vk)
      else let tls_start = align_up (max_addr + PAGE_SIZE) PAGE_SIZE;
               tls_exit = tls_start + PAGE_SIZE;
               stack_addr = align_up (tls_exit + PAGE_SIZE) PAGE_SIZE;
               vk = vk\<lparr>vmem := (vmem vk)\<lparr>tls_addr_start := tls_start, tls_addr_exit := tls_exit,
                 stack_addr_start := stack_addr, stack_addr_exit := stack_addr + stack_size\<rparr>\<rparr> in
      and_then (mem_map P stack_addr stack_size Prot_ALL ''[stack]'' vk) (\<lambda>_ vk.
      let heap_addr = align_up (stack_addr_exit (vmem vk) + PAGE_SIZE) PAGE_SIZE;
          vk = vk\<lparr>vmem := (vmem vk)\<lparr>heap_addr_start := heap_addr, heap_addr_exit := heap_addr + heap_size\<rparr>\<rparr> in
      and_then (mem_map P heap_addr heap_size Prot_ALL ''[heap]'' vk) (\<lambda>_ vk.
      and_then (set_reg P (sp_register vk) (sat_sub (stack_addr_exit (vmem vk)) 0x10) vk) (\<lambda>_ vk.
      (Ok load_address, vk))))))"

section \<open>blob.rs\<close>

definition loader_blob_run :: "('u, 'h) platform \<Rightarrow> ('u, 'h, u64) vk_call" where
  "loader_blob_run P vk =
     (let entry = c_code_base_address (cfg vk); code_size = c_code_ram_size (cfg vk) in
      if code_size = 0 then (Err (BadConfig ''code_size must be > 0''), vk)
      else if c_baremetal_code (cfg vk) = [] then (Err (BadConfig ''baremetal code must be non-empty''), vk)
      else
      and_then (mem_map P entry code_size Prot_ALL ''[code]'' vk) (\<lambda>_ vk.
      and_then (mem_write P entry (c_baremetal_code (cfg vk)) vk) (\<lambda>_ vk.
      let code_exit = c_code_base_address (cfg vk) + code_size;
          tls_start = align_up (code_exit + PAGE_SIZE) PAGE_SIZE;
          tls_exit = tls_start + PAGE_SIZE;
          stack_addr = align_up (tls_exit + PAGE_SIZE) PAGE_SIZE;
          stack_size = c_stack_size (cfg vk);
          vk = vk\<lparr>vmem := (vmem vk)\<lparr>code_addr_start := c_code_base_address (cfg vk), code_addr_exit := code_exit,
            tls_addr_start := tls_start, tls_addr_exit := tls_exit,
            stack_addr_start := stack_addr, stack_addr_exit := stack_addr + stack_size\<rparr>\<rparr> in
      if stack_size = 0 then (Err (BadConfig ''stack_size must be > 0''), vk)
      else
      and_then (mem_map P stack_addr stack_size Prot_ALL ''[stack]'' vk) (\<lambda>_ vk.
      let heap_addr = align_up (stack_addr_exit (vmem vk) + PAGE_SIZE) PAGE_SIZE;
          heap_size = c_heap_size (cfg vk);
          vk = vk\<lparr>vmem := (vmem vk)\<lparr>heap_addr_start := heap_addr, heap_addr_exit := heap_addr + heap_size\<rparr>\<rparr> in
      if heap_size = 0 then (Err (BadConfig ''heap_size must be > 0''), vk)
      else
      and_then (mem_map P heap_addr heap_size Prot_ALL ''[heap]'' vk) (\<lambda>_ vk.
      and_then (set_reg P (sp_register vk) (stack_addr + stack_size - 0x10) vk) (\<lambda>_ vk.
      (Ok entry, vk)))))))"

section \<open>mod.rs\<close>

definition skip_exit_check :: "('u, 'h) Valkyrie \<Rightarrow> bool" where
  "skip_exit_check vk = (case c_os (cfg vk) of Linux \<Rightarrow> True | BareMetal \<Rightarrow> False)"

text \<open>\<open>select_loader\<close> and the \<open>run\<close> of what it selects.\<close>

definition loader_run ::
  "(string \<Rightarrow> 'h \<Rightarrow> Binary option) \<Rightarrow> ('u, 'h) platform \<Rightarrow> LoaderType \<Rightarrow> ('u, 'h, u64) vk_call" where
  "loader_run parse P loader_type =
     (case loader_type of Raw \<Rightarrow> loader_blob_run P | Elf \<Rightarrow> loader_elf_run parse P)"

end
