(* ===== verification/Vk_ElfImage.thy ===== *)
theory Vk_ElfImage
  imports Vk_Loader
begin

text \<open>
  What \<open>map_elf_binary\<close> of \<open>src/src/loader/elf.rs\<close> leaves in guest memory: the images of the
  segments, the program headers, the labels of the pages.
\<close>

section \<open>Mapping a segment\<close>

text \<open>What the images need of the engine beside \<open>engine_bytes\<close>: mapping pages leaves the other bytes alone.\<close>

definition engine_map_bytes :: "('u, 'h) platform \<Rightarrow> ('u \<Rightarrow> nat \<Rightarrow> u8) \<Rightarrow> bool" where
  "engine_map_bytes P content \<longleftrightarrow>
     (\<forall>a n p u u' x. uc_mem_map P a n p u = (Inr (), u') \<longrightarrow> \<not> in_range a (unat n) x \<longrightarrow> content u' x = content u x)
   \<and> (\<forall>a n p u e u'. uc_mem_map P a n p u = (Inl e, u') \<longrightarrow> content u' = content u)"

text \<open>\<open>vk'\<close> is \<open>vk\<close> but for the engine and the region list.\<close>

definition remapped :: "('u, 'h) Valkyrie \<Rightarrow> ('u, 'h) Valkyrie \<Rightarrow> bool" where
  "remapped vk vk' \<longleftrightarrow> (\<exists>u rs. vk' = vk\<lparr>uc := u, vmem := (vmem vk)\<lparr>m_regions := rs\<rparr>\<rparr>)"

lemma remappedI: "vk' = vk\<lparr>uc := u, vmem := (vmem vk)\<lparr>m_regions := rs\<rparr>\<rparr> \<Longrightarrow> remapped vk vk'"
  by (auto simp: remapped_def)

lemma remapped_refl: "remapped vk vk"
  by (rule remappedI [where u = "uc vk" and rs = "regions vk"]) simp

lemma remapped_uc: "vk' = vk\<lparr>uc := u\<rparr> \<Longrightarrow> remapped vk vk'"
  by (rule remappedI [where u = u and rs = "regions vk"]) simp

lemma remapped_trans: "remapped a b \<Longrightarrow> remapped b c \<Longrightarrow> remapped a c"
  unfolding remapped_def [of a b] remapped_def [of b c] by (elim exE) (rule remappedI, simp)

lemma remapped_mem_map: "remapped vk (snd (mem_map P a n p i vk))"
  by (auto simp: mem_map_def uc_do_def remapped_refl remapped_uc split: prod.split sum.split intro: remappedI)

lemma mem_map_Ok:
  assumes laws: "engine_maps P view" and sync: "in_sync view vk" and fits: "unat a + unat n \<noteq> 2 ^ 64"
    and ok: "fst (mem_map P a n p i vk) = Ok ()"
  shows "in_range a (unat n) x \<Longrightarrow> region_at (regions vk) x = None"
    "region_at (regions (snd (mem_map P a n p i vk))) x =
       (if in_range a (unat n) x then Some (p, i) else region_at (regions vk) x)"
  using mem_map_spec [OF laws sync fits, of p i] ok sync book.look_add_free [of "regions vk" a n "(p, i)" x]
  by (auto simp: book.free_def in_sync_def)

lemma mem_map_bytes:
  assumes "engine_map_bytes P content" "\<not> in_range a (unat n) x"
  shows "content (uc (snd (mem_map P a n p i vk))) x = content (uc vk) x"
  using assms by (auto simp: mem_map_def uc_do_def engine_map_bytes_def split: prod.split sum.split)

text \<open>The label of the page an address is in.\<close>

definition page_of :: "nat \<Rightarrow> u64" where
  "page_of x = of_nat (4096 * (x div 4096))"

lemma page_div: "c mod 4096 = 0 \<Longrightarrow> c \<le> x \<Longrightarrow> x < c + 4096 \<Longrightarrow> 4096 * (x div 4096) = c" for c x :: nat
proof -
  assume c: "c mod 4096 = 0" "c \<le> x" "x < c + 4096"
  then obtain k where k: "c = 4096 * k" by blast
  with c have "x div 4096 = k" by (intro div_nat_eqI) simp_all
  with k show ?thesis by simp
qed

lemma page_step: "a mod 4096 = 0 \<Longrightarrow> b mod 4096 = 0 \<Longrightarrow> a < b \<Longrightarrow> a + 4096 \<le> b" for a b :: nat
  by (elim dvdE [OF mod_0_imp_dvd]) simp

lemma page_of_eq: "unat c mod 4096 = 0 \<Longrightarrow> unat c \<le> x \<Longrightarrow> x < unat c + 4096 \<Longrightarrow> page_of x = c"
proof -
  assume c: "unat c mod 4096 = 0" "unat c \<le> x" "x < unat c + 4096"
  then have "4096 * (x div 4096) = unat c" by (rule page_div)
  then show "page_of x = c" by (simp add: page_of_def)
qed

lemma map_pages_spec:
  fixes vk :: "('u, 'h) Valkyrie"
  assumes laws: "engine_maps P view" and bytes: "engine_map_bytes P content"
    and stop: "unat aligned_end mod 4096 = 0"
  shows "in_sync view vk \<Longrightarrow> unat current mod 4096 = 0 \<Longrightarrow> chunk_start \<le> current \<Longrightarrow> current \<le> aligned_end \<Longrightarrow>
    (current = aligned_end \<longrightarrow> chunk_start = aligned_end) \<Longrightarrow>
    (\<forall>x. unat chunk_start \<le> x \<and> x < unat current + 4096 \<longrightarrow> current < aligned_end \<longrightarrow>
       label_of (page_of x) (page_of x + PAGE_SIZE) = chunk_label) \<Longrightarrow>
    \<exists>r vk'. map_pages P aligned_end prot label_of PAGE_SIZE current chunk_start chunk_label vk = Some (r, vk')
      \<and> r \<noteq> Diverges \<and> in_sync view vk' \<and> remapped vk vk'
      \<and> (r = Ok () \<longrightarrow>
          (\<forall>x. unat chunk_start \<le> x \<and> x < unat aligned_end \<longrightarrow> region_at (regions vk) x = None
             \<and> region_at (regions vk') x = Some (prot, label_of (page_of x) (page_of x + PAGE_SIZE)))
        \<and> (\<forall>x. x < unat chunk_start \<or> unat aligned_end \<le> x \<longrightarrow>
             region_at (regions vk') x = region_at (regions vk) x \<and> content (uc vk') x = content (uc vk) x))"
proof (induction "unat aligned_end - unat current" arbitrary: current chunk_start chunk_label vk rule: less_induct)
  case less
  let ?next = "current + PAGE_SIZE"
  let ?next_label = "if ?next < aligned_end then label_of ?next (?next + PAGE_SIZE) else chunk_label"
  show ?case
  proof (cases "current < aligned_end")
    case False
    then have "current = aligned_end" using less.prems(4) by simp
    then show ?thesis
      using less.prems(1,5) by (auto simp: map_pages.simps remapped_refl)
  next
    case more: True
    have le: "unat current + 4096 \<le> unat aligned_end"
      using more by (intro page_step less.prems(2) stop) (simp add: word_less_nat_alt)
    have nx: "unat ?next = unat current + 4096"
      using le_less_trans [OF le unat_bound] by (subst unat_add_no_wrap) (simp_all add: unat_PAGE_SIZE)
    have dec: "unat aligned_end - unat ?next < unat aligned_end - unat current"
      using more nx by (simp add: word_less_nat_alt)
    have nmod: "unat ?next mod 4096 = 0" using nx less.prems(2) by simp
    have nle: "?next \<le> aligned_end" using nx le by (simp add: word_le_nat_alt)
    have nlab: "?next < aligned_end \<Longrightarrow> ?next_label = label_of ?next (?next + PAGE_SIZE)" by simp
    show ?thesis
    proof (cases "?next \<ge> aligned_end \<or> ?next_label \<noteq> chunk_label")
      case flush: True
      let ?n = "sat_sub ?next chunk_start"
      let ?r = "mem_map P chunk_start ?n prot chunk_label vk"
      have n: "unat chunk_start + unat ?n = unat current + 4096"
        using less.prems(3) nx by (simp add: unat_sat_sub word_le_nat_alt)
      have fits: "unat chunk_start + unat ?n \<noteq> 2 ^ 64"
        using n le_less_trans [OF le unat_bound] by simp
      have unfold: "map_pages P aligned_end prot label_of PAGE_SIZE current chunk_start chunk_label vk =
          (if fst ?r = Ok () then map_pages P aligned_end prot label_of PAGE_SIZE ?next ?next ?next_label (snd ?r)
           else Some ?r)"
        unfolding map_pages.simps [of P aligned_end prot label_of PAGE_SIZE current chunk_start chunk_label vk]
        using more flush by (simp only: if_True Let_def)
      have sync1: "in_sync view (snd ?r)"
        using mem_map_spec [OF laws less.prems(1) fits] by blast
      show ?thesis
      proof (cases "fst ?r = Ok ()")
        case False
        then show ?thesis
          using unfold sync1 mem_map_no_panic(2) [of P chunk_start ?n prot chunk_label vk] remapped_mem_map [of vk P chunk_start ?n prot chunk_label]
          by (auto intro!: exI [of _ "fst ?r"] exI [of _ "snd ?r"])
      next
        case ok: True
        note m = mem_map_Ok [OF laws less.prems(1) fits ok]
        have lab: "\<forall>x. unat ?next \<le> x \<and> x < unat ?next + 4096 \<longrightarrow> ?next < aligned_end \<longrightarrow>
            label_of (page_of x) (page_of x + PAGE_SIZE) = ?next_label"
          using page_of_eq [OF nmod] by simp
        obtain r vk' where ih: "map_pages P aligned_end prot label_of PAGE_SIZE ?next ?next ?next_label (snd ?r) = Some (r, vk')"
          "r \<noteq> Diverges" "in_sync view vk'" "remapped (snd ?r) vk'"
          and mapped: "r = Ok () \<Longrightarrow> unat ?next \<le> x \<Longrightarrow> x < unat aligned_end \<Longrightarrow> region_at (regions (snd ?r)) x = None
             \<and> region_at (regions vk') x = Some (prot, label_of (page_of x) (page_of x + PAGE_SIZE))"
          and kept: "r = Ok () \<Longrightarrow> x < unat ?next \<or> unat aligned_end \<le> x \<Longrightarrow>
             region_at (regions vk') x = region_at (regions (snd ?r)) x \<and> content (uc vk') x = content (uc (snd ?r)) x" for x
          using less.hyps [OF dec sync1 nmod _ nle _ lab] by auto
        have "region_at (regions vk) x = None
             \<and> region_at (regions vk') x = Some (prot, label_of (page_of x) (page_of x + PAGE_SIZE))"
          if "r = Ok ()" "unat chunk_start \<le> x" "x < unat aligned_end" for x
        proof (cases "x < unat ?next")
          case True
          then have "in_range chunk_start (unat ?n) x" using that n nx by simp
          then show ?thesis
            using m [of x] kept [OF that(1), of x] True less.prems(6) more that nx by auto
        next
          case False
          then have "\<not> in_range chunk_start (unat ?n) x" using n nx by simp
          then show ?thesis
            using m(2) [of x] mapped [OF that(1), of x] False that by auto
        qed
        moreover have "region_at (regions vk') x = region_at (regions vk) x \<and> content (uc vk') x = content (uc vk) x"
          if "r = Ok ()" "x < unat chunk_start \<or> unat aligned_end \<le> x" for x
        proof -
          have "\<not> in_range chunk_start (unat ?n) x" "x < unat ?next \<or> unat aligned_end \<le> x"
            using that(2) n nx le less.prems(3) by (auto simp: word_le_nat_alt)
          then show ?thesis
            using kept [OF that(1), of x] m(2) [of x] mem_map_bytes [OF bytes, of chunk_start x ?n prot chunk_label vk] by auto
        qed
        ultimately show ?thesis
          using unfold ok ih remapped_trans [OF remapped_mem_map ih(4)] by auto
      qed
    next
      case False
      then have lt: "?next < aligned_end" by (simp only: de_Morgan_disj not_le)
      have lab: "label_of ?next (?next + PAGE_SIZE) = chunk_label"
        using conjunct2 [OF False [unfolded de_Morgan_disj]] lt by (simp only: if_True not_not)
      have unfold: "map_pages P aligned_end prot label_of PAGE_SIZE current chunk_start chunk_label vk =
          map_pages P aligned_end prot label_of PAGE_SIZE ?next chunk_start chunk_label vk"
        unfolding map_pages.simps [of P aligned_end prot label_of PAGE_SIZE current chunk_start chunk_label vk]
        using more False by (simp only: if_True if_False Let_def)
      have "chunk_start \<le> ?next"
        using less.prems(3) nx by (simp add: word_le_nat_alt)
      moreover have "\<forall>x. unat chunk_start \<le> x \<and> x < unat ?next + 4096 \<longrightarrow> ?next < aligned_end \<longrightarrow>
          label_of (page_of x) (page_of x + PAGE_SIZE) = chunk_label"
      proof (intro allI impI)
        fix x assume x: "unat chunk_start \<le> x \<and> x < unat ?next + 4096"
        show "label_of (page_of x) (page_of x + PAGE_SIZE) = chunk_label"
        proof (cases "x < unat ?next")
          case True
          then show ?thesis using x nx less.prems(6) more by simp
        next
          case False
          then show ?thesis using x lab page_of_eq [OF nmod, of x] by simp
        qed
      qed
      ultimately show ?thesis
        unfolding unfold using lt by (intro less.hyps [OF dec less.prems(1) nmod _ nle]) auto
    qed
  qed
qed


lemma map_segment_spec:
  fixes vk :: "('u, 'h) Valkyrie"
  assumes laws: "engine_maps P view" and bytes: "engine_map_bytes P content" and sync: "in_sync view vk"
    and al: "unat start mod 4096 = 0" "unat stop mod 4096 = 0" "start \<le> stop"
    and run: "map_segment_by_section P start stop prot ss PAGE_SIZE pre vk = (r, vk')"
  shows "r \<noteq> Diverges" "in_sync view vk'" "remapped vk vk'"
    "r = Ok () \<Longrightarrow> in_range start (unat (stop - start)) x \<Longrightarrow> region_at (regions vk) x = None
       \<and> region_at (regions vk') x = Some (prot, prefixed_section_name
            (section_name_for_page (page_of x) (page_of x + PAGE_SIZE) ss) pre)"
    "r = Ok () \<Longrightarrow> \<not> in_range start (unat (stop - start)) x \<Longrightarrow>
       region_at (regions vk') x = region_at (regions vk) x \<and> content (uc vk') x = content (uc vk) x"
proof -
  let ?l = "\<lambda>a b. prefixed_section_name (section_name_for_page a b ss) pre"
  obtain s t where m: "map_pages P stop prot ?l PAGE_SIZE start start (?l start (start + PAGE_SIZE)) vk = Some (s, t)"
    and rest: "s \<noteq> Diverges" "in_sync view t" "remapped vk t"
    "s = Ok () \<Longrightarrow> \<forall>x. unat start \<le> x \<and> x < unat stop \<longrightarrow> region_at (regions vk) x = None
             \<and> region_at (regions t) x = Some (prot, ?l (page_of x) (page_of x + PAGE_SIZE))"
    "s = Ok () \<Longrightarrow> \<forall>x. x < unat start \<or> unat stop \<le> x \<longrightarrow>
             region_at (regions t) x = region_at (regions vk) x \<and> content (uc t) x = content (uc vk) x"
    using map_pages_spec [OF laws bytes al(2) sync al(1) order.refl al(3), of "?l" "?l start (start + PAGE_SIZE)" prot]
      page_of_eq [OF al(1)] by auto
  have st: "s = r" "t = vk'" using run m by (auto simp: map_segment_by_section_def Let_def)
  have "unat start + unat (stop - start) = unat stop" using al(3) by (simp add: unat_sub word_le_nat_alt)
  with rest show "r \<noteq> Diverges" "in_sync view vk'" "remapped vk vk'"
    "r = Ok () \<Longrightarrow> in_range start (unat (stop - start)) x \<Longrightarrow> region_at (regions vk) x = None
       \<and> region_at (regions vk') x = Some (prot, prefixed_section_name
            (section_name_for_page (page_of x) (page_of x + PAGE_SIZE) ss) pre)"
    "r = Ok () \<Longrightarrow> \<not> in_range start (unat (stop - start)) x \<Longrightarrow>
       region_at (regions vk') x = region_at (regions vk) x \<and> content (uc vk') x = content (uc vk) x"
    by (auto simp: st)
qed


section \<open>The segments of a file\<close>

text \<open>Memory that was mapped stays mapped as it was, with its contents.\<close>

definition mapped_kept ::
  "('u \<Rightarrow> nat \<Rightarrow> u8) \<Rightarrow> ('u, 'h) Valkyrie \<Rightarrow> ('u, 'h) Valkyrie \<Rightarrow> bool" where
  "mapped_kept content vk vk' \<longleftrightarrow>
     (\<forall>x y. region_at (regions vk) x = Some y \<longrightarrow>
        region_at (regions vk') x = Some y \<and> content (uc vk') x = content (uc vk) x)"

lemma mapped_kept_trans: "mapped_kept content a b \<Longrightarrow> mapped_kept content b c \<Longrightarrow> mapped_kept content a c"
  by (simp add: mapped_kept_def)

text \<open>A segment whose file part is no longer than its memory part and which ends below the last page.\<close>

definition segment_fits :: "u64 \<Rightarrow> Segment \<Rightarrow> bool" where
  "segment_fits bias seg \<longleftrightarrow> length (sg_content seg) \<le> unat (sg_virtual_size seg)
     \<and> unat bias + unat (sg_virtual_address seg) + unat (sg_virtual_size seg) + 4096 \<le> 18446744073709551616"

text \<open>Its image: the file's bytes, then zeros, in pages with its protection.\<close>

definition segment_loaded ::
  "('u \<Rightarrow> nat \<Rightarrow> u8) \<Rightarrow> u64 \<Rightarrow> Segment \<Rightarrow> ('u, 'h) Valkyrie \<Rightarrow> bool" where
  "segment_loaded content bias seg vk \<longleftrightarrow>
     guest_bytes content (bias + sg_virtual_address seg) (unat (sg_virtual_size seg)) vk =
       sg_content seg @ replicate (unat (sg_virtual_size seg) - length (sg_content seg)) 0
   \<and> (\<forall>x. in_range (bias + sg_virtual_address seg) (unat (sg_virtual_size seg)) x \<longrightarrow>
        (\<exists>label. region_at (regions vk) x = Some (prot_from_segment_flags (sg_flags seg), label)))"

lemma segment_loaded_kept:
  assumes "segment_loaded content bias seg vk" and "mapped_kept content vk vk'"
  shows "segment_loaded content bias seg vk'"
proof -
  let ?a = "bias + sg_virtual_address seg" and ?n = "unat (sg_virtual_size seg)"
  have "region_at (regions vk') x = region_at (regions vk) x \<and> content (uc vk') x = content (uc vk) x"
    if "in_range ?a ?n x" for x
    using assms that unfolding segment_loaded_def mapped_kept_def by metis
  moreover from this have "guest_bytes content ?a ?n vk' = guest_bytes content ?a ?n vk"
    by (simp add: guest_bytes_def)
  ultimately show ?thesis
    using assms(1) unfolding segment_loaded_def by simp
qed

text \<open>Filling a mapped range: the file's bytes, then the zeros after them.\<close>

lemma fill_segment:
  fixes v n :: u64
  assumes bytes: "engine_bytes P content" and fits: "length c \<le> unat n" "unat v + unat n \<le> 18446744073709551616"
    and wr: "(if c \<noteq> [] then mem_write P v c vk else (Ok (), vk)) = (Ok (), vk1)"
    and zr: "(if 0 < sat_sub n (of_nat (length c)) then zero_fill P (v + of_nat (length c)) (sat_sub n (of_nat (length c))) vk1
        else (Ok (), vk1)) = (Ok (), vk2)"
  shows "guest_bytes content v (unat n) vk2 = c @ replicate (unat n - length c) 0"
    "same_outside content (unat v) (unat v + unat n) vk vk2"
proof -
  let ?k = "length c" and ?a = "v + of_nat (length c)" and ?m = "sat_sub n (of_nat (length c))"
  have k: "unat (of_nat ?k :: u64) = ?k"
    using fits(1) unat_bound [of n] by (intro unat_of_nat_u64) (rule le_less_trans)
  have m: "unat ?m = unat n - ?k" by (simp add: unat_sat_sub k)
  have w: "same_outside content (unat v) (unat v + ?k) vk vk1 \<and> guest_bytes content v ?k vk1 = c"
  proof (cases "c = []")
    case True
    then show ?thesis using wr by (simp add: same_outside_refl guest_bytes_def)
  next
    case False
    then have "mem_write P v c vk = (Ok (), vk1)" using wr by simp
    then show ?thesis
      using mem_write_same_outside [OF bytes] guest_bytes_write [OF bytes] by blast
  qed
  have "guest_bytes content v (unat n) vk2 = c @ replicate (unat n - ?k) 0
      \<and> same_outside content (unat v) (unat v + unat n) vk vk2"
  proof (cases "?k = unat n")
    case True
    then have "\<not> 0 < ?m" using m by (simp add: word_gt_0 unat_eq_zero)
    then show ?thesis using zr w True by simp
  next
    case False
    then have pos: "0 < ?m" using m fits(1) by (simp add: word_less_nat_alt)
    have a: "unat ?a = unat v + ?k"
      using k False fits by (subst unat_add_no_wrap) simp_all
    have top: "unat ?a + unat ?m \<le> 2 ^ 64" using a m fits by simp
    have z: "zero_fill P ?a ?m vk1 = (Ok (), vk2)" using zr pos by simp
    note zb = zero_fill_bytes [OF bytes top z]
    have "guest_bytes content v ?k vk2 = c"
      using same_outside_bytes [OF zb(1), of v ?k] w a by simp
    moreover have "guest_bytes content ?a (unat n - ?k) vk2 = replicate (unat n - ?k) 0"
      using a m by (intro zb(2)) simp_all
    moreover have "unat n = ?k + (unat n - ?k)" using fits(1) by simp
    ultimately have "guest_bytes content v (unat n) vk2 = c @ replicate (unat n - ?k) 0"
      using guest_bytes_append [OF a, of content "unat n - ?k" vk2] by simp
    moreover have "same_outside content (unat v) (unat v + unat n) vk vk2"
      by (rule same_outside_trans [OF conjunct1 [OF w] zb(1)]) (use a m fits in auto)
    ultimately show ?thesis by blast
  qed
  then show "guest_bytes content v (unat n) vk2 = c @ replicate (unat n - length c) 0"
    "same_outside content (unat v) (unat v + unat n) vk vk2" by blast+
qed

text \<open>The rounded bounds of a segment.\<close>

lemma segment_bounds:
  assumes "segment_fits bias seg" and "sg_virtual_size seg \<noteq> 0"
  defines "v \<equiv> bias + sg_virtual_address seg"
  shows "sat_add bias (sg_virtual_address seg) = v" "unat v + unat (sg_virtual_size seg) + 4096 \<le> 18446744073709551616"
    "unat (align_down v PAGE_SIZE) mod 4096 = 0" "unat (align_down v PAGE_SIZE) \<le> unat v"
    "unat (align_up (sat_add v (sg_virtual_size seg)) PAGE_SIZE) mod 4096 = 0"
    "unat v + unat (sg_virtual_size seg) \<le> unat (align_up (sat_add v (sg_virtual_size seg)) PAGE_SIZE)"
proof -
  have top: "unat bias + unat (sg_virtual_address seg) + unat (sg_virtual_size seg) + 4096 \<le> 18446744073709551616"
    using assms(1) by (simp add: segment_fits_def)
  then have v: "unat v = unat bias + unat (sg_virtual_address seg)"
    unfolding v_def by (subst unat_add_no_wrap) simp_all
  show "sat_add bias (sg_virtual_address seg) = v" "unat v + unat (sg_virtual_size seg) + 4096 \<le> 18446744073709551616"
    using top v by (simp_all add: v_def sat_add_no_wrap)
  have e: "unat (sat_add v (sg_virtual_size seg)) = unat v + unat (sg_virtual_size seg)"
    using top v by (simp add: unat_sat_add)
  then have "unat (sat_add v (sg_virtual_size seg)) + 4095 < 2 ^ 64" using top v by simp
  note up = unat_align_up_page [OF this]
  show "unat (align_down v PAGE_SIZE) mod 4096 = 0" "unat (align_down v PAGE_SIZE) \<le> unat v"
    by (simp_all add: unat_align_down_page)
  show "unat (align_up (sat_add v (sg_virtual_size seg)) PAGE_SIZE) mod 4096 = 0" by (simp add: up)
  show "unat v + unat (sg_virtual_size seg) \<le> unat (align_up (sat_add v (sg_virtual_size seg)) PAGE_SIZE)"
    using round_up_ge [of 4096 "unat v + unat (sg_virtual_size seg)"] by (simp add: up e)
qed

lemma and_then_unit:
  "and_then r k = (Ok b, t) \<longleftrightarrow> (\<exists>s. r = (Ok (), s) \<and> k () s = (Ok b, t))"
  unfolding and_then_Ok by auto

text \<open>The loop over the segments.\<close>

definition loads :: "Segment \<Rightarrow> bool" where
  "loads seg \<longleftrightarrow> sg_type seg = LOAD \<and> sg_virtual_size seg \<noteq> 0"

definition within :: "u64 \<Rightarrow> u64 \<Rightarrow> u64 \<Rightarrow> Segment \<Rightarrow> bool" where
  "within lo hi bias seg \<longleftrightarrow> unat lo \<le> unat (bias + sg_virtual_address seg)
     \<and> unat (bias + sg_virtual_address seg) + unat (sg_virtual_size seg) \<le> unat hi"

lemma map_load_segments_spec:
  fixes vk :: "('u, 'h) Valkyrie"
  assumes laws: "engine_maps P view" and bytes: "engine_bytes P content" "engine_map_bytes P content"
  shows "map_load_segments P bias ss pre segs mn mx vk = (Ok (lo, hi), vk') \<Longrightarrow> in_sync view vk \<Longrightarrow>
    \<forall>seg \<in> set segs. loads seg \<longrightarrow> segment_fits bias seg \<Longrightarrow>
    in_sync view vk' \<and> remapped vk vk' \<and> mapped_kept content vk vk' \<and> lo \<le> mn \<and> mx \<le> hi
    \<and> (\<forall>seg \<in> set segs. loads seg \<longrightarrow> segment_loaded content bias seg vk' \<and> within lo hi bias seg)"
proof (induction segs arbitrary: mn mx vk)
  case Nil
  then show ?case by (simp add: remapped_refl mapped_kept_def)
next
  case (Cons seg segs)
  show ?case
  proof (cases "loads seg")
    case False
    then show ?thesis
      using Cons by (cases "sg_type seg = LOAD") (simp_all add: loads_def)
  next
    case True
    let ?v = "bias + sg_virtual_address seg" and ?n = "sg_virtual_size seg" and ?c = "sg_content seg"
    let ?lo = "align_down ?v PAGE_SIZE" and ?hi = "align_up (sat_add ?v ?n) PAGE_SIZE"
    let ?prot = "prot_from_segment_flags (sg_flags seg)"
    have fits: "segment_fits bias seg" using Cons.prems(3) True by simp
    have n0: "?n \<noteq> 0" and load: "sg_type seg = LOAD" using True by (simp_all add: loads_def)
    note b = segment_bounds [OF fits n0]
    have step: "and_then (map_segment_by_section P ?lo ?hi ?prot ss PAGE_SIZE pre vk) (\<lambda>_ vk.
      and_then (if ?c \<noteq> [] then mem_write P ?v ?c vk else (Ok (), vk)) (\<lambda>_ vk.
      and_then (if sat_sub ?n (of_nat (length ?c)) > 0 then zero_fill P (?v + of_nat (length ?c)) (sat_sub ?n (of_nat (length ?c))) vk
                else (Ok (), vk)) (\<lambda>_ vk.
      map_load_segments P bias ss pre segs (min mn ?lo) (max mx ?hi) vk))) = (Ok (lo, hi), vk')"
      using Cons.prems(1) load n0 by (simp add: b(1) Let_def)
    obtain vk1 vk2 vk3 where m: "map_segment_by_section P ?lo ?hi ?prot ss PAGE_SIZE pre vk = (Ok (), vk1)"
      and wr: "(if ?c \<noteq> [] then mem_write P ?v ?c vk1 else (Ok (), vk1)) = (Ok (), vk2)"
      and zr: "(if 0 < sat_sub ?n (of_nat (length ?c)) then zero_fill P (?v + of_nat (length ?c)) (sat_sub ?n (of_nat (length ?c))) vk2
          else (Ok (), vk2)) = (Ok (), vk3)"
      and rest: "map_load_segments P bias ss pre segs (min mn ?lo) (max mx ?hi) vk3 = (Ok (lo, hi), vk')"
      using step unfolding and_then_unit by (elim exE conjE)
    have al: "?lo \<le> ?hi"
      using b(4,6) by (simp add: word_le_nat_alt)
    note ms = map_segment_spec [OF laws bytes(2) Cons.prems(2) b(3) b(5) al m]
    have len: "length ?c \<le> unat ?n" using fits by (simp add: segment_fits_def)
    have "unat ?v + unat ?n \<le> 18446744073709551616" using b(2) by simp
    note fs = fill_segment [OF bytes(1) len this wr zr]
    have r13: "regions vk3 = regions vk1" and rem3: "remapped vk1 vk3"
      using fs(2) by (auto simp: same_outside_def remapped_uc)
    have sync3: "in_sync view vk3"
    proof -
      have "in_sync view (snd (if ?c \<noteq> [] then mem_write P ?v ?c vk1 else (Ok (), vk1)))"
        using mem_write_sync [OF laws ms(2)] ms(2) by simp
      then have "in_sync view vk2" unfolding wr by simp
      then have "in_sync view (snd (if 0 < sat_sub ?n (of_nat (length ?c)) then zero_fill P (?v + of_nat (length ?c))
          (sat_sub ?n (of_nat (length ?c))) vk2 else (Ok (), vk2)))"
        using zero_fill_sync [OF laws] by simp
      then show ?thesis unfolding zr by simp
    qed
    have inside: "in_range ?lo (unat (?hi - ?lo)) x" if "in_range ?v (unat ?n) x" for x
      using that b(4,6) al by (simp add: unat_sub word_le_nat_alt)
    have kept3: "mapped_kept content vk vk3"
      unfolding mapped_kept_def
    proof (intro allI impI)
      fix x y assume y: "region_at (regions vk) x = Some y"
      then have out: "\<not> in_range ?lo (unat (?hi - ?lo)) x" using ms(4) [of x] by auto
      then have "\<not> in_range ?v (unat ?n) x" using inside by blast
      then have "content (uc vk3) x = content (uc vk1) x" using fs(2) by (auto simp: same_outside_def)
      then show "region_at (regions vk3) x = Some y \<and> content (uc vk3) x = content (uc vk) x"
        using ms(5) [OF refl out] y r13 by simp
    qed
    have loaded3: "segment_loaded content bias seg vk3"
      unfolding segment_loaded_def using fs(1) ms(4) [OF refl inside] r13 by auto
    have ih: "in_sync view vk' \<and> remapped vk3 vk' \<and> mapped_kept content vk3 vk' \<and> lo \<le> min mn ?lo \<and> max mx ?hi \<le> hi
      \<and> (\<forall>seg \<in> set segs. loads seg \<longrightarrow> segment_loaded content bias seg vk' \<and> within lo hi bias seg)"
      using Cons.prems(3) by (intro Cons.IH [OF rest sync3]) simp
    have "lo \<le> ?lo" "?hi \<le> hi" using ih by simp_all
    then have w: "within lo hi bias seg"
      using b(4,6) unfolding within_def word_le_nat_alt by linarith
    show ?thesis
      using ih w segment_loaded_kept [OF loaded3] mapped_kept_trans [OF kept3]
        remapped_trans [OF ms(3) remapped_trans [OF rem3]] by auto
  qed
qed


definition bias_of :: "Binary \<Rightarrow> u64 \<Rightarrow> u64" where
  "bias_of elf base_hint = (if file_type elf = DYN then base_hint else 0)"

lemma map_elf_binary_run:
  assumes "map_elf_binary P elf base pre vk = (Ok m, vk')"
  shows "map_load_segments P (bias_of elf base) (collect_alloc_sections elf) pre (segments elf) (- 1) 0 vk
      = (Ok (me_min_addr m, me_max_addr m), vk')
    \<and> program_headers_addr elf (bias_of elf base) = Ok (me_phdr m)
    \<and> me_base m = bias_of elf base \<and> me_entry m = sat_add (bias_of elf base) (entrypoint elf)"
proof -
  have bias: "(case file_type elf of DYN \<Rightarrow> base | _ \<Rightarrow> 0) = bias_of elf base"
    by (simp add: bias_of_def split: FileType.split)
  show ?thesis
    using assms unfolding map_elf_binary_def Let_def bias
    by (auto simp: outcome_elim split: if_splits)
qed

text \<open>
  C31: loading a file. When \<open>map_elf_binary\<close> succeeds on segments that fit the address space, every
  loadable segment is in guest memory at its biased address, the file's bytes then zeros up to its
  memory size, in pages with its protection and between the bounds returned; what was mapped before is
  untouched, and the region list is in step with the engine.
\<close>

theorem map_elf_binary_loads:
  fixes vk :: "('u, 'h) Valkyrie"
  assumes laws: "engine_maps P view" "engine_bytes P content" "engine_map_bytes P content"
    and sync: "in_sync view vk"
    and fits: "\<forall>seg \<in> set (segments elf). loads seg \<longrightarrow> segment_fits (bias_of elf base) seg"
    and run: "map_elf_binary P elf base pre vk = (Ok m, vk')"
  shows "(\<forall>seg \<in> set (segments elf). loads seg \<longrightarrow> segment_loaded content (bias_of elf base) seg vk'
      \<and> within (me_min_addr m) (me_max_addr m) (bias_of elf base) seg)
    \<and> mapped_kept content vk vk' \<and> in_sync view vk' \<and> remapped vk vk'"
  using map_load_segments_spec [OF laws conjunct1 [OF map_elf_binary_run [OF run]] sync fits] by blast+

subsection \<open>The program headers\<close>

lemma find_program_headers_Ok:
  "find_program_headers phoff phend bias segs = Ok a \<Longrightarrow>
    \<exists>seg \<in> set segs. sg_type seg = LOAD \<and> sg_file_offset seg \<le> phoff
      \<and> phend \<le> sat_add (sg_file_offset seg) (sg_physical_size seg)
      \<and> a = sat_add (sat_add bias (sg_virtual_address seg)) (sat_sub phoff (sg_file_offset seg))"
  by (induction phoff phend bias segs rule: find_program_headers.induct) (auto simp: Let_def split: if_splits)

lemma guest_bytes_part:
  assumes "guest_bytes content a n vk = bs" and "unat b = unat a + i" and "i + k \<le> n"
  shows "guest_bytes content b k vk = take k (drop i bs)"
  using assms by (auto simp: guest_bytes_def add.assoc intro!: nth_equalityI)

lemma unat_u16_u64: "unat (ucast (x :: u16) :: u64) = unat x"
proof -
  have "unat x < 65536" using unsigned_less [of x] by simp
  then show ?thesis by (simp add: unsigned_ucast_eq take_bit_nat_eq_self)
qed

text \<open>
  The address of the program headers handed to the guest in \<open>AT_PHDR\<close>. It is where the file's
  header table, \<open>phnum\<close> entries of \<open>phentsize\<close> bytes, lies in the loaded image.
\<close>

theorem program_headers_mapped:
  fixes vk :: "('u, 'h) Valkyrie"
  assumes laws: "engine_maps P view" "engine_bytes P content" "engine_map_bytes P content"
    and sync: "in_sync view vk"
    and fits: "\<forall>seg \<in> set (segments elf). sg_type seg = LOAD \<longrightarrow> segment_fits (bias_of elf base) seg
      \<and> unat (sg_physical_size seg) = length (sg_content seg)
      \<and> unat (sg_file_offset seg) + unat (sg_physical_size seg) < 18446744073709551616"
    and table: "n = unat (program_header_size elf) * unat (numberof_segments elf)" "0 < n"
      "unat (program_headers_offset elf) + n < 18446744073709551616"
    and run: "map_elf_binary P elf base pre vk = (Ok m, vk')"
  shows "\<exists>seg \<in> set (segments elf). loads seg \<and> sg_file_offset seg \<le> program_headers_offset elf
    \<and> guest_bytes content (me_phdr m) n vk' =
        take n (drop (unat (program_headers_offset elf) - unat (sg_file_offset seg)) (sg_content seg))"
proof -
  let ?off = "program_headers_offset elf" and ?b = "bias_of elf base"
  have sz: "unat (sat_mul (ucast (program_header_size elf)) (ucast (numberof_segments elf)) :: u64) = n"
  proof -
    have "unat (ucast (program_header_size elf) :: u64) * unat (ucast (numberof_segments elf) :: u64) = n"
      by (simp add: table(1) unat_u16_u64)
    then show ?thesis using table(3) by (simp add: sat_mul_def unat_word_ariths)
  qed
  have phend: "unat (sat_add ?off (sat_mul (ucast (program_header_size elf)) (ucast (numberof_segments elf)))) = unat ?off + n"
    using sz table(3) by (simp add: unat_sat_add)
  note mr = map_elf_binary_run [OF run]
  obtain seg where seg: "seg \<in> set (segments elf)" "sg_type seg = LOAD" "sg_file_offset seg \<le> ?off"
    and stop: "sat_add ?off (sat_mul (ucast (program_header_size elf)) (ucast (numberof_segments elf)))
        \<le> sat_add (sg_file_offset seg) (sg_physical_size seg)"
    and a: "me_phdr m = sat_add (sat_add ?b (sg_virtual_address seg)) (sat_sub ?off (sg_file_offset seg))"
    using find_program_headers_Ok [of ?off _ ?b "segments elf" "me_phdr m"] mr
    by (auto simp: program_headers_addr_def Let_def)
  let ?v = "?b + sg_virtual_address seg" and ?i = "unat ?off - unat (sg_file_offset seg)"
  have f: "segment_fits ?b seg" "unat (sg_physical_size seg) = length (sg_content seg)"
    "unat (sg_file_offset seg) + unat (sg_physical_size seg) < 18446744073709551616"
    using fits seg by auto
  have inside: "?i + n \<le> length (sg_content seg)" and le: "unat (sg_file_offset seg) \<le> unat ?off"
    using stop seg(3) f(2,3) phend by (auto simp: word_le_nat_alt unat_sat_add)
  then have len: "length (sg_content seg) \<le> unat (sg_virtual_size seg)" and "sg_virtual_size seg \<noteq> 0"
    using f(1) table(2) by (auto simp: segment_fits_def)
  then have loads: "loads seg" using seg by (simp add: loads_def)
  note sb = segment_bounds [OF f(1) \<open>sg_virtual_size seg \<noteq> 0\<close>]
  have "segment_loaded content ?b seg vk'"
    using map_load_segments_spec [OF laws conjunct1 [OF mr] sync] fits seg loads by (auto simp: loads_def)
  then have img: "guest_bytes content ?v (unat (sg_virtual_size seg)) vk' =
      sg_content seg @ replicate (unat (sg_virtual_size seg) - length (sg_content seg)) 0"
    by (simp add: segment_loaded_def)
  have i: "unat (sat_sub ?off (sg_file_offset seg)) = ?i" by (simp add: unat_sat_sub)
  have addr: "unat (me_phdr m) = unat ?v + ?i"
    using sb(2) inside len unfolding a sb(1) by (subst sat_add_no_wrap) (simp_all add: i unat_add_no_wrap)
  have "guest_bytes content (me_phdr m) n vk' = take n (drop ?i (sg_content seg @
      replicate (unat (sg_virtual_size seg) - length (sg_content seg)) 0))"
    using inside len by (intro guest_bytes_part [OF img addr]) simp
  then show ?thesis
    using seg loads inside by (intro bexI [of _ seg]) simp_all
qed


section \<open>Page labels\<close>

text \<open>How many bytes of a page a section covers.\<close>

definition overlap :: "u64 \<Rightarrow> u64 \<Rightarrow> SectionSpan \<Rightarrow> nat" where
  "overlap lo hi s = min (unat hi) (unat (ss_end s)) - max (unat lo) (unat (ss_start s))"

lemma best_section_spec:
  "(best_section lo hi ss name best = name \<and> (\<forall>s \<in> set ss. overlap lo hi s \<le> unat best))
   \<or> (\<exists>s \<in> set ss. best_section lo hi ss name best = ss_name s \<and> unat best < overlap lo hi s
        \<and> (\<forall>t \<in> set ss. overlap lo hi t \<le> overlap lo hi s))"
proof (induction lo hi ss name best rule: best_section.induct)
  case (1 lo hi name best)
  then show ?case by simp
next
  case (2 lo hi s ss name best)
  let ?o = "sat_sub (min hi (ss_end s)) (max lo (ss_start s))"
  have o: "unat ?o = overlap lo hi s"
    by (simp add: overlap_def unat_sat_sub min_def max_def word_le_nat_alt)
  consider (out) "ss_end s \<le> lo \<or> ss_start s \<ge> hi" | (better) "\<not> (ss_end s \<le> lo \<or> ss_start s \<ge> hi)" "?o > best"
    | (worse) "\<not> (ss_end s \<le> lo \<or> ss_start s \<ge> hi)" "\<not> ?o > best" by blast
  then show ?case
  proof cases
    case out
    then have "overlap lo hi s = 0" by (auto simp: overlap_def word_le_nat_alt)
    then show ?thesis using "2.IH"(1) [OF out] out by (auto simp: Let_def)
  next
    case better
    then have "unat best < overlap lo hi s" by (simp add: o [symmetric] word_less_nat_alt)
    then show ?thesis using "2.IH"(2) [OF better(1) refl refl refl better(2)] better o by (auto simp: Let_def)
  next
    case worse
    then have "overlap lo hi s \<le> unat best" by (simp add: o [symmetric] word_le_nat_alt not_less)
    then show ?thesis using "2.IH"(3) [OF worse(1) refl refl refl worse(2)] worse o by (auto simp: Let_def)
  qed
qed

text \<open>
  The label of a page. When the mapping of a segment between page bounds succeeds, every page of it
  was free and now has the segment's protection and a label naming a section that covers the most of
  the page, or \<open>segment\<close> when none covers any of it; no other page changes.
\<close>

theorem map_segment_labels_pages:
  fixes vk :: "('u, 'h) Valkyrie"
  assumes laws: "engine_maps P view" "engine_map_bytes P content" and sync: "in_sync view vk"
    and al: "unat start mod 4096 = 0" "unat stop mod 4096 = 0" "start \<le> stop"
    and run: "map_segment_by_section P start stop prot ss PAGE_SIZE None vk = (Ok (), vk')"
    and x: "unat start \<le> x" "x < unat stop"
  shows "region_at (regions vk) x = None \<and> (\<exists>name. region_at (regions vk') x = Some (prot, ''['' @ name @ '']'')
    \<and> (if \<forall>s \<in> set ss. overlap (page_of x) (page_of x + PAGE_SIZE) s = 0 then name = ''segment''
       else \<exists>s \<in> set ss. name = ss_name s
         \<and> (\<forall>t \<in> set ss. overlap (page_of x) (page_of x + PAGE_SIZE) t \<le> overlap (page_of x) (page_of x + PAGE_SIZE) s)))"
proof -
  have "in_range start (unat (stop - start)) x"
    using x al(3) by (simp add: unat_sub word_le_nat_alt)
  note m = map_segment_spec(4) [OF laws sync al run refl this]
  show ?thesis
    using m best_section_spec [of "page_of x" "page_of x + PAGE_SIZE" ss "''segment''" 0]
    by (auto simp: prefixed_section_name_def section_name_for_page_def)
qed

text \<open>
  A shared object loaded above the addresses its sections were linked at loses its section names:
  \<open>collect_alloc_sections\<close> does not add the load bias, so every page of a segment is labelled
  \<open>segment\<close>.
\<close>

theorem shared_object_loses_section_names:
  fixes vk :: "('u, 'h) Valkyrie"
  assumes laws: "engine_maps P view" "engine_map_bytes P content" and sync: "in_sync view vk"
    and al: "unat start mod 4096 = 0" "unat stop mod 4096 = 0" "start \<le> stop"
    and linked: "\<forall>s \<in> set (sections elf). unat (sn_virtual_address s) + unat (sn_size s) \<le> unat start"
    and run: "map_segment_by_section P start stop prot (collect_alloc_sections elf) PAGE_SIZE (Some pre) vk = (Ok (), vk')"
    and x: "unat start \<le> x" "x < unat stop"
  shows "region_at (regions vk') x = Some (prot, ''['' @ pre @ '':segment]'')"
proof -
  have "in_range start (unat (stop - start)) x"
    using x al(3) by (simp add: unat_sub word_le_nat_alt)
  note m = map_segment_spec(4) [OF laws sync al run refl this]
  have px: "unat start \<le> unat (page_of x)"
  proof -
    obtain k where "unat start = 4096 * k" using al(1) by blast
    moreover have "unat (page_of x) = 4096 * (x div 4096)"
      unfolding page_of_def using le_less_trans [OF _ less_trans [OF x(2) unat_bound]] by (intro unat_of_nat_u64) simp
    moreover have "k \<le> x div 4096" using x(1) calculation(1) by (simp add: less_eq_div_iff_mult_less_eq mult.commute)
    ultimately show ?thesis by simp
  qed
  have "overlap (page_of x) (page_of x + PAGE_SIZE) t = 0" if t: "t \<in> set (collect_alloc_sections elf)" for t
  proof -
    obtain s where s: "s \<in> set (sections elf)" "alloc_span s = Some t"
      using t by (auto simp: collect_alloc_sections_def List.map_filter_def)
    then have "ss_end t = sat_add (sn_virtual_address s) (sn_size s)"
      by (auto simp: alloc_span_def Let_def split: if_splits)
    then have "unat (ss_end t) \<le> unat (page_of x)"
      using linked s(1) px by (fastforce simp: unat_sat_add)
    then show ?thesis by (simp add: overlap_def)
  qed
  then have "best_section (page_of x) (page_of x + PAGE_SIZE) (collect_alloc_sections elf) ''segment'' 0 = ''segment''"
    using best_section_spec [of "page_of x" "page_of x + PAGE_SIZE" "collect_alloc_sections elf" "''segment''" 0] by fastforce
  then show ?thesis
    using m by (simp add: prefixed_section_name_def section_name_for_page_def trim_brackets_def)
qed

section \<open>A small file on the reference engine\<close>

definition ref_elf :: Binary where
  "ref_elf = \<lparr>file_type = OtherFileType, entrypoint = 0x700000, program_headers_offset = 1,
     program_header_size = 1, numberof_segments = 2,
     segments = [\<lparr>sg_type = LOAD, sg_virtual_address = 0x700000, sg_virtual_size = 0x800, sg_file_offset = 0,
       sg_physical_size = 4, sg_flags = 5, sg_content = [0x7f, 0x45, 0x4c, 0x46]\<rparr>],
     sections = [\<lparr>sn_name = ''.text'', sn_flags = 6, sn_virtual_address = 0x1000, sn_size = 0x1000\<rparr>],
     interpreter = []\<rparr>"

lemma ref_engine_map_bytes: "engine_map_bytes ref_engine ref_content"
  unfolding engine_map_bytes_def
  by (intro conjI; simp add: ref_engine_def ref_fill_def split: if_splits; fastforce)

lemma ref_700000_free: "0x700000 \<le> x \<Longrightarrow> region_at ref_regions x = None"
  by (simp add: ref_regions_def region_at_def in_region_def)

lemma ref_map_700000: "\<exists>vk'. mem_map ref_engine 0x700000 0x1000 p i (ref_vk X86) = (Ok (), vk')"
  by (simp add: mem_map_def uc_do_def ref_engine_def pages_def ref_700000_free)

lemma ref_mem_write_700000: "\<exists>vk'. mem_write ref_engine 0x700000 [0x7f, 0x45, 0x4c, 0x46] vk = (Ok (), vk')"
  by (simp add: mem_write_def uc_do_def ref_engine_def)

lemma ref_zero_fill_700004: "\<exists>vk'. zero_fill ref_engine 0x700004 0x7fc vk = (Ok (), vk')"
  by (simp add: zero_fill.simps PAGE_SIZE_def uc_do_def ref_engine_def sat_sub_def)

lemma ref_elf_loads: "\<exists>m vk'. map_elf_binary ref_engine ref_elf 0 None (ref_vk X86) = (Ok m, vk')"
proof -
  obtain vk1 where 1: "mem_map ref_engine 0x700000 0x1000 (prot_from_segment_flags 5) ''[segment]'' (ref_vk X86) = (Ok (), vk1)"
    using ref_map_700000 by blast
  obtain vk2 where 2: "mem_write ref_engine 0x700000 [0x7f, 0x45, 0x4c, 0x46] vk1 = (Ok (), vk2)"
    using ref_mem_write_700000 by blast
  obtain vk3 where 3: "zero_fill ref_engine 0x700004 0x7fc vk2 = (Ok (), vk3)"
    using ref_zero_fill_700004 by blast
  show ?thesis
    by (simp add: map_elf_binary_def ref_elf_def Let_def collect_alloc_sections_def alloc_span_def List.map_filter_def sat_add_def
      map_segment_by_section_def align_down_def align_up_def PAGE_SIZE_def map_pages.simps prefixed_section_name_def
      section_name_for_page_def 1 2 3 sat_sub_def program_headers_addr_def sat_mul_def)
qed


lemma ref_elf_fits:
  "\<forall>seg \<in> set (segments ref_elf). segment_fits 0 seg \<and> unat (sg_physical_size seg) = length (sg_content seg)
    \<and> unat (sg_file_offset seg) + unat (sg_physical_size seg) < 18446744073709551616"
  "bias_of ref_elf base = 0"
  by (simp_all add: ref_elf_def segment_fits_def bias_of_def)

theorem map_elf_binary_loads_witness:
  "\<exists>m vk'. map_elf_binary ref_engine ref_elf 0 None (ref_vk X86) = (Ok m, vk')
    \<and> guest_bytes ref_content 0x700000 0x800 vk' = [0x7f, 0x45, 0x4c, 0x46] @ replicate 0x7fc 0"
proof -
  obtain m vk' where run: "map_elf_binary ref_engine ref_elf 0 None (ref_vk X86) = (Ok m, vk')"
    using ref_elf_loads by blast
  have fits: "\<forall>seg \<in> set (segments ref_elf). loads seg \<longrightarrow> segment_fits (bias_of ref_elf 0) seg"
    using ref_elf_fits by simp
  from map_elf_binary_loads [OF ref_engine_maps ref_engine_bytes ref_engine_map_bytes ref_in_sync fits run] run
  show ?thesis
    by (auto simp: ref_elf_def loads_def segment_loaded_def bias_of_def)
qed

theorem program_headers_mapped_witness:
  "\<exists>m vk'. map_elf_binary ref_engine ref_elf 0 None (ref_vk X86) = (Ok m, vk')
    \<and> guest_bytes ref_content (me_phdr m) 2 vk' = [0x45, 0x4c]"
proof -
  obtain m vk' where run: "map_elf_binary ref_engine ref_elf 0 None (ref_vk X86) = (Ok m, vk')"
    using ref_elf_loads by blast
  have fits: "\<forall>seg \<in> set (segments ref_elf). sg_type seg = LOAD \<longrightarrow> segment_fits (bias_of ref_elf 0) seg
      \<and> unat (sg_physical_size seg) = length (sg_content seg)
      \<and> unat (sg_file_offset seg) + unat (sg_physical_size seg) < 18446744073709551616"
    unfolding ref_elf_fits(2) using ref_elf_fits(1) by blast
  have n: "2 = unat (program_header_size ref_elf) * unat (numberof_segments ref_elf)"
    "unat (program_headers_offset ref_elf) + 2 < 18446744073709551616" by (simp_all add: ref_elf_def)
  from program_headers_mapped [OF ref_engine_maps ref_engine_bytes ref_engine_map_bytes ref_in_sync fits n(1) _ n(2) run] run
  show ?thesis
    by (auto simp: ref_elf_def)
qed

definition ref_sections :: "SectionSpan list" where
  "ref_sections = [\<lparr>ss_start = 0x700000, ss_end = 0x700100, ss_name = ''.init''\<rparr>,
     \<lparr>ss_start = 0x700100, ss_end = 0x700f00, ss_name = ''.text''\<rparr>]"

lemma ref_map_segment:
  "\<exists>vk'. map_segment_by_section ref_engine 0x700000 0x701000 Prot_READ ss PAGE_SIZE pre (ref_vk X86) = (Ok (), vk')"
proof -
  obtain vk1 where "mem_map ref_engine 0x700000 0x1000 Prot_READ
      (prefixed_section_name (section_name_for_page 0x700000 0x701000 ss) pre) (ref_vk X86) = (Ok (), vk1)"
    using ref_map_700000 by blast
  then show ?thesis
    by (simp add: map_segment_by_section_def PAGE_SIZE_def map_pages.simps sat_sub_def)
qed

theorem map_segment_labels_pages_witness:
  "\<exists>vk'. map_segment_by_section ref_engine 0x700000 0x701000 Prot_READ ref_sections PAGE_SIZE None (ref_vk X86) = (Ok (), vk')
    \<and> region_at (regions vk') 0x700010 = Some (Prot_READ, ''[.text]'')"
proof -
  obtain vk' where run: "map_segment_by_section ref_engine 0x700000 0x701000 Prot_READ ref_sections PAGE_SIZE None
      (ref_vk X86) = (Ok (), vk')"
    using ref_map_segment by blast
  have "page_of 0x700010 = 0x700000" by (simp add: page_of_def)
  with map_segment_labels_pages [where x = "0x700010", OF ref_engine_maps ref_engine_map_bytes ref_in_sync _ _ _ run] run
  show ?thesis
    by (auto simp: ref_sections_def overlap_def PAGE_SIZE_def)
qed

theorem shared_object_loses_section_names_witness:
  "\<exists>vk'. map_segment_by_section ref_engine 0x700000 0x701000 Prot_READ (collect_alloc_sections ref_elf) PAGE_SIZE
      (Some ''ld.so'') (ref_vk X86) = (Ok (), vk')
    \<and> region_at (regions vk') 0x700010 = Some (Prot_READ, ''[ld.so:segment]'')"
proof -
  obtain vk' where run: "map_segment_by_section ref_engine 0x700000 0x701000 Prot_READ (collect_alloc_sections ref_elf)
      PAGE_SIZE (Some ''ld.so'') (ref_vk X86) = (Ok (), vk')"
    using ref_map_segment by blast
  from shared_object_loses_section_names [where x = "0x700010", OF ref_engine_maps ref_engine_map_bytes ref_in_sync _ _ _ _ run] run
  show ?thesis
    by (auto simp: ref_elf_def)
qed

end
