(* ===== verification/Vk_LoadRun.thy ===== *)
theory Vk_LoadRun
  imports Vk_ElfImage
begin

text \<open>
  What the loaders guarantee as a whole: the contract of \<open>Loader::run\<close> as a locale, its two
  interpretations, the address space they lay out and what is in it when the guest starts.
\<close>

section \<open>The address space a loader lays out\<close>

text \<open>
  The contract of \<open>Loader::run\<close>: the thread-local page, the stack and the heap are placed one after
  the other above the code, a page apart, with the configured sizes; stack and heap are mapped and the
  list of regions stays in step with the engine.
\<close>

definition laid_out :: "('u, 'h) Valkyrie \<Rightarrow> bool" where
  "laid_out vk \<longleftrightarrow>
     tls_addr_start (vmem vk) = align_up (code_addr_exit (vmem vk) + PAGE_SIZE) PAGE_SIZE
   \<and> tls_addr_exit (vmem vk) = tls_addr_start (vmem vk) + PAGE_SIZE
   \<and> stack_addr_start (vmem vk) = align_up (tls_addr_exit (vmem vk) + PAGE_SIZE) PAGE_SIZE
   \<and> stack_addr_exit (vmem vk) = stack_addr_start (vmem vk) + c_stack_size (cfg vk)
   \<and> heap_addr_start (vmem vk) = align_up (stack_addr_exit (vmem vk) + PAGE_SIZE) PAGE_SIZE
   \<and> heap_addr_exit (vmem vk) = heap_addr_start (vmem vk) + c_heap_size (cfg vk)
   \<and> c_stack_size (cfg vk) \<noteq> 0 \<and> c_heap_size (cfg vk) \<noteq> 0"

text \<open>No bound of the layout wraps to 0: nothing reaches the top of the address space.\<close>

definition below_end :: "('u, 'h) Valkyrie \<Rightarrow> bool" where
  "below_end vk \<longleftrightarrow> code_addr_exit (vmem vk) \<noteq> 0 \<and> stack_addr_exit (vmem vk) \<noteq> 0 \<and> heap_addr_exit (vmem vk) \<noteq> 0"

definition stack_at :: "('u, 'h) Valkyrie \<Rightarrow> nat \<Rightarrow> bool" where
  "stack_at vk x \<longleftrightarrow> region_at (regions vk) x = Some (Prot_ALL, ''[stack]'')"

lemma align_up_page_mult: "unat (align_up v PAGE_SIZE) mod 4096 = 0"
  unfolding align_up_page_eq using unat_and_not_mask [of "v + 4095" 12] by simp

text \<open>The stack starts two pages above the thread-local range, whatever the code's size.\<close>

lemma stack_above_tls:
  assumes "laid_out vk"
  shows "stack_addr_start (vmem vk) = tls_addr_start (vmem vk) + 0x2000"
proof -
  let ?t = "tls_addr_start (vmem vk)"
  have m: "unat ?t mod 4096 = 0"
    using assms by (simp add: laid_out_def align_up_page_mult)
  have "unat (?t + 0x2000) mod 4096 = (unat ?t + 0x2000) mod 2 ^ 64 mod 4096"
    unfolding unat_word_ariths(1) by simp
  also have "\<dots> = (unat ?t + 0x2000) mod 4096"
    by (rule mod_mod_cancel) simp
  also have "\<dots> = 0"
    using m by (simp add: mod_add_left_eq [of "unat ?t" 4096 8192, symmetric])
  finally have "align_up (?t + 0x2000) PAGE_SIZE = ?t + 0x2000"
    by (rule align_up_self)
  then show ?thesis
    using assms by (simp add: laid_out_def PAGE_SIZE_def add.assoc)
qed

text \<open>Without wrap-around the ranges are in order, with a page between two of them.\<close>

lemma layout_order:
  assumes "laid_out vk" and "unat (code_addr_exit (vmem vk)) + unat (c_stack_size (cfg vk)) + unat (c_heap_size (cfg vk)) + 0x8000
      \<le> 18446744073709551616"
  shows "unat (code_addr_exit (vmem vk)) + 4096 \<le> unat (tls_addr_start (vmem vk))"
    "unat (tls_addr_exit (vmem vk)) = unat (tls_addr_start (vmem vk)) + 4096"
    "unat (stack_addr_start (vmem vk)) = unat (tls_addr_exit (vmem vk)) + 4096"
    "unat (stack_addr_exit (vmem vk)) = unat (stack_addr_start (vmem vk)) + unat (c_stack_size (cfg vk))"
    "unat (stack_addr_exit (vmem vk)) + 4096 \<le> unat (heap_addr_start (vmem vk))"
    "unat (heap_addr_exit (vmem vk)) = unat (heap_addr_start (vmem vk)) + unat (c_heap_size (cfg vk))"
proof -
  have up: "unat v \<le> unat (align_up v PAGE_SIZE)" "unat (align_up v PAGE_SIZE) \<le> unat v + 4095"
    if "unat v + 4095 < 18446744073709551616" for v
  proof -
    have "unat v + 4095 < 2 ^ 64" using that by simp
    from unat_align_up_page [OF this] show "unat v \<le> unat (align_up v PAGE_SIZE)"
      "unat (align_up v PAGE_SIZE) \<le> unat v + 4095"
      using round_up_ge [of 4096 "unat v"] div_times_less_eq_dividend [of "unat v + 4095" 4096] by simp_all
  qed
  note l = assms(1) [unfolded laid_out_def]
  have c: "unat (code_addr_exit (vmem vk) + PAGE_SIZE) = unat (code_addr_exit (vmem vk)) + 4096"
    using assms(2) by (subst unat_add_no_wrap) (simp_all add: unat_PAGE_SIZE)
  have t: "unat (code_addr_exit (vmem vk)) + 4096 \<le> unat (tls_addr_start (vmem vk))"
    "unat (tls_addr_start (vmem vk)) \<le> unat (code_addr_exit (vmem vk)) + 8191"
    using up [of "code_addr_exit (vmem vk) + PAGE_SIZE"] l c assms(2) by simp_all
  have te: "unat (tls_addr_exit (vmem vk)) = unat (tls_addr_start (vmem vk)) + 4096"
    using l t(2) assms(2) by (simp add: unat_add_no_wrap unat_PAGE_SIZE)
  have s: "unat (stack_addr_start (vmem vk)) = unat (tls_addr_exit (vmem vk)) + 4096"
    unfolding stack_above_tls [OF assms(1)] te using t(2) assms(2) by (subst unat_add_no_wrap) simp_all
  have se: "unat (stack_addr_exit (vmem vk)) = unat (stack_addr_start (vmem vk)) + unat (c_stack_size (cfg vk))"
    using l t(2) te s assms(2) by (simp add: unat_add_no_wrap)
  have h0: "unat (stack_addr_exit (vmem vk) + PAGE_SIZE) = unat (stack_addr_exit (vmem vk)) + 4096"
    using t(2) te s se assms(2) by (subst unat_add_no_wrap) (simp_all add: unat_PAGE_SIZE)
  have h: "unat (stack_addr_exit (vmem vk)) + 4096 \<le> unat (heap_addr_start (vmem vk))"
    "unat (heap_addr_start (vmem vk)) \<le> unat (stack_addr_exit (vmem vk)) + 8191"
    using up [of "stack_addr_exit (vmem vk) + PAGE_SIZE"] l h0 t(2) te s se assms(2) by simp_all
  have he: "unat (heap_addr_exit (vmem vk)) = unat (heap_addr_start (vmem vk)) + unat (c_heap_size (cfg vk))"
    using l h(2) se s te t(2) assms(2) by (simp add: unat_add_no_wrap)
  show "unat (code_addr_exit (vmem vk)) + 4096 \<le> unat (tls_addr_start (vmem vk))"
    "unat (tls_addr_exit (vmem vk)) = unat (tls_addr_start (vmem vk)) + 4096"
    "unat (stack_addr_start (vmem vk)) = unat (tls_addr_exit (vmem vk)) + 4096"
    "unat (stack_addr_exit (vmem vk)) = unat (stack_addr_start (vmem vk)) + unat (c_stack_size (cfg vk))"
    "unat (stack_addr_exit (vmem vk)) + 4096 \<le> unat (heap_addr_start (vmem vk))"
    "unat (heap_addr_exit (vmem vk)) = unat (heap_addr_start (vmem vk)) + unat (c_heap_size (cfg vk))"
    using t te s se h he by simp_all
qed


section \<open>Both loaders honour the contract\<close>

lemma top_fits: "a + n \<noteq> 0 \<Longrightarrow> unat a + unat n \<noteq> 2 ^ 64" for a n :: u64
  using tls_fits [of "a + n" a] by simp

lemma set_reg_keeps:
  "cfg (snd (set_reg P r v vk)) = cfg vk" "vmem (snd (set_reg P r v vk)) = vmem vk"
  "elf_auxv (snd (set_reg P r v vk)) = elf_auxv vk"
  by (auto simp: set_reg_def note_reg_update_def set_reg_x86_def set_reg_x86_64_def uc_do_uc
      split: Arch.split VRegister.split)

lemma mem_map_frame:
  assumes "mem_map P a n p i vk = (r, vk')"
  shows "cfg vk' = cfg vk" "\<exists>rs. vmem vk' = (vmem vk)\<lparr>m_regions := rs\<rparr>" "elf_auxv vk' = elf_auxv vk"
  using remapped_mem_map [of vk P a n p i] assms by (auto simp: remapped_def)

text \<open>Mapping the stack and the heap and setting the stack pointer, the last steps of both.\<close>

lemma arena_frame:
  assumes m1: "mem_map P s n Prot_ALL ''[stack]'' v0 = (Ok (), v1)"
    and m2: "mem_map P h k Prot_ALL ''[heap]'' (v1\<lparr>vmem := (vmem v1)\<lparr>heap_addr_start := h, heap_addr_exit := h + k\<rparr>\<rparr>) = (Ok (), v2)"
    and sp: "set_reg P r v v2 = (Ok (), v3)"
  shows "cfg v3 = cfg v0" "\<exists>rs. vmem v3 = (vmem v0)\<lparr>heap_addr_start := h, heap_addr_exit := h + k, m_regions := rs\<rparr>"
    "elf_auxv v3 = elf_auxv v0"
  using mem_map_frame [OF m1] mem_map_frame [OF m2] set_reg_keeps [of P r v v2] sp by auto

lemma arena_sync:
  assumes laws: "engine_maps P view" and sync: "in_sync view v0"
    and m1: "mem_map P s n Prot_ALL ''[stack]'' v0 = (Ok (), v1)"
    and m2: "mem_map P h k Prot_ALL ''[heap]'' (v1\<lparr>vmem := (vmem v1)\<lparr>heap_addr_start := h, heap_addr_exit := h + k\<rparr>\<rparr>) = (Ok (), v2)"
    and sp: "set_reg P r v v2 = (Ok (), v3)" and top: "s + n \<noteq> 0" "h + k \<noteq> 0"
  shows "in_sync view v3" "in_range s (unat n) x \<Longrightarrow> stack_at v3 x"
proof -
  let ?w = "v1\<lparr>vmem := (vmem v1)\<lparr>heap_addr_start := h, heap_addr_exit := h + k\<rparr>\<rparr>"
  have s1: "in_sync view v1"
    using mem_map_spec [OF laws sync top_fits [OF top(1)], of Prot_ALL "''[stack]''"] m1 by simp
  then have sw: "in_sync view ?w" by (simp add: in_sync_def)
  have s2: "in_sync view v2"
    using mem_map_spec [OF laws sw top_fits [OF top(2)], of Prot_ALL "''[heap]''"] m2 by simp
  show "in_sync view v3" using set_reg_sync [OF laws s2, of r v] sp by simp
  assume x: "in_range s (unat n) x"
  have "region_at (regions v1) x = Some (Prot_ALL, ''[stack]'')"
    using mem_map_Ok(2) [OF laws sync top_fits [OF top(1)], of Prot_ALL "''[stack]''" x] m1 x by simp
  then have "region_at (regions v2) x = Some (Prot_ALL, ''[stack]'')"
    using mem_map_Ok [OF laws sw top_fits [OF top(2)], of Prot_ALL "''[heap]''" x] m2 by (auto split: if_splits)
  then show "stack_at v3 x"
    using set_reg_keeps [of P r v v2] sp by (simp add: stack_at_def)
qed

text \<open>Up to the stack, and the whole layout after the last steps.\<close>

definition laid_base :: "('u, 'h) Valkyrie \<Rightarrow> bool" where
  "laid_base vk \<longleftrightarrow>
     tls_addr_start (vmem vk) = align_up (code_addr_exit (vmem vk) + PAGE_SIZE) PAGE_SIZE
   \<and> tls_addr_exit (vmem vk) = tls_addr_start (vmem vk) + PAGE_SIZE
   \<and> stack_addr_start (vmem vk) = align_up (tls_addr_exit (vmem vk) + PAGE_SIZE) PAGE_SIZE
   \<and> stack_addr_exit (vmem vk) = stack_addr_start (vmem vk) + c_stack_size (cfg vk)
   \<and> c_stack_size (cfg vk) \<noteq> 0 \<and> c_heap_size (cfg vk) \<noteq> 0"

definition arena ::
  "('u, 'h) platform \<Rightarrow> VRegister \<Rightarrow> u64 \<Rightarrow> ('u, 'h) Valkyrie \<Rightarrow> ('u, 'h) Valkyrie \<Rightarrow> bool" where
  "arena P r v v0 v3 \<longleftrightarrow> (\<exists>v1 v2 h. laid_base v0
     \<and> h = align_up (stack_addr_exit (vmem v0) + PAGE_SIZE) PAGE_SIZE
     \<and> mem_map P (stack_addr_start (vmem v0)) (c_stack_size (cfg v0)) Prot_ALL ''[stack]'' v0 = (Ok (), v1)
     \<and> mem_map P h (c_heap_size (cfg v0)) Prot_ALL ''[heap]''
         (v1\<lparr>vmem := (vmem v1)\<lparr>heap_addr_start := h, heap_addr_exit := h + c_heap_size (cfg v0)\<rparr>\<rparr>) = (Ok (), v2)
     \<and> set_reg P r v v2 = (Ok (), v3))"

lemma arena_laid_out:
  assumes "arena P r v v0 v3"
  shows "laid_out v3" "cfg v3 = cfg v0"
    "\<exists>rs h x. vmem v3 = (vmem v0)\<lparr>heap_addr_start := h, heap_addr_exit := x, m_regions := rs\<rparr>"
    "elf_auxv v3 = elf_auxv v0"
proof -
  obtain v1 v2 h where a: "laid_base v0" "h = align_up (stack_addr_exit (vmem v0) + PAGE_SIZE) PAGE_SIZE"
    "mem_map P (stack_addr_start (vmem v0)) (c_stack_size (cfg v0)) Prot_ALL ''[stack]'' v0 = (Ok (), v1)"
    "mem_map P h (c_heap_size (cfg v0)) Prot_ALL ''[heap]''
         (v1\<lparr>vmem := (vmem v1)\<lparr>heap_addr_start := h, heap_addr_exit := h + c_heap_size (cfg v0)\<rparr>\<rparr>) = (Ok (), v2)"
    "set_reg P r v v2 = (Ok (), v3)"
    using assms unfolding arena_def by blast
  note f = arena_frame [OF a(3-5)]
  then obtain rs where "vmem v3 = (vmem v0)\<lparr>heap_addr_start := h, heap_addr_exit := h + c_heap_size (cfg v0), m_regions := rs\<rparr>"
    by blast
  with f(1,3) a(1,2) show "laid_out v3" "cfg v3 = cfg v0"
    "\<exists>rs h x. vmem v3 = (vmem v0)\<lparr>heap_addr_start := h, heap_addr_exit := x, m_regions := rs\<rparr>"
    "elf_auxv v3 = elf_auxv v0"
    by (auto simp: laid_out_def laid_base_def)
qed

lemma arena_in_sync:
  assumes laws: "engine_maps P view" and sync: "in_sync view v0" and a: "arena P r v v0 v3" and top: "below_end v3"
  shows "in_sync view v3"
    "in_range (stack_addr_start (vmem v3)) (unat (c_stack_size (cfg v3))) x \<Longrightarrow> stack_at v3 x"
proof -
  obtain v1 v2 h where a': "laid_base v0" "h = align_up (stack_addr_exit (vmem v0) + PAGE_SIZE) PAGE_SIZE"
    "mem_map P (stack_addr_start (vmem v0)) (c_stack_size (cfg v0)) Prot_ALL ''[stack]'' v0 = (Ok (), v1)"
    "mem_map P h (c_heap_size (cfg v0)) Prot_ALL ''[heap]''
         (v1\<lparr>vmem := (vmem v1)\<lparr>heap_addr_start := h, heap_addr_exit := h + c_heap_size (cfg v0)\<rparr>\<rparr>) = (Ok (), v2)"
    "set_reg P r v v2 = (Ok (), v3)"
    using a unfolding arena_def by blast
  note f = arena_frame [OF a'(3-5)]
  have "stack_addr_start (vmem v0) + c_stack_size (cfg v0) \<noteq> 0" "h + c_heap_size (cfg v0) \<noteq> 0"
    using f top a'(1) by (auto simp: below_end_def laid_base_def)
  note s = arena_sync [OF laws sync a'(3-5) this]
  show "in_sync view v3" by (rule s(1))
  show "stack_at v3 x" if "in_range (stack_addr_start (vmem v3)) (unat (c_stack_size (cfg v3))) x"
    using s(2) f that by auto
qed

lemma blob_steps:
  assumes "loader_blob_run P vk = (Ok a, vk')"
  shows "\<exists>v1 v2 v3. mem_map P (c_code_base_address (cfg vk)) (c_code_ram_size (cfg vk)) Prot_ALL ''[code]'' vk = (Ok (), v1)
    \<and> mem_write P (c_code_base_address (cfg vk)) (c_baremetal_code (cfg vk)) v1 = (Ok (), v2)
    \<and> v3 = v2\<lparr>vmem := vmem v3\<rparr> \<and> regions v3 = regions v2
    \<and> code_addr_exit (vmem v3) = c_code_base_address (cfg vk) + c_code_ram_size (cfg vk)
    \<and> arena P (sp_register vk) (stack_addr_exit (vmem v3) - 0x10) v3 vk' \<and> a = c_code_base_address (cfg vk)"
proof -
  have nz: "c_code_ram_size (cfg vk) \<noteq> 0" "c_baremetal_code (cfg vk) \<noteq> []"
    using assms(1) by (auto simp: loader_blob_run_def Let_def split: if_splits)
  obtain v1 v2 where m1: "mem_map P (c_code_base_address (cfg vk)) (c_code_ram_size (cfg vk)) Prot_ALL ''[code]'' vk = (Ok (), v1)"
    and w: "mem_write P (c_code_base_address (cfg vk)) (c_baremetal_code (cfg v1)) v1 = (Ok (), v2)"
    using assms(1) nz by (auto simp: loader_blob_run_def Let_def and_then_unit)
  have c: "cfg v1 = cfg vk" "cfg v2 = cfg vk"
    using mem_map_frame [OF m1] w by (auto simp: mem_write_def uc_do_def split: if_splits prod.splits sum.splits)
  have ss: "c_stack_size (cfg vk) \<noteq> 0"
    using assms(1) nz m1 w c by (auto simp: loader_blob_run_def Let_def and_then_unit split: if_splits)
  let ?c = "cfg vk"
  define cx where "cx = c_code_base_address ?c + c_code_ram_size ?c"
  define ts where "ts = align_up (cx + PAGE_SIZE) PAGE_SIZE"
  define sa where "sa = align_up (ts + PAGE_SIZE + PAGE_SIZE) PAGE_SIZE"
  define h where "h = align_up (sa + c_stack_size ?c + PAGE_SIZE) PAGE_SIZE"
  let ?v2 = "v2\<lparr>vmem := (vmem v2)\<lparr>code_addr_start := c_code_base_address (cfg vk),
        code_addr_exit := cx, tls_addr_start := ts, tls_addr_exit := ts + PAGE_SIZE,
        stack_addr_start := sa, stack_addr_exit := sa + c_stack_size (cfg vk)\<rparr>\<rparr>"
  have step: "and_then (mem_map P sa (c_stack_size ?c) Prot_ALL ''[stack]'' ?v2) (\<lambda>_ vk.
      let heap_addr = align_up (stack_addr_exit (vmem vk) + PAGE_SIZE) PAGE_SIZE;
          heap_size = c_heap_size (cfg vk);
          vk = vk\<lparr>vmem := (vmem vk)\<lparr>heap_addr_start := heap_addr, heap_addr_exit := heap_addr + heap_size\<rparr>\<rparr> in
      if heap_size = 0 then (Err (BadConfig ''heap_size must be > 0''), vk)
      else
      and_then (mem_map P heap_addr heap_size Prot_ALL ''[heap]'' vk) (\<lambda>_ vk.
      and_then (set_reg P (sp_register vk) (sa + c_stack_size ?c - 0x10) vk) (\<lambda>_ vk.
      (Ok (c_code_base_address ?c), vk)))) = (Ok a, vk')"
    using assms(1) nz m1 w c ss
    by (simp add: loader_blob_run_def Let_def sa_def ts_def cx_def cong: if_cong)
  then obtain v3 where m3: "mem_map P sa (c_stack_size ?c) Prot_ALL ''[stack]'' ?v2 = (Ok (), v3)"
    by (auto simp: and_then_unit)
  have c3: "cfg v3 = ?c" "stack_addr_exit (vmem v3) = sa + c_stack_size ?c"
    using mem_map_frame [OF m3] c by auto
  let ?v3 = "v3\<lparr>vmem := (vmem v3)\<lparr>heap_addr_start := h, heap_addr_exit := h + c_heap_size ?c\<rparr>\<rparr>"
  have step': "and_then (mem_map P h (c_heap_size ?c) Prot_ALL ''[heap]'' ?v3) (\<lambda>_ vk.
      and_then (set_reg P (sp_register vk) (sa + c_stack_size ?c - 0x10) vk) (\<lambda>_ vk.
      (Ok (c_code_base_address ?c), vk))) = (Ok a, vk')" and hs: "c_heap_size ?c \<noteq> 0"
    using step m3 c3 by (auto simp: Let_def h_def split: if_splits)
  then obtain v4 where m4: "mem_map P h (c_heap_size ?c) Prot_ALL ''[heap]'' ?v3 = (Ok (), v4)"
    by (auto simp: and_then_unit)
  then have "cfg v4 = ?c" using mem_map_frame [OF m4] c3 by simp
  then have "sp_register v4 = sp_register vk" by (simp add: sp_register_def)
  then have "set_reg P (sp_register vk) (sa + c_stack_size ?c - 0x10) v4 = (Ok (), vk')" "a = c_code_base_address ?c"
    using step' m4 by (auto simp: and_then_unit)
  moreover have "laid_base ?v2"
    using ss hs c by (simp add: laid_base_def ts_def sa_def add.assoc)
  ultimately have "arena P (sp_register vk) (stack_addr_exit (vmem ?v2) - 0x10) ?v2 vk'"
    unfolding arena_def using m3 m4 c by (auto simp: h_def)
  with m1 w \<open>a = _\<close> show ?thesis
    by - (rule exI [of _ v1], rule exI [of _ v2], rule exI [of _ ?v2], simp add: cx_def c)
qed

lemma mem_write_cfg: "mem_write P a d vk = (r, vk') \<Longrightarrow> cfg vk' = cfg vk \<and> vmem vk' = vmem vk"
  by (auto simp: mem_write_def uc_do_def split: if_splits prod.splits sum.splits)

lemma blob_contract:
  assumes run: "loader_blob_run P vk = (Ok a, vk')"
  shows "laid_out vk'" "cfg vk' = cfg vk"
    "engine_maps P view \<Longrightarrow> in_sync view vk \<Longrightarrow> below_end vk' \<Longrightarrow> in_sync view vk'"
    "engine_maps P view \<Longrightarrow> in_sync view vk \<Longrightarrow> below_end vk' \<Longrightarrow>
      in_range (stack_addr_start (vmem vk')) (unat (c_stack_size (cfg vk'))) x \<Longrightarrow> stack_at vk' x"
proof -
  obtain v1 v2 v3 where m: "mem_map P (c_code_base_address (cfg vk)) (c_code_ram_size (cfg vk)) Prot_ALL ''[code]'' vk = (Ok (), v1)"
    and w: "mem_write P (c_code_base_address (cfg vk)) (c_baremetal_code (cfg vk)) v1 = (Ok (), v2)"
    and v3: "v3 = v2\<lparr>vmem := vmem v3\<rparr>" "regions v3 = regions v2"
      "code_addr_exit (vmem v3) = c_code_base_address (cfg vk) + c_code_ram_size (cfg vk)"
    and ar: "arena P (sp_register vk) (stack_addr_exit (vmem v3) - 0x10) v3 vk'"
    using blob_steps [OF run] by blast
  note l = arena_laid_out [OF ar]
  show "laid_out vk'" by (rule l(1))
  have "cfg v3 = cfg v2" by (subst v3(1)) simp
  then show "cfg vk' = cfg vk"
    using l(2) mem_write_cfg [OF w] mem_map_frame [OF m] by simp
  have s3: "in_sync view v3" if laws: "engine_maps P view" and sync: "in_sync view vk" and top: "below_end vk'"
  proof -
    have "c_code_base_address (cfg vk) + c_code_ram_size (cfg vk) \<noteq> 0"
      using l(3) top v3(3) by (auto simp: below_end_def)
    from mem_map_spec [OF laws sync top_fits [OF this], of Prot_ALL "''[code]''"] m
    have "in_sync view v1" by simp
    then have "in_sync view v2" using mem_write_sync [OF laws, of v1 "c_code_base_address (cfg vk)"] w by (metis snd_conv)
    moreover have "uc v3 = uc v2" by (subst v3(1)) simp
    ultimately show ?thesis using v3(2) by (simp add: in_sync_def)
  qed
  show "in_sync view vk'" if "engine_maps P view" "in_sync view vk" "below_end vk'"
    using arena_in_sync(1) [OF that(1) s3 ar that(3)] that by blast
  show "stack_at vk' x" if "engine_maps P view" "in_sync view vk" "below_end vk'"
    "in_range (stack_addr_start (vmem vk')) (unat (c_stack_size (cfg vk'))) x"
    using arena_in_sync(2) [OF that(1) s3 ar that(3)] that by blast
qed


section \<open>The ELF loader\<close>

text \<open>Whatever the outcome, mapping a file touches the engine and the region list only.\<close>

lemma map_pages_remapped:
  assumes "map_pages P stop prot l ps cur cs lab vk = Some r"
  shows "remapped vk (snd r)"
proof -
  have "(\<lambda>t r. remapped (snd t) (snd r)) ((((((((P, stop), prot), l), ps), cur), cs), lab), vk) r"
    by (rule map_pages.raw_induct [OF _ assms])
      (simp add: Let_def split: if_splits;
        metis remapped_refl remapped_trans remapped_mem_map prod.collapse snd_conv)
  then show ?thesis by simp
qed

lemma map_segment_remapped: "remapped vk (snd (map_segment_by_section P a b p ss n pre vk))"
  by (auto simp: map_segment_by_section_def Let_def remapped_refl map_pages_remapped split: option.split)

text \<open>Mapping a range whose bounds are in the wrong order does nothing.\<close>

lemma map_segment_sync:
  assumes laws: "engine_maps P view" and sync: "in_sync view vk"
    and al: "unat a mod 4096 = 0" "unat b mod 4096 = 0"
  shows "in_sync view (snd (map_segment_by_section P a b p ss PAGE_SIZE pre vk))"
proof (cases "a \<le> b")
  case True
  have "engine_map_bytes P (\<lambda>_ _. 0)" by (simp add: engine_map_bytes_def)
  from map_segment_spec(2) [OF laws this sync al True] show ?thesis by (metis prod.collapse)
next
  case False
  then have "\<not> a < b" by simp
  then have "map_pages P b p l PAGE_SIZE a a lab vk = Some (Ok (), vk)" for l lab
    by (subst map_pages.simps) simp
  then show ?thesis
    using sync by (simp add: map_segment_by_section_def Let_def)
qed

lemma mem_write_remapped: "remapped vk (snd (mem_write P a d vk))"
  by (auto simp: mem_write_def uc_do_uc remapped_refl intro: remapped_uc)

lemma zero_fill_remapped: "remapped vk (snd (zero_fill P a n vk))"
proof (induction P a n vk rule: zero_fill.induct)
  case (1 P a n vk)
  let ?r = "uc_do (\<lambda>_. UnicornGeneralError ''mem_write failed'') (uc_mem_write P a (replicate (unat (min n PAGE_SIZE)) 0)) vk"
  have r: "remapped vk (snd ?r)" by (simp add: uc_do_uc remapped_uc)
  have "remapped vk (snd (and_then ?r (\<lambda>_ vk. zero_fill P (sat_add a (min n PAGE_SIZE)) (sat_sub n (min n PAGE_SIZE)) vk)))"
    if "n \<noteq> 0"
    by (rule and_then_keeps [where P = "remapped vk"]) (use r "1.IH" [OF that refl] remapped_trans in blast)+
  then show ?case
    unfolding zero_fill.simps [of P a n vk] by (simp add: Let_def remapped_refl)
qed

lemma map_load_segments_keeps:
  assumes prim: "\<And>a b p vk. I vk \<Longrightarrow> unat a mod 4096 = 0 \<Longrightarrow> unat b mod 4096 = 0 \<Longrightarrow>
      I (snd (map_segment_by_section P a b p ss PAGE_SIZE pre vk))"
    "\<And>a d vk. I vk \<Longrightarrow> I (snd (mem_write P a d vk))" "\<And>a n vk. I vk \<Longrightarrow> I (snd (zero_fill P a n vk))"
  shows "I vk \<Longrightarrow> I (snd (map_load_segments P bias ss pre segs mn mx vk))"
proof (induction segs arbitrary: mn mx vk)
  case Nil
  then show ?case by simp
next
  case (Cons seg segs)
  show ?case
    using Cons.prems
    by (auto simp: Let_def prim Cons.IH unat_align_down_page align_up_page_mult intro!: and_then_keeps [where P = I])
qed

lemma map_elf_binary_keeps:
  assumes "\<And>a b p ss pre vk. I vk \<Longrightarrow> unat a mod 4096 = 0 \<Longrightarrow> unat b mod 4096 = 0 \<Longrightarrow>
      I (snd (map_segment_by_section P a b p ss PAGE_SIZE pre vk))"
    "\<And>a d vk. I vk \<Longrightarrow> I (snd (mem_write P a d vk))" "\<And>a n vk. I vk \<Longrightarrow> I (snd (zero_fill P a n vk))"
  shows "I vk \<Longrightarrow> I (snd (map_elf_binary P elf base pre vk))"
  unfolding map_elf_binary_def Let_def
  by (rule and_then_keeps [where P = I])
    (auto intro!: map_load_segments_keeps [where I = I] and_then_keeps [where P = I] assms split: prod.split)

lemma map_elf_sync:
  "engine_maps P view \<Longrightarrow> in_sync view vk \<Longrightarrow> in_sync view (snd (map_elf_binary P elf base pre vk))"
  by (rule map_elf_binary_keeps [where I = "in_sync view"]) (simp_all add: map_segment_sync mem_write_sync zero_fill_sync)

text \<open>The configuration and everything but the engine and the regions.\<close>

lemma map_elf_remapped: "remapped vk (snd (map_elf_binary P elf base pre vk))"
proof (rule map_elf_binary_keeps [where I = "remapped vk"])
  show "remapped vk (snd (map_segment_by_section P a b p ss PAGE_SIZE pre s))" if "remapped vk s" for a b p ss pre s
    using remapped_trans [OF that map_segment_remapped] .
  show "remapped vk (snd (mem_write P a d s))" if "remapped vk s" for a d s
    using remapped_trans [OF that mem_write_remapped] .
  show "remapped vk (snd (zero_fill P a n s))" if "remapped vk s" for a n s
    using remapped_trans [OF that zero_fill_remapped] .
qed (rule remapped_refl)


lemma load_images_frame:
  assumes run: "load_images parse P path vk = (Ok r, vk')"
  shows "cfg vk' = cfg vk" "engine_maps P view \<Longrightarrow> in_sync view vk \<Longrightarrow> in_sync view vk'"
proof -
  obtain elf main v1 where m: "map_elf_binary P elf 0 None vk = (Ok main, v1)"
    and cases: "(uc vk' = uc v1 \<and> regions vk' = regions v1 \<and> cfg vk' = cfg v1) \<or>
      (\<exists>ld base pre interp v2. map_elf_binary P ld base pre v1 = (Ok interp, v2)
        \<and> uc vk' = uc v2 \<and> regions vk' = regions v2 \<and> cfg vk' = cfg v2)"
    using run by (fastforce simp: load_images_def Let_def outcome_elim split: option.splits if_splits)
  have v1: "cfg v1 = cfg vk" "engine_maps P view \<Longrightarrow> in_sync view vk \<Longrightarrow> in_sync view v1"
    using map_elf_remapped [of vk P elf 0 None] map_elf_sync [of P view vk elf 0 None] m
    by (auto simp: remapped_def)
  have v2: "cfg s = cfg v1 \<and> (engine_maps P view \<longrightarrow> in_sync view v1 \<longrightarrow> in_sync view s)"
    if "map_elf_binary P ld base pre v1 = (Ok i, s)" for ld base pre i s
    using map_elf_remapped [of v1 P ld base pre] map_elf_sync [of P view v1 ld base pre] that
    by (auto simp: remapped_def)
  show "cfg vk' = cfg vk" using cases v1(1) v2 by auto
  show "in_sync view vk'" if "engine_maps P view" "in_sync view vk"
    using cases v1(2) [OF that] v2 that(1) by (auto simp: in_sync_def)
qed

lemma elf_steps:
  assumes run: "loader_elf_run parse P vk = (Ok a, vk')"
  shows "\<exists>path re v0 v1. c_elf_file (cfg vk) = Some path \<and> load_images parse P path vk = (Ok (re, a), v0)
    \<and> uc v1 = uc v0 \<and> regions v1 = regions v0 \<and> elf_auxv v1 = elf_auxv v0
    \<and> cfg v1 = (if c_entry_point (cfg vk) = 0 then (cfg vk)\<lparr>c_entry_point := re\<rparr> else cfg vk)
    \<and> code_addr_start (vmem v1) = code_addr_start (vmem v0) \<and> code_addr_exit (vmem v1) = code_addr_exit (vmem v0)
    \<and> arena P (sp_register vk) (sat_sub (stack_addr_exit (vmem v1)) 0x10) v1 vk'"
proof -
  obtain path where path: "c_elf_file (cfg vk) = Some path"
    using run by (cases "c_elf_file (cfg vk)") (simp_all add: loader_elf_run_def)
  obtain re la v0 where li: "load_images parse P path vk = (Ok (re, la), v0)"
    using run path by (auto simp: loader_elf_run_def and_then_Ok)
  have c0: "cfg v0 = cfg vk" using load_images_frame(1) [OF li] .
  define c1 where "c1 = (if c_entry_point (cfg vk) = 0 then (cfg vk)\<lparr>c_entry_point := re\<rparr> else cfg vk)"
  define ts where "ts = align_up (code_addr_exit (vmem v0) + PAGE_SIZE) PAGE_SIZE"
  define sa where "sa = align_up (ts + PAGE_SIZE + PAGE_SIZE) PAGE_SIZE"
  have sizes: "c_stack_size c1 = c_stack_size (cfg vk)" "c_heap_size c1 = c_heap_size (cfg vk)" "c_arch c1 = c_arch (cfg vk)"
    by (simp_all add: c1_def)
  define v1 where "v1 = v0\<lparr>cfg := c1, vmem := (vmem v0)\<lparr>tls_addr_start := ts, tls_addr_exit := ts + PAGE_SIZE,
    stack_addr_start := sa, stack_addr_exit := sa + c_stack_size c1\<rparr>\<rparr>"
  have upd: "(if c_entry_point (cfg v0) = 0 then v0\<lparr>cfg := (cfg v0)\<lparr>c_entry_point := re\<rparr>\<rparr> else v0) = v0\<lparr>cfg := c1\<rparr>"
    using c0 by (simp add: c1_def)
  have nz: "c_stack_size c1 \<noteq> 0" "c_heap_size c1 \<noteq> 0"
    using run path li by (auto simp: loader_elf_run_def upd Let_def split: if_splits)
  let ?h = "align_up (stack_addr_exit (vmem v1) + PAGE_SIZE) PAGE_SIZE"
  have "and_then (mem_map P sa (c_stack_size c1) Prot_ALL ''[stack]'' v1) (\<lambda>_ vk.
      let heap_addr = align_up (stack_addr_exit (vmem vk) + PAGE_SIZE) PAGE_SIZE;
          vk = vk\<lparr>vmem := (vmem vk)\<lparr>heap_addr_start := heap_addr, heap_addr_exit := heap_addr + c_heap_size c1\<rparr>\<rparr> in
      and_then (mem_map P heap_addr (c_heap_size c1) Prot_ALL ''[heap]'' vk) (\<lambda>_ vk.
      and_then (set_reg P (sp_register vk) (sat_sub (stack_addr_exit (vmem vk)) 0x10) vk) (\<lambda>_ vk.
      (Ok la, vk)))) = (Ok a, vk')"
    using run path li nz by (simp add: loader_elf_run_def upd Let_def v1_def ts_def sa_def cong: if_cong)
  then obtain v2 v3 where m2: "mem_map P sa (c_stack_size c1) Prot_ALL ''[stack]'' v1 = (Ok (), v2)"
    and m3: "mem_map P (align_up (stack_addr_exit (vmem v2) + PAGE_SIZE) PAGE_SIZE) (c_heap_size c1) Prot_ALL ''[heap]''
      (v2\<lparr>vmem := (vmem v2)\<lparr>heap_addr_start := align_up (stack_addr_exit (vmem v2) + PAGE_SIZE) PAGE_SIZE,
        heap_addr_exit := align_up (stack_addr_exit (vmem v2) + PAGE_SIZE) PAGE_SIZE + c_heap_size c1\<rparr>\<rparr>) = (Ok (), v3)"
    and sp: "set_reg P (sp_register v3) (sat_sub (stack_addr_exit (vmem v3)) 0x10) v3 = (Ok (), vk')" and a: "a = la"
    by (auto simp: and_then_unit Let_def)
  have f: "stack_addr_exit (vmem v2) = stack_addr_exit (vmem v1)" "stack_addr_exit (vmem v3) = stack_addr_exit (vmem v1)"
    "cfg v3 = c1"
    using mem_map_frame [OF m2] mem_map_frame [OF m3] by (auto simp: v1_def)
  have reg: "sp_register v3 = sp_register vk" using f(3) sizes(3) by (simp add: sp_register_def)
  have "laid_base v1" using nz by (simp add: laid_base_def v1_def ts_def sa_def add.assoc)
  then have "arena P (sp_register vk) (sat_sub (stack_addr_exit (vmem v1)) 0x10) v1 vk'"
    unfolding arena_def using m2 m3 sp f reg by (auto simp: v1_def)
  with path li a c1_def show ?thesis
    by - (rule exI [of _ path], rule exI [of _ re], rule exI [of _ v0], rule exI [of _ v1], simp add: v1_def)
qed

lemma elf_contract:
  assumes run: "loader_elf_run parse P vk = (Ok a, vk')"
  shows "laid_out vk'" "c_arch (cfg vk') = c_arch (cfg vk)"
    "engine_maps P view \<Longrightarrow> in_sync view vk \<Longrightarrow> below_end vk' \<Longrightarrow> in_sync view vk'"
    "engine_maps P view \<Longrightarrow> in_sync view vk \<Longrightarrow> below_end vk' \<Longrightarrow>
      in_range (stack_addr_start (vmem vk')) (unat (c_stack_size (cfg vk'))) x \<Longrightarrow> stack_at vk' x"
proof -
  obtain path re v0 v1 where li: "load_images parse P path vk = (Ok (re, a), v0)"
    and v1: "uc v1 = uc v0" "regions v1 = regions v0"
      "cfg v1 = (if c_entry_point (cfg vk) = 0 then (cfg vk)\<lparr>c_entry_point := re\<rparr> else cfg vk)"
    and ar: "arena P (sp_register vk) (sat_sub (stack_addr_exit (vmem v1)) 0x10) v1 vk'"
    using elf_steps [OF run] by blast
  note l = arena_laid_out [OF ar]
  show "laid_out vk'" by (rule l(1))
  show "c_arch (cfg vk') = c_arch (cfg vk)" using l(2) v1(3) by simp
  have s1: "in_sync view v1" if "engine_maps P view" "in_sync view vk"
    using load_images_frame(2) [OF li that] v1 by (simp add: in_sync_def)
  show "in_sync view vk'" if "engine_maps P view" "in_sync view vk" "below_end vk'"
    using arena_in_sync(1) [OF that(1) s1 ar that(3)] that by blast
  show "stack_at vk' x" if "engine_maps P view" "in_sync view vk" "below_end vk'"
    "in_range (stack_addr_start (vmem vk')) (unat (c_stack_size (cfg vk'))) x"
    using arena_in_sync(2) [OF that(1) s1 ar that(3)] that by blast
qed

locale loader =
  fixes load :: "('u, 'h) platform \<Rightarrow> ('u, 'h, u64) vk_call"
  assumes load_layout: "load P vk = (Ok a, vk') \<Longrightarrow> laid_out vk'"
    and load_sync: "engine_maps P view \<Longrightarrow> in_sync view vk \<Longrightarrow> load P vk = (Ok a, vk') \<Longrightarrow> below_end vk' \<Longrightarrow>
      in_sync view vk'"
    and load_stack: "engine_maps P view \<Longrightarrow> in_sync view vk \<Longrightarrow> load P vk = (Ok a, vk') \<Longrightarrow> below_end vk' \<Longrightarrow>
      in_range (stack_addr_start (vmem vk')) (unat (c_stack_size (cfg vk'))) x \<Longrightarrow> stack_at vk' x"
    and load_arch: "load P vk = (Ok a, vk') \<Longrightarrow> c_arch (cfg vk') = c_arch (cfg vk)"
begin

text \<open>The client's view: the ranges in order, and where the thread pointer of x86_64 ends up.\<close>

lemma ordered:
  assumes "load P vk = (Ok a, vk')"
    and "unat (code_addr_exit (vmem vk')) + unat (c_stack_size (cfg vk')) + unat (c_heap_size (cfg vk')) + 0x8000
      \<le> 18446744073709551616"
  shows "unat (code_addr_exit (vmem vk')) + 4096 \<le> unat (tls_addr_start (vmem vk'))
    \<and> unat (tls_addr_exit (vmem vk')) = unat (tls_addr_start (vmem vk')) + 4096
    \<and> unat (stack_addr_start (vmem vk')) = unat (tls_addr_exit (vmem vk')) + 4096
    \<and> unat (stack_addr_exit (vmem vk')) = unat (stack_addr_start (vmem vk')) + unat (c_stack_size (cfg vk'))
    \<and> unat (stack_addr_exit (vmem vk')) + 4096 \<le> unat (heap_addr_start (vmem vk'))
    \<and> unat (heap_addr_exit (vmem vk')) = unat (heap_addr_start (vmem vk')) + unat (c_heap_size (cfg vk'))"
  using layout_order [OF load_layout [OF assms(1)] assms(2)] by blast

lemma mapped:
  assumes "engine_maps P view" "in_sync view vk" "load P vk = (Ok a, vk')" "below_end vk'"
  shows "in_sync view vk' \<and> (\<forall>x. in_range (stack_addr_start (vmem vk')) (unat (c_stack_size (cfg vk'))) x \<longrightarrow> stack_at vk' x)"
  using load_sync [OF assms] load_stack [OF assms] by blast

lemma thread_pointer:
  assumes laws: "engine_maps P view" and sync: "in_sync view vk"
    and regs: "engine_regs P (to_uc_x86_64 ` R) 64" "RegX86_64.FsBase \<in> R"
    and arch: "c_arch (cfg vk) = X86_64"
    and run: "load P vk = (Ok a, vk1)" "setup_tls_minimal P vk1 = (Ok (), vk2)"
    and top: "below_end vk1" "tls_addr_exit (vmem vk1) \<noteq> 0"
  shows "fst (get_reg P (VR_X86_64 RegX86_64.FsBase) vk2) = Ok (stack_addr_start (vmem vk1))
    \<and> stack_at vk2 (unat (stack_addr_start (vmem vk1)))"
proof -
  note m = mapped [OF laws sync run(1) top(1)]
  have "c_arch (cfg vk1) = X86_64" using load_arch [OF run(1)] arch by simp
  note t = setup_tls_x86_64_spec [OF laws conjunct1 [OF m] top(2) regs this run(2)]
  have "0 < unat (c_stack_size (cfg vk1))"
    using load_layout [OF run(1)] by (simp add: laid_out_def unat_gt_0)
  then have "stack_at vk1 (unat (stack_addr_start (vmem vk1)))" using m by simp
  then show ?thesis
    using t stack_above_tls [OF load_layout [OF run(1)]] by (simp add: stack_at_def push_region_at)
qed

end

interpretation blob_loader: loader loader_blob_run
  by unfold_locales (use blob_contract in fastforce)+

interpretation elf_loader: loader "loader_elf_run parse" for parse
  by unfold_locales (use elf_contract in fastforce)+

section \<open>Properties\<close>

text \<open>
  C30: the address space after loading, for both loaders. When \<open>run\<close> succeeds and nothing reaches the top
  of the address space, code, thread-local page, stack and heap follow each other with at least a page
  between two of them, the stack is mapped with its label, and the region list agrees with the engine.
\<close>

theorem loader_lays_out:
  assumes laws: "engine_maps P view" and sync: "in_sync view vk"
    and run: "loader_run parse P ty vk = (Ok a, vk')" and top: "code_addr_exit (vmem vk') \<noteq> 0"
    and room: "unat (code_addr_exit (vmem vk')) + unat (c_stack_size (cfg vk')) + unat (c_heap_size (cfg vk')) + 0x8000
      \<le> 18446744073709551616"
  shows "unat (code_addr_exit (vmem vk')) + 4096 \<le> unat (tls_addr_start (vmem vk'))
    \<and> unat (tls_addr_exit (vmem vk')) = unat (tls_addr_start (vmem vk')) + 4096
    \<and> unat (stack_addr_start (vmem vk')) = unat (tls_addr_exit (vmem vk')) + 4096
    \<and> unat (stack_addr_exit (vmem vk')) = unat (stack_addr_start (vmem vk')) + unat (c_stack_size (cfg vk'))
    \<and> unat (stack_addr_exit (vmem vk')) + 4096 \<le> unat (heap_addr_start (vmem vk'))
    \<and> unat (heap_addr_exit (vmem vk')) = unat (heap_addr_start (vmem vk')) + unat (c_heap_size (cfg vk'))
    \<and> in_sync view vk'
    \<and> (\<forall>x. in_range (stack_addr_start (vmem vk')) (unat (c_stack_size (cfg vk'))) x \<longrightarrow>
         region_at (regions vk') x = Some (Prot_ALL, ''[stack]''))"
proof -
  have ord: "unat (code_addr_exit (vmem vk')) + 4096 \<le> unat (tls_addr_start (vmem vk'))
    \<and> unat (tls_addr_exit (vmem vk')) = unat (tls_addr_start (vmem vk')) + 4096
    \<and> unat (stack_addr_start (vmem vk')) = unat (tls_addr_exit (vmem vk')) + 4096
    \<and> unat (stack_addr_exit (vmem vk')) = unat (stack_addr_start (vmem vk')) + unat (c_stack_size (cfg vk'))
    \<and> unat (stack_addr_exit (vmem vk')) + 4096 \<le> unat (heap_addr_start (vmem vk'))
    \<and> unat (heap_addr_exit (vmem vk')) = unat (heap_addr_start (vmem vk')) + unat (c_heap_size (cfg vk'))"
  proof (cases ty)
    case Raw
    with run have "loader_blob_run P vk = (Ok a, vk')" by (simp add: loader_run_def)
    from blob_loader.ordered [OF this room] show ?thesis .
  next
    case Elf
    with run have "loader_elf_run parse P vk = (Ok a, vk')" by (simp add: loader_run_def)
    from elf_loader.ordered [OF this room] show ?thesis .
  qed
  then have "0 < unat (stack_addr_exit (vmem vk'))" "0 < unat (heap_addr_exit (vmem vk'))" by linarith+
  then have "below_end vk'"
    using top unfolding below_end_def by auto
  then have "in_sync view vk' \<and> (\<forall>x. in_range (stack_addr_start (vmem vk')) (unat (c_stack_size (cfg vk'))) x \<longrightarrow> stack_at vk' x)"
    using run blob_loader.mapped [OF laws sync] elf_loader.mapped [OF laws sync] unfolding loader_run_def by (cases ty) auto
  with ord show ?thesis unfolding stack_at_def by blast
qed

text \<open>
  C33: on x86_64 the thread pointer ends up at the lowest address of the guest's stack. The loaders map
  a single thread-local page and put the stack two pages above its start, and the setup puts the thread
  pointer two pages above its start too.
\<close>

theorem thread_pointer_in_stack:
  assumes laws: "engine_maps P view" and sync: "in_sync view vk"
    and regs: "engine_regs P (to_uc_x86_64 ` R) 64" "RegX86_64.FsBase \<in> R"
    and arch: "c_arch (cfg vk) = X86_64"
    and run: "loader_run parse P ty vk = (Ok a, vk1)" "setup_tls_minimal P vk1 = (Ok (), vk2)"
    and top: "code_addr_exit (vmem vk1) \<noteq> 0" "tls_addr_exit (vmem vk1) \<noteq> 0"
      "stack_addr_exit (vmem vk1) \<noteq> 0" "heap_addr_exit (vmem vk1) \<noteq> 0"
  shows "fst (get_reg P (VR_X86_64 RegX86_64.FsBase) vk2) = Ok (stack_addr_start (vmem vk1))
    \<and> region_at (regions vk2) (unat (stack_addr_start (vmem vk1))) = Some (Prot_ALL, ''[stack]'')"
proof -
  have b: "below_end vk1" using top by (simp add: below_end_def)
  show ?thesis
    using run(1) blob_loader.thread_pointer [OF laws sync regs arch _ run(2) b top(2)]
      elf_loader.thread_pointer [OF laws sync regs arch _ run(2) b top(2)]
    by (cases ty) (auto simp: loader_run_def stack_at_def)
qed


section \<open>What is in memory when the guest starts\<close>

lemma mem_map_kept:
  assumes laws: "engine_maps P view" "engine_map_bytes P content" and sync: "in_sync view vk"
    and fits: "unat a + unat n \<noteq> 2 ^ 64" and run: "mem_map P a n p i vk = (Ok (), vk')"
  shows "mapped_kept content vk vk'"
  unfolding mapped_kept_def
proof (intro allI impI)
  fix x y assume y: "region_at (regions vk) x = Some y"
  have ok: "fst (mem_map P a n p i vk) = Ok ()" using run by simp
  note m = mem_map_Ok [OF laws(1) sync fits ok, of x]
  have out: "\<not> in_range a (unat n) x" using m(1) y by auto
  with m(2) y mem_map_bytes [OF laws(2), where a = a and n = n and x = x and p = p and i = i and vk = vk] run
  show "region_at (regions vk') x = Some y \<and> content (uc vk') x = content (uc vk) x" by auto
qed

lemma arena_kept:
  assumes laws: "engine_maps P view" "engine_bytes P content" "engine_map_bytes P content" and sync: "in_sync view v0"
    and a: "arena P r v v0 v3" and top: "below_end v3"
  shows "mapped_kept content v0 v3"
proof -
  obtain v1 v2 h where a': "laid_base v0" "h = align_up (stack_addr_exit (vmem v0) + PAGE_SIZE) PAGE_SIZE"
    and m1: "mem_map P (stack_addr_start (vmem v0)) (c_stack_size (cfg v0)) Prot_ALL ''[stack]'' v0 = (Ok (), v1)"
    and m2: "mem_map P h (c_heap_size (cfg v0)) Prot_ALL ''[heap]''
         (v1\<lparr>vmem := (vmem v1)\<lparr>heap_addr_start := h, heap_addr_exit := h + c_heap_size (cfg v0)\<rparr>\<rparr>) = (Ok (), v2)"
    and sp: "set_reg P r v v2 = (Ok (), v3)"
    using a unfolding arena_def by blast
  let ?w = "v1\<lparr>vmem := (vmem v1)\<lparr>heap_addr_start := h, heap_addr_exit := h + c_heap_size (cfg v0)\<rparr>\<rparr>"
  note f = arena_frame [OF m1 m2 sp]
  have t: "stack_addr_start (vmem v0) + c_stack_size (cfg v0) \<noteq> 0" "h + c_heap_size (cfg v0) \<noteq> 0"
    using f top a'(1) by (auto simp: below_end_def laid_base_def)
  have "in_sync view v1"
    using mem_map_spec [OF laws(1) sync top_fits [OF t(1)], of Prot_ALL "''[stack]''"] m1 by simp
  then have sw: "in_sync view ?w" by (simp add: in_sync_def)
  have k1: "mapped_kept content v0 ?w"
    using mem_map_kept [OF laws(1,3) sync top_fits [OF t(1)] m1] by (simp add: mapped_kept_def)
  have k2: "mapped_kept content ?w v2"
    by (rule mem_map_kept [OF laws(1,3) sw top_fits [OF t(2)] m2])
  have "mapped_kept content v2 v3"
    using content_set_reg [OF laws(2), of r v v2] set_reg_keeps [of P r v v2] sp by (simp add: mapped_kept_def)
  with k1 k2 show ?thesis by (meson mapped_kept_trans)
qed

text \<open>
  C21: a program without an interpreter, from the file to the first instruction. When the ELF loader
  succeeds, every loadable segment of the file is in guest memory with the file's bytes and zeros, within
  the recorded code range; the entry point is the file's unless the configuration names one, and the
  auxiliary vector names the program headers and the entry, with no base.
\<close>

theorem static_program_loaded:
  fixes vk :: "('u, 'h) Valkyrie"
  assumes laws: "engine_maps P view" "engine_bytes P content" "engine_map_bytes P content"
    and sync: "in_sync view vk" and run: "loader_elf_run parse P vk = (Ok a, vk')" and top: "below_end vk'"
    and prog: "c_elf_file (cfg vk) = Some path" "parse path (host vk) = Some elf" "\<not> has_interp elf"
    and fits: "\<forall>seg \<in> set (segments elf). loads seg \<longrightarrow> segment_fits 0 seg"
  shows "(\<forall>seg \<in> set (segments elf). loads seg \<longrightarrow> segment_loaded content 0 seg vk'
        \<and> within (code_addr_start (vmem vk')) (code_addr_exit (vmem vk')) 0 seg)
    \<and> c_entry_point (cfg vk') = (if c_entry_point (cfg vk) = 0 then entrypoint elf else c_entry_point (cfg vk))
    \<and> (\<exists>aux. elf_auxv vk' = Some aux \<and> ax_entry aux = entrypoint elf \<and> ax_base aux = 0
        \<and> program_headers_addr elf 0 = Ok (ax_phdr aux) \<and> ax_execfn aux = ascii path)
    \<and> a = code_addr_start (vmem vk')"
proof -
  have bias: "bias_of elf 0 = 0" by (simp add: bias_of_def)
  obtain re v0 v1 where li: "load_images parse P path vk = (Ok (re, a), v0)"
    and v1: "uc v1 = uc v0" "regions v1 = regions v0" "elf_auxv v1 = elf_auxv v0"
      "cfg v1 = (if c_entry_point (cfg vk) = 0 then (cfg vk)\<lparr>c_entry_point := re\<rparr> else cfg vk)"
      "code_addr_start (vmem v1) = code_addr_start (vmem v0)" "code_addr_exit (vmem v1) = code_addr_exit (vmem v0)"
    and ar: "arena P (sp_register vk) (sat_sub (stack_addr_exit (vmem v1)) 0x10) v1 vk'"
    using elf_steps [OF run] prog(1) by auto
  obtain m w where me: "map_elf_binary P elf 0 None vk = (Ok m, w)" and re: "re = me_entry m" "a = me_min_addr m"
    and v0: "v0 = w\<lparr>elf_auxv := Some \<lparr>ax_phdr = me_phdr m, ax_phent = me_phent m, ax_phnum = me_phnum m,
                ax_base = 0, ax_entry = me_entry m, ax_execfn = ascii path\<rparr>,
              vmem := (vmem w)\<lparr>code_addr_start := me_min_addr m, code_addr_exit := me_max_addr m\<rparr>\<rparr>"
    using li prog by (auto simp: load_images_def Let_def and_then_Ok)
  note mr = map_elf_binary_run [OF me, unfolded bias]
  have fits': "\<forall>seg \<in> set (segments elf). loads seg \<longrightarrow> segment_fits 0 seg" by (rule fits)
  note ms = map_load_segments_spec [OF laws conjunct1 [OF mr] sync fits']
  have s1: "in_sync view v1" using load_images_frame(2) [OF li laws(1) sync] v1 by (simp add: in_sync_def)
  have k: "mapped_kept content w vk'"
    using arena_kept [OF laws s1 ar top] v1(1,2) v0 by (simp add: mapped_kept_def)
  note l = arena_laid_out [OF ar]
  have code: "code_addr_start (vmem vk') = me_min_addr m" "code_addr_exit (vmem vk') = me_max_addr m"
    using l(3) v1(5,6) v0 by auto
  have aux: "elf_auxv vk' = elf_auxv v1"
    by (rule l(4))
  have entry: "me_entry m = entrypoint elf"
    using mr unat_bound [of "entrypoint elf"] by (simp add: sat_add_def)
  show ?thesis
    using ms segment_loaded_kept [OF _ k] code re v1(3,4) v0 l(2) aux mr entry by auto
qed

text \<open>
  A bare-metal program. When the raw loader succeeds on code no longer than its memory, the bytes of the
  program are at the code base, which is the load address.
\<close>

lemma blob_code_kept:
  fixes vk :: "('u, 'h) Valkyrie"
  assumes laws: "engine_maps P view" "engine_bytes P content" "engine_map_bytes P content"
    and sync: "in_sync view vk" and run: "loader_blob_run P vk = (Ok a, vk')" and top: "below_end vk'"
    and fits: "length (c_baremetal_code (cfg vk)) \<le> unat (c_code_ram_size (cfg vk))"
  shows "guest_bytes content a (length (c_baremetal_code (cfg vk))) vk' = c_baremetal_code (cfg vk)
    \<and> a = c_code_base_address (cfg vk) \<and> code_addr_exit (vmem vk') = a + c_code_ram_size (cfg vk)"
proof -
  let ?a = "c_code_base_address (cfg vk)" and ?n = "c_code_ram_size (cfg vk)" and ?c = "c_baremetal_code (cfg vk)"
  obtain v1 v2 v3 where m: "mem_map P ?a ?n Prot_ALL ''[code]'' vk = (Ok (), v1)"
    and w: "mem_write P ?a ?c v1 = (Ok (), v2)"
    and v3: "v3 = v2\<lparr>vmem := vmem v3\<rparr>" "regions v3 = regions v2" "code_addr_exit (vmem v3) = ?a + ?n"
    and ar: "arena P (sp_register vk) (stack_addr_exit (vmem v3) - 0x10) v3 vk'" and a: "a = ?a"
    using blob_steps [OF run] by blast
  have code: "code_addr_exit (vmem vk') = ?a + ?n" using arena_laid_out(3) [OF ar] v3(3) by auto
  then have "?a + ?n \<noteq> 0" using top by (simp add: below_end_def)
  note fits1 = top_fits [OF this]
  have s1: "in_sync view v1" using mem_map_spec [OF laws(1) sync fits1, of Prot_ALL "''[code]''"] m by simp
  have "in_sync view (snd (mem_write P ?a ?c v1))" by (rule mem_write_sync [OF laws(1) s1])
  then have s2: "in_sync view v2" unfolding w by simp
  have u3: "uc v3 = uc v2" by (subst v3(1)) simp
  then have s3: "in_sync view v3" using s2 v3(2) by (simp add: in_sync_def)
  have k: "mapped_kept content v3 vk'" by (rule arena_kept [OF laws s3 ar top])
  have r2: "regions v2 = regions v1" using mem_write_cfg [OF w] by simp
  have ok: "fst (mem_map P ?a ?n Prot_ALL ''[code]'' vk) = Ok ()" using m by simp
  have "content (uc vk') x = content (uc v2) x" if "in_range ?a (length ?c) x" for x
  proof -
    have "region_at (regions v3) x = Some (Prot_ALL, ''[code]'')"
      using mem_map_Ok(2) [OF laws(1) sync fits1 ok, of x] m that fits v3(2) r2 by simp
    then show ?thesis using k u3 by (simp add: mapped_kept_def)
  qed
  then have "guest_bytes content ?a (length ?c) vk' = guest_bytes content ?a (length ?c) v2"
    by (simp add: guest_bytes_def)
  with guest_bytes_write [OF laws(2) w] a code show ?thesis by simp
qed

section \<open>On the reference engine\<close>

definition ref_load :: "Arch \<Rightarrow> (ref_state, unit) Valkyrie" where
  "ref_load ar = (ref_vk ar)\<lparr>cfg := (ref_cfg ar)\<lparr>c_code_base_address := 0x700000, c_baremetal_code := [0x90, 0xf4],
     c_elf_file := Some ''/bin/true'', c_entry_point := 0\<rparr>\<rparr>"

lemma ref_load_sync: "in_sync ref_view (ref_load ar)"
  using ref_in_sync [of ar] by (simp add: ref_load_def in_sync_def)

lemma ref_map_step:
  assumes "sz \<noteq> 0" "pages a sz" "\<forall>x. in_range a (unat sz) x \<longrightarrow> ref_view (uc vk) x = None"
  shows "mem_map ref_engine a sz p i vk = (Ok (), set_regions (push_region (regions vk) a sz (p, i))
      (vk\<lparr>uc := ref_fill a sz (Some p) (uc vk)\<rparr>))"
  using assms by (simp add: mem_map_def uc_do_def ref_engine_def)

lemma ref_writes:
  "uc_mem_write ref_engine a d u = (if unat a + length d \<le> 18446744073709551616
     then (Inr (), u\<lparr>ref_content := (\<lambda>x. if in_range a (length d) x then d ! (x - unat a) else ref_content u x)\<rparr>)
     else (Inl 1, u))"
  "uc_reg_write ref_engine r v u = (Inr (), u\<lparr>ref_regs := (ref_regs u)(r := v)\<rparr>)"
  by (simp_all add: ref_engine_def)

lemmas ref_eval =
  Let_def ref_load_def ref_vk_def ref_cfg_def align_up_def PAGE_SIZE_def ref_map_step pages_def ref_fill_def
  ref_700000_free mem_write_def uc_do_def ref_writes sp_register_def set_reg_def set_reg_x86_64_def
  varch_new_def vregs_new_def note_reg_update_def

lemma ref_blob_run:
  "\<exists>vk' vk2. loader_blob_run ref_engine (ref_load X86_64) = (Ok 0x700000, vk') \<and> cfg vk' = cfg (ref_load X86_64)
  \<and> code_addr_exit (vmem vk') = 0x701000 \<and> stack_addr_exit (vmem vk') = 0x705000 \<and> heap_addr_exit (vmem vk') = 0x707000
  \<and> setup_tls_minimal ref_engine vk' = (Ok (), vk2)"
  by (simp add: loader_blob_run_def setup_tls_minimal_def ref_eval)

lemma ref_elf_run: "\<exists>a vk'. loader_elf_run (\<lambda>_ _. Some ref_elf) ref_engine (ref_load X86_64) = (Ok a, vk')
  \<and> code_addr_exit (vmem vk') = 0x701000 \<and> stack_addr_exit (vmem vk') = 0x705000 \<and> heap_addr_exit (vmem vk') = 0x707000"
proof -
  have z: "zero_fill ref_engine 0x700004 0x7fc vk = (Ok (), vk\<lparr>uc := (uc vk)\<lparr>ref_content :=
      (\<lambda>x. if in_range 0x700004 0x7fc x then replicate 0x7fc 0 ! (x - 0x700004) else ref_content (uc vk) x)\<rparr>\<rparr>)"
    for vk :: "(ref_state, unit) Valkyrie"
    by (simp add: zero_fill.simps PAGE_SIZE_def uc_do_def ref_engine_def sat_sub_def cong: if_cong)
  show ?thesis
    by (simp add: loader_elf_run_def load_images_def map_elf_binary_def ref_elf_def collect_alloc_sections_def
        alloc_span_def List.map_filter_def sat_add_def map_segment_by_section_def align_down_def map_pages.simps
        prefixed_section_name_def section_name_for_page_def sat_sub_def program_headers_addr_def sat_mul_def z
        has_interp_def ref_eval)
qed

theorem loader_lays_out_witness:
  "\<exists>vk'. loader_run (\<lambda>_ _. None) ref_engine Raw (ref_load X86_64) = (Ok 0x700000, vk')
    \<and> unat (stack_addr_start (vmem vk')) = unat (tls_addr_exit (vmem vk')) + 4096 \<and> in_sync ref_view vk'"
proof -
  obtain vk' where r: "loader_blob_run ref_engine (ref_load X86_64) = (Ok 0x700000, vk')"
    "cfg vk' = cfg (ref_load X86_64)" "code_addr_exit (vmem vk') = 0x701000"
    using ref_blob_run by blast
  then have run: "loader_run (\<lambda>_ _. None) ref_engine Raw (ref_load X86_64) = (Ok 0x700000, vk')"
    by (simp add: loader_run_def)
  have "code_addr_exit (vmem vk') \<noteq> 0" "unat (code_addr_exit (vmem vk')) + unat (c_stack_size (cfg vk'))
      + unat (c_heap_size (cfg vk')) + 0x8000 \<le> 18446744073709551616"
    by (simp_all add: r(2,3) ref_load_def ref_cfg_def)
  from loader_lays_out [OF ref_engine_maps ref_load_sync run this] run show ?thesis by blast
qed

theorem thread_pointer_in_stack_witness:
  "\<exists>vk1 vk2. loader_run (\<lambda>_ _. None) ref_engine Raw (ref_load X86_64) = (Ok 0x700000, vk1)
    \<and> setup_tls_minimal ref_engine vk1 = (Ok (), vk2)
    \<and> fst (get_reg ref_engine (VR_X86_64 RegX86_64.FsBase) vk2) = Ok (stack_addr_start (vmem vk1))"
proof -
  obtain vk1 vk2 where r: "loader_blob_run ref_engine (ref_load X86_64) = (Ok 0x700000, vk1)"
    "cfg vk1 = cfg (ref_load X86_64)" "setup_tls_minimal ref_engine vk1 = (Ok (), vk2)"
    and e: "code_addr_exit (vmem vk1) = 0x701000" "stack_addr_exit (vmem vk1) = 0x705000" "heap_addr_exit (vmem vk1) = 0x707000"
    using ref_blob_run by blast
  then have run: "loader_run (\<lambda>_ _. None) ref_engine Raw (ref_load X86_64) = (Ok 0x700000, vk1)"
    by (simp add: loader_run_def)
  have lo: "laid_out vk1" by (rule blob_loader.load_layout [OF r(1)])
  have "unat (code_addr_exit (vmem vk1)) + unat (c_stack_size (cfg vk1)) + unat (c_heap_size (cfg vk1)) + 0x8000 \<le> 18446744073709551616"
    by (simp add: r(2) e ref_load_def ref_cfg_def)
  from layout_order(2) [OF lo this] have "tls_addr_exit (vmem vk1) \<noteq> 0" by auto
  from thread_pointer_in_stack [OF ref_engine_maps ref_load_sync ref_engine_regs UNIV_I _ run r(3) _ this] run r(3) e
  show ?thesis by (auto simp: ref_load_def)
qed

theorem static_program_loaded_witness:
  "\<exists>a vk'. loader_elf_run (\<lambda>_ _. Some ref_elf) ref_engine (ref_load X86_64) = (Ok a, vk')
    \<and> guest_bytes ref_content 0x700000 0x800 vk' = [0x7f, 0x45, 0x4c, 0x46] @ replicate 0x7fc 0
    \<and> c_entry_point (cfg vk') = 0x700000"
proof -
  obtain a vk' where run: "loader_elf_run (\<lambda>_ _. Some ref_elf) ref_engine (ref_load X86_64) = (Ok a, vk')"
    and "code_addr_exit (vmem vk') = 0x701000 \<and> stack_addr_exit (vmem vk') = 0x705000 \<and> heap_addr_exit (vmem vk') = 0x707000"
    using ref_elf_run by blast
  then have top: "below_end vk'" by (simp add: below_end_def)
  have e: "c_elf_file (cfg (ref_load X86_64)) = Some ''/bin/true''" "\<not> has_interp ref_elf"
    "\<forall>seg \<in> set (segments ref_elf). loads seg \<longrightarrow> segment_fits 0 seg"
    using ref_elf_fits by (simp_all add: ref_load_def has_interp_def) (simp add: ref_elf_def)
  from static_program_loaded [OF ref_engine_maps ref_engine_bytes ref_engine_map_bytes ref_load_sync run top e(1) refl e(2,3)] run
  show ?thesis
    by (auto simp: ref_elf_def loads_def segment_loaded_def ref_load_def)
qed

end
