(* ===== verification/Vk_Config.thy ===== *)
theory Vk_Config
  imports Vk_LoadRun
begin

text \<open>
  \<open>src/src/config.rs\<close>: the defaults of a configuration, the code and files it is fed, its setters.
  A builder method takes the configuration by value, so it is a function on the record. What the code
  reads of the host's files is an argument: \<open>exists_path\<close>, \<open>fs_metadata\<close> (whether a path is a regular
  file) and \<open>fs_read\<close>, with the text of the host's error on the left.
\<close>

definition config_new ::
  "(string \<Rightarrow> bool) \<Rightarrow> Arch \<Rightarrow> OsType \<Rightarrow> string \<Rightarrow> ValkyrieConfig vk_outcome" where
  "config_new exists_path arch os rootfs =
     (if \<not> exists_path rootfs then Err (BadConfig ''rootfs path does not exist'')
      else case defaults_for_arch arch of (endianess, archsize) \<Rightarrow>
        Ok \<lparr>c_arch = arch, c_os = os, c_loader = Raw, c_rootfs = rootfs, c_argv = [], c_stdin_data = [],
          c_verbose = False, c_endianess = endianess, c_archsize = archsize, c_baremetal_code = [],
          c_elf_file = None, c_entry_point = 0, c_exit_point = 0, c_code_ram_size = PAGE_SIZE * 10000,
          c_heap_size = PAGE_SIZE * 100, c_stack_size = PAGE_SIZE * 100, c_code_base_address = 0x400000,
          c_count = - 1, c_timeout = - 1, c_disassemble = False, c_debug = False, c_debug_port = 1234\<rparr>)"

definition feed_baremetal :: "bytes \<Rightarrow> ValkyrieConfig \<Rightarrow> ValkyrieConfig vk_outcome" where
  "feed_baremetal code c =
     (if code = [] then Err (BadConfig ''baremetal code must be non-empty'')
      else if length code > unat (c_code_ram_size c)
      then Err (BadConfig ''baremetal code exceeds cfg.code_ram_size, increase code_ram_size with .code_ram_size before calling feed_baremetal()'')
      else Ok (c\<lparr>c_loader := Raw, c_baremetal_code := code\<rparr>))"

definition feed_file ::
  "(string \<Rightarrow> string + bool) \<Rightarrow> (string \<Rightarrow> string + bytes) \<Rightarrow> string \<Rightarrow> ValkyrieConfig
     \<Rightarrow> ValkyrieConfig vk_outcome" where
  "feed_file fs_metadata fs_read path c =
     (case fs_metadata path of
        Inl e \<Rightarrow> Err (BadConfig (''file not accessible '' @ path @ '': '' @ e))
      | Inr is_file \<Rightarrow>
          if \<not> is_file then Err (BadConfig ''path is not a regular file'')
          else case fs_read path of
            Inl e \<Rightarrow> Err (BadConfig (''failed to read '' @ path @ '': '' @ e))
          | Inr code \<Rightarrow>
              if code = [] then Err (BadConfig ''baremetal code must be non-empty'')
              else if length code > unat (c_code_ram_size c)
              then Err (BadConfig ''code exceeds cfg.code_ram_size, increase code_ram_size with .code_ram_size before calling feed_file()'')
              else Ok (c\<lparr>c_loader := Raw, c_baremetal_code := code\<rparr>))"

definition feed_elf :: "(string \<Rightarrow> string + bool) \<Rightarrow> string \<Rightarrow> ValkyrieConfig \<Rightarrow> ValkyrieConfig vk_outcome" where
  "feed_elf fs_metadata path c =
     (case fs_metadata path of
        Inl e \<Rightarrow> Err (BadConfig (''file not accessible '' @ path @ '': '' @ e))
      | Inr is_file \<Rightarrow>
          if \<not> is_file then Err (BadConfig ''path is not a regular file'')
          else Ok (c\<lparr>c_loader := Elf, c_elf_file := Some path\<rparr>))"

section \<open>Setters\<close>

definition with_verbose :: "bool \<Rightarrow> ValkyrieConfig \<Rightarrow> ValkyrieConfig" where
  "with_verbose v c = c\<lparr>c_verbose := v\<rparr>"

definition with_argv :: "bytes list \<Rightarrow> ValkyrieConfig \<Rightarrow> ValkyrieConfig" where
  "with_argv v c = c\<lparr>c_argv := v\<rparr>"

definition with_stdin_bytes :: "bytes \<Rightarrow> ValkyrieConfig \<Rightarrow> ValkyrieConfig" where
  "with_stdin_bytes v c = c\<lparr>c_stdin_data := v\<rparr>"

definition with_disassemble :: "bool \<Rightarrow> ValkyrieConfig \<Rightarrow> ValkyrieConfig" where
  "with_disassemble v c = c\<lparr>c_disassemble := v\<rparr>"

definition with_debug :: "bool \<Rightarrow> ValkyrieConfig \<Rightarrow> ValkyrieConfig" where
  "with_debug v c = c\<lparr>c_debug := v\<rparr>"

definition with_debug_port :: "u16 \<Rightarrow> ValkyrieConfig \<Rightarrow> ValkyrieConfig" where
  "with_debug_port v c = c\<lparr>c_debug_port := v\<rparr>"

definition with_endianess :: "Endianess \<Rightarrow> ValkyrieConfig \<Rightarrow> ValkyrieConfig" where
  "with_endianess v c = c\<lparr>c_endianess := v\<rparr>"

definition with_archsize :: "u16 \<Rightarrow> ValkyrieConfig \<Rightarrow> ValkyrieConfig" where
  "with_archsize v c = c\<lparr>c_archsize := v\<rparr>"

definition with_entry_point :: "u64 \<Rightarrow> ValkyrieConfig \<Rightarrow> ValkyrieConfig" where
  "with_entry_point v c = c\<lparr>c_entry_point := v\<rparr>"

definition with_code_base_addr :: "u64 \<Rightarrow> ValkyrieConfig \<Rightarrow> ValkyrieConfig" where
  "with_code_base_addr v c = c\<lparr>c_code_base_address := v\<rparr>"

definition with_exit_point :: "u64 \<Rightarrow> ValkyrieConfig \<Rightarrow> ValkyrieConfig" where
  "with_exit_point v c = c\<lparr>c_exit_point := v\<rparr>"

definition with_code_ram_size :: "u64 \<Rightarrow> ValkyrieConfig \<Rightarrow> ValkyrieConfig" where
  "with_code_ram_size v c = c\<lparr>c_code_ram_size := v\<rparr>"

definition with_heap_size :: "u64 \<Rightarrow> ValkyrieConfig \<Rightarrow> ValkyrieConfig" where
  "with_heap_size v c = c\<lparr>c_heap_size := v\<rparr>"

definition with_stack_size :: "u64 \<Rightarrow> ValkyrieConfig \<Rightarrow> ValkyrieConfig" where
  "with_stack_size v c = c\<lparr>c_stack_size := v\<rparr>"

section \<open>What a fed configuration satisfies\<close>

lemma feed_baremetal_Ok:
  assumes "feed_baremetal code c = Ok c'"
  shows "code \<noteq> []" "length code \<le> unat (c_code_ram_size c')" "c_baremetal_code c' = code" "c_loader c' = Raw"
  using assms by (auto simp: feed_baremetal_def split: if_splits)

lemma feed_file_as_baremetal:
  "feed_file fs_metadata fs_read path c = Ok c' \<Longrightarrow>
     \<exists>code. fs_metadata path = Inr True \<and> fs_read path = Inr code \<and> feed_baremetal code c = Ok c'"
  by (auto simp: feed_file_def feed_baremetal_def split: sum.splits if_splits)

end
