(* ===== verification/Vk_Core.thy ===== *)
theory Vk_Core
  imports Vk_Config Vk_Hooks Vk_Run
begin

text \<open>
  The emulator as a whole: \<open>src/src/lib.rs\<close> (construction, the exit trap, the run), the installation of
  the system call hook of \<open>src/src/os/register_syscall.rs\<close>, and \<open>show_instructions\<close> of
  \<open>src/src/memory.rs\<close>. The state is \<open>Valkyrie\<close> beside the hook registry, which the source keeps in the
  engine's user data; the callbacks mutate \<open>Machine\<close>, the emulator with the memory the fuzzing front end
  shares with them.
\<close>

section \<open>The state\<close>

text \<open>
  \<open>CoverageMapRef\<close> of \<open>src/src/fuzzing.rs\<close>: its \<open>ptr\<close> is the caller's slice, which is \<open>cov_map\<close> below. A
  hook's user data is nothing, such a record by value, or the handle to the one in \<open>cov_state\<close>.
\<close>

record CoverageMapRef =
  cv_len :: u64
  cv_prev_loc :: u64

datatype HookData = NoData | OwnCoverage CoverageMapRef | SharedCoverage

text \<open>
  \<open>mc_unwound\<close> is not \<open>Ok\<close> once a callback has panicked or does not return: the panic cannot cross the
  engine's C frames and ends the process.
\<close>

record ('u, 'h) Machine =
  mc_vk :: "('u, 'h) Valkyrie"
  mc_unwound :: "unit vk_outcome"
  cov_map :: bytes
  cov_state :: CoverageMapRef

type_synonym ('u, 'h) registry = "(('u, 'h) Machine, HookData) VCoreHooks"
type_synonym ('u, 'h) emulator = "('u, 'h) Machine \<times> ('u, 'h) registry"
type_synonym ('u, 'h, 'a) em_call = "('u, 'h) emulator \<Rightarrow> 'a vk_outcome \<times> ('u, 'h) emulator"

text \<open>The engine's \<open>emu_start\<close> with the hooks it calls.\<close>

type_synonym ('u, 'h) engine_run =
  "u64 \<Rightarrow> u64 \<Rightarrow> u64 \<Rightarrow> u64 \<Rightarrow> ('u, 'h) emulator \<Rightarrow> (uc_error + unit) \<times> ('u, 'h) emulator"

abbreviation em_vk :: "('u, 'h) emulator \<Rightarrow> ('u, 'h) Valkyrie" where
  "em_vk st \<equiv> mc_vk (fst st)"

abbreviation set_vk :: "('u, 'h) Valkyrie \<Rightarrow> ('u, 'h) emulator \<Rightarrow> ('u, 'h) emulator" where
  "set_vk vk st \<equiv> ((fst st)\<lparr>mc_vk := vk\<rparr>, snd st)"

text \<open>A call on the emulator alone, and one on the registry and the engine.\<close>

definition on_vk :: "('u, 'h, 'a) vk_call \<Rightarrow> ('u, 'h, 'a) em_call" where
  "on_vk f st = (case f (em_vk st) of (r, vk) \<Rightarrow> (r, set_vk vk st))"

definition on_hooks :: "(('u, 'h) Machine, HookData, 'u, 'a) hook_call \<Rightarrow> ('u, 'h, 'a) em_call" where
  "on_hooks f st =
     (case f (snd st, uc (em_vk st)) of
        (r, hk, u) \<Rightarrow> (r, (fst st)\<lparr>mc_vk := (em_vk st)\<lparr>uc := u\<rparr>\<rparr>, hk))"

section \<open>Small state changes\<close>

definition reset_execution_state :: "('u, 'h) Valkyrie \<Rightarrow> ('u, 'h) Valkyrie" where
  "reset_execution_state vk = vk\<lparr>vstate := NotSet, exit_status := None, crashed := False, stdin_offset := 0\<rparr>"

definition set_stdin_bytes :: "bytes \<Rightarrow> ('u, 'h) Valkyrie \<Rightarrow> ('u, 'h) Valkyrie" where
  "set_stdin_bytes v vk = vk\<lparr>cfg := (cfg vk)\<lparr>c_stdin_data := v\<rparr>, stdin_offset := 0\<rparr>"

definition set_soft_unicorn_errors :: "bool \<Rightarrow> ('u, 'h) Valkyrie \<Rightarrow> ('u, 'h) Valkyrie" where
  "set_soft_unicorn_errors v vk = vk\<lparr>soft_unicorn_errors := v\<rparr>"

definition set_prepared_execution_range :: "u64 \<Rightarrow> u64 \<Rightarrow> ('u, 'h) Valkyrie \<Rightarrow> ('u, 'h) Valkyrie" where
  "set_prepared_execution_range start stop vk = vk\<lparr>prepared_start := Some start, prepared_end := Some stop\<rparr>"

section \<open>Hooks of the emulator\<close>

text \<open>The closure given to \<open>hook_code\<close>: an error of the handler is logged, nothing is returned.\<close>

definition syscall_callback ::
  "(u64 \<Rightarrow> u32 \<Rightarrow> ('u, 'h, unit) vk_call) \<Rightarrow> ('u, 'h) Machine \<Rightarrow> u64 \<Rightarrow> u32 \<Rightarrow> HookData
     \<Rightarrow> u32 option \<times> ('u, 'h) Machine \<times> HookData" where
  "syscall_callback handler m addr sz ud =
     (if mc_unwound m \<noteq> Ok () then (None, m, ud)
      else case handler addr sz (mc_vk m) of (r, vk) \<Rightarrow>
        (None, m\<lparr>mc_vk := vk, mc_unwound := (case r of Err _ \<Rightarrow> Ok () | _ \<Rightarrow> r)\<rparr>, ud))"

definition install_syscall_hook ::
  "('u, 'h) platform \<Rightarrow> 'u hook_engine \<Rightarrow> (string \<Rightarrow> ('u, 'h) sys_fn) \<Rightarrow> ('u, 'h, unit) em_call" where
  "install_syscall_hook P E io st =
     (if c_os (cfg (em_vk st)) = BareMetal then (Ok (), st)
      else and_then (syscall_handler_for P io (c_arch (cfg (em_vk st))), st) (\<lambda>handler st.
           and_then (on_hooks (hook_code E (syscall_callback handler) NoData 1 0) st) (\<lambda>_ st.
           (Ok (), st))))"

text \<open>
  \<open>disassemble\<close> and \<open>show_instructions\<close>; \<open>dis\<close> is the disassembler library. What is printed is not state:
  showing instructions takes the pending register updates off the log.
\<close>

definition disassemble ::
  "('u, 'h) platform \<Rightarrow> (bytes \<Rightarrow> u64 \<Rightarrow> string list option) \<Rightarrow> u64 \<Rightarrow> nat \<Rightarrow> ('u, 'h, string list) vk_call" where
  "disassemble P dis addr sz vk =
     (case uc_mem_read P addr sz (uc vk) of
        Inl _ \<Rightarrow> (Err (UnicornGeneralError ''mem_read failed''), vk)
      | Inr f \<Rightarrow>
          (case dis (map f [0..<sz]) addr of
             None \<Rightarrow> (Err (Disassembler ''failed to disassemble''), vk)
           | Some insns \<Rightarrow> (Ok insns, vk)))"

definition show_instructions ::
  "('u, 'h) platform \<Rightarrow> (bytes \<Rightarrow> u64 \<Rightarrow> string list option) \<Rightarrow> u64 \<Rightarrow> nat \<Rightarrow> ('u, 'h, unit) vk_call" where
  "show_instructions P dis addr sz vk =
     (if sz = 0 then (Ok (), vk)
      else and_then (disassemble P dis addr sz vk) (\<lambda>insns vk.
        (Ok (), if insns = [] then vk else set_vregs (snd (take_reg_updates (vregs vk))) vk)))"

definition trace_callback ::
  "('u, 'h) platform \<Rightarrow> (bytes \<Rightarrow> u64 \<Rightarrow> string list option) \<Rightarrow> ('u, 'h) Machine \<Rightarrow> u64 \<Rightarrow> u32 \<Rightarrow> HookData
     \<Rightarrow> u32 option \<times> ('u, 'h) Machine \<times> HookData" where
  "trace_callback P dis m addr sz ud =
     (if mc_unwound m \<noteq> Ok () then (None, m, ud)
      else (None, m\<lparr>mc_vk := if sz \<noteq> 0 then snd (show_instructions P dis addr (unat sz) (mc_vk m)) else mc_vk m\<rparr>, ud))"

text \<open>The result of \<open>hook_code\<close> is unwrapped: an error panics.\<close>

definition enable_instruction_trace ::
  "('u, 'h) platform \<Rightarrow> 'u hook_engine \<Rightarrow> (bytes \<Rightarrow> u64 \<Rightarrow> string list option) \<Rightarrow> ('u, 'h, unit) em_call" where
  "enable_instruction_trace P E dis st =
     (case on_hooks (hook_code E (trace_callback P dis) NoData 1 0) st of
        (Ok _, st) \<Rightarrow> (Ok (), st)
      | (Err _, st) \<Rightarrow> (Panic, st)
      | (Panic, st) \<Rightarrow> (Panic, st)
      | (Diverges, st) \<Rightarrow> (Diverges, st))"

section \<open>The exit trap\<close>

text \<open>A page above every region, with one page between; \<open>max\<close> of the iterator of region ends.\<close>

definition trap_page :: "VMemRegion list \<Rightarrow> u64" where
  "trap_page rs =
     (case map region_end rs of
        [] \<Rightarrow> PAGE_SIZE
      | e # es \<Rightarrow> align_up (sat_add (fold max es e) PAGE_SIZE) PAGE_SIZE)"

definition setup_trap :: "('u, 'h) platform \<Rightarrow> 'u hook_engine \<Rightarrow> ('u, 'h, unit) vk_call" where
  "setup_trap P E vk =
     (if exit_trap_addr vk \<noteq> None then (Ok (), vk)
      else if vos_skip_exit_trap (vos vk) then (Ok (), vk)
      else let trap_addr = trap_page (regions vk) in
      and_then (mem_map P trap_addr PAGE_SIZE Prot_ALL ''[Stop guard page]'' vk) (\<lambda>_ vk.
      and_then (uc_do (\<lambda>_. UnicornGeneralError ''failed to install exit trap hook'')
          (uc_add_hook E HT_CODE trap_addr trap_addr) vk) (\<lambda>hook_id vk.
      (Ok (), vk\<lparr>exit_trap_addr := Some trap_addr, exit_trap_hook := Some hook_id\<rparr>))))"

definition write_exit_trap :: "('u, 'h) platform \<Rightarrow> ('u, 'h, unit) vk_call" where
  "write_exit_trap P vk =
     (if vos_skip_exit_trap (vos vk) then (Ok (), vk)
      else case exit_trap_addr vk of
        None \<Rightarrow> (Err (UnicornGeneralError ''exit trap address not initialized''), vk)
      | Some trap_addr \<Rightarrow>
          and_then (get_reg P (sp_register vk) vk) (\<lambda>sp vk.
          let vk = vk\<lparr>initial_sp := sp\<rparr>; ptr_size = unat (c_archsize (cfg vk) div 8) in
          if 8 < ptr_size then (Panic, vk)
          else mem_write P sp (take ptr_size (to_le_bytes trap_addr)) vk))"

section \<open>Runs\<close>

definition prepare_initial_run ::
  "('u, 'h) platform \<Rightarrow> 'u hook_engine \<Rightarrow> (string \<Rightarrow> ('u, 'h) sys_fn) \<Rightarrow> ('u, 'h, unit) em_call" where
  "prepare_initial_run P E io st =
     and_then (install_syscall_hook P E io (set_vk (reset_execution_state (em_vk st)) st)) (\<lambda>_ st.
     and_then (on_vk (setup_trap P E) st) (\<lambda>_ st.
     on_vk (write_exit_trap P) st))"

text \<open>
  Starting the engine, with the hooks. \<open>run_prepared\<close> uses the prepared range when there is one, else the
  OS layer's \<open>run\<close>, which prepares the range first (\<open>vos_run\<close>, whose two layers share this shape).
\<close>

definition start_engine :: "('u, 'h) engine_run \<Rightarrow> u64 \<Rightarrow> u64 \<Rightarrow> ('u, 'h, unit) em_call" where
  "start_engine emu start stop st =
     (case emu start stop (c_timeout (cfg (em_vk st))) (c_count (cfg (em_vk st))) st of
        (r, st) \<Rightarrow>
          if mc_unwound (fst st) \<noteq> Ok () then (Diverges, st)
          else and_then (case r of Inl err \<Rightarrow> on_vk (handle_unicorn_error err) st | Inr _ \<Rightarrow> (Ok (), st))
            (\<lambda>_ st. (Ok (), set_vk ((em_vk st)\<lparr>vstate := Ended\<rparr>) st)))"

definition run_prepared :: "('u, 'h) platform \<Rightarrow> ('u, 'h) engine_run \<Rightarrow> ('u, 'h, unit) em_call" where
  "run_prepared P emu st =
     (case (prepared_start (em_vk st), prepared_end (em_vk st)) of
        (Some start, Some stop) \<Rightarrow> start_engine emu start stop (set_vk ((em_vk st)\<lparr>vstate := Running\<rparr>) st)
      | _ \<Rightarrow>
          and_then (on_vk (vos_prepare_execution P (vos (em_vk st))) (set_vk ((em_vk st)\<lparr>vstate := Running\<rparr>) st))
            (\<lambda>(start, stop) st. start_engine emu start stop st))"

definition run ::
  "('u, 'h) platform \<Rightarrow> 'u hook_engine \<Rightarrow> (string \<Rightarrow> ('u, 'h) sys_fn) \<Rightarrow> ('u, 'h) engine_run
     \<Rightarrow> ('u, 'h, unit) em_call" where
  "run P E io emu st = and_then (prepare_initial_run P E io st) (\<lambda>_ st. run_prepared P emu st)"

section \<open>Construction\<close>

text \<open>\<open>Path::file_name\<close>: the last component, unless it is \<open>..\<close>; empty and \<open>.\<close> components do not count.\<close>

fun path_split :: "string \<Rightarrow> string list" where
  "path_split [] = [[]]"
| "path_split (c # cs) =
     (if c = CHR ''/'' then [] # path_split cs
      else case path_split cs of [] \<Rightarrow> [[c]] | w # ws \<Rightarrow> (c # w) # ws)"

definition file_name :: "string \<Rightarrow> string option" where
  "file_name path =
     (let cs = filter (\<lambda>c. c \<noteq> '''' \<and> c \<noteq> ''.'') (path_split path)
      in if cs = [] \<or> last cs = ''..'' then None else Some (last cs))"

definition guest_prctl_name_from_cfg :: "ValkyrieConfig \<Rightarrow> bytes" where
  "guest_prctl_name_from_cfg c =
     (let source = (case Option.bind (c_elf_file c) file_name of Some n \<Rightarrow> n | None \<Rightarrow> ''valkyrie'');
          bs = ascii source; len = min (length bs) 15
      in take len bs @ replicate (16 - len) 0)"

text \<open>\<open>get_unicorn_arch\<close>: the engine's x86 architecture, in the guest's mode.\<close>

datatype UcMode = MODE_32 | MODE_64

definition get_unicorn_mode :: "Arch \<Rightarrow> UcMode" where
  "get_unicorn_mode a = (case a of X86_64 \<Rightarrow> MODE_64 | X86 \<Rightarrow> MODE_32)"

text \<open>\<open>VMemory::new\<close>; it fails when the disassembler has no mode for the width, and \<open>new\<close> unwraps it.\<close>

definition vmemory_new :: "ValkyrieConfig \<Rightarrow> VMemory vk_outcome" where
  "vmemory_new c =
     (if (c_arch c, c_archsize c) \<in> {(X86, 32), (X86_64, 64)}
      then Ok \<lparr>m_regions = [], heap_addr_start = 0, heap_addr_exit = 0, stack_addr_start = 0,
        stack_addr_exit = 0, code_addr_start = 0, code_addr_exit = 0, tls_addr_start = 0, tls_addr_exit = 0\<rparr>
      else Err (UnsupportedArch (c_arch c)))"

text \<open>
  The value built before the loader runs, on a fresh engine. The table of descriptors is the process's:
  it holds what an earlier emulator of the process left in it.
\<close>

definition fresh ::
  "ValkyrieConfig \<Rightarrow> VCoreStructs \<Rightarrow> 'u \<Rightarrow> VMemory \<Rightarrow> VCoreOs \<Rightarrow> LinuxCreds \<Rightarrow> FdTable \<Rightarrow> 'h
     \<Rightarrow> ('u, 'h) Valkyrie" where
  "fresh c vs u mem os creds table h =
     \<lparr>cfg = c, vstruct = vs, vstate = NotSet, uc = u, varch = varch_new (c_arch c), vmem = mem, vos = os,
      exit_trap_addr = None, exit_trap_hook = None, initial_sp = 0, exit_status = None, crashed = False,
      elf_auxv = None, linux_creds = creds, guest_rt_sigactions = Map.empty, guest_rt_sigmask = [],
      guest_prctl_name = guest_prctl_name_from_cfg c, guest_pdeathsig = 0, guest_dumpable = 1,
      stdin_offset = 0, soft_unicorn_errors = False, prepared_start = None, prepared_end = None,
      fd_table = table, host = h\<rparr>"

definition install_trace_if ::
  "bool \<Rightarrow> ('u, 'h) platform \<Rightarrow> 'u hook_engine \<Rightarrow> (bytes \<Rightarrow> u64 \<Rightarrow> string list option) \<Rightarrow> ('u, 'h, unit) em_call" where
  "install_trace_if d P E dis st = (if d then enable_instruction_trace P E dis st else (Ok (), st))"

text \<open>
  What \<open>new\<close> does once the program is loaded: the OS layer is told, tracing and the debug server are started
  on demand. \<open>udbserver\<close> is the debug server; its error becomes an \<open>io::Error\<close> without an errno, written \<open>Io 0\<close>.
\<close>

definition after_load ::
  "('u, 'h) platform \<Rightarrow> 'u hook_engine \<Rightarrow> (bytes \<Rightarrow> u64 \<Rightarrow> string list option)
     \<Rightarrow> (u16 \<Rightarrow> u64 \<Rightarrow> 'u \<Rightarrow> bool \<times> 'u) \<Rightarrow> u64 \<Rightarrow> ('u, 'h) Valkyrie \<Rightarrow> unit vk_outcome \<times> ('u, 'h) emulator" where
  "after_load P E dis udbserver load_address vk =
     and_then (install_trace_if (c_disassemble (cfg vk)) P E dis
       (\<lparr>mc_vk = vk\<lparr>vos := vos_set_loader_info load_address
          (of_nat (length (c_baremetal_code (cfg vk)))) (skip_exit_check vk) (vos vk)\<rparr>,
         mc_unwound = Ok (), cov_map = [], cov_state = \<lparr>cv_len = 0, cv_prev_loc = 0\<rparr>\<rparr>, hooks_new))
     (\<lambda>_ st.
      if c_debug (cfg (em_vk st))
      then (case udbserver (c_debug_port (cfg (em_vk st))) load_address (uc (em_vk st)) of
              (ok, u) \<Rightarrow> (if ok then Ok () else Err (Io 0), set_vk ((em_vk st)\<lparr>uc := u\<rparr>) st))
      else (Ok (), st))"

text \<open>
  \<open>new\<close>, with what it takes from outside: \<open>engine_new\<close> opens an engine, \<open>parse\<close> and \<open>dis\<close> are the ELF and
  disassembler libraries.
\<close>

definition valkyrie_new ::
  "('u, 'h) platform \<Rightarrow> 'u hook_engine \<Rightarrow> (string \<Rightarrow> 'h \<Rightarrow> Binary option) \<Rightarrow> (bytes \<Rightarrow> u64 \<Rightarrow> string list option)
     \<Rightarrow> (UcMode \<Rightarrow> uc_error + 'u) \<Rightarrow> (u16 \<Rightarrow> u64 \<Rightarrow> 'u \<Rightarrow> bool \<times> 'u) \<Rightarrow> LinuxCreds \<Rightarrow> FdTable \<Rightarrow> 'h
     \<Rightarrow> ValkyrieConfig \<Rightarrow> ('u, 'h) emulator vk_outcome" where
  "valkyrie_new P E parse dis engine_new udbserver creds table h c =
     (case (vcs_new (c_endianess c) (c_archsize c), engine_new (get_unicorn_mode (c_arch c)), vmemory_new c, select_os (c_os c)) of
        (Ok vs, Inr u, Ok mem, Ok os) \<Rightarrow>
          (case loader_run parse P (c_loader c) (fresh c vs u mem os creds table h) of
             (Ok load_address, vk) \<Rightarrow>
               (case after_load P E dis udbserver load_address vk of
                  (Ok _, st) \<Rightarrow> Ok st
                | (Err e, _) \<Rightarrow> Err e | (Panic, _) \<Rightarrow> Panic | (Diverges, _) \<Rightarrow> Diverges)
           | (Err e, _) \<Rightarrow> Err e | (Panic, _) \<Rightarrow> Panic | (Diverges, _) \<Rightarrow> Diverges)
      | (Ok vs, Inl _, _, _) \<Rightarrow> Err (UnicornGeneralError ''failed to create unicorn'')
      | (Ok vs, Inr u, Ok mem, Err e) \<Rightarrow> Err e
      | _ \<Rightarrow> Panic)"

end
