(* ===== verification/Vk_CoreRun.thy ===== *)
theory Vk_CoreRun
  imports Vk_Core
begin

text \<open>
  The emulator from construction to the end of a run: what \<open>new\<close> hands over, the exit trap of bare-metal
  programs, system calls served through the hook registry.
\<close>

lemma uc_do_Ok [outcome_elim]:
  "uc_do conv f vk = (Ok a, vk') \<longleftrightarrow> (\<exists>u. f (uc vk) = (Inr a, u) \<and> vk' = vk\<lparr>uc := u\<rparr>)"
  by (auto simp: uc_do_def split: prod.split sum.split)

lemma on_vk_Ok [outcome_elim]:
  "on_vk f st = (Ok a, st') \<longleftrightarrow> (\<exists>vk. f (em_vk st) = (Ok a, vk) \<and> st' = set_vk vk st)"
  by (auto simp: on_vk_def split: prod.split)

section \<open>The trap page\<close>

lemma fold_max_mem: "fold max es e \<in> set (e # es)" for e :: u64
proof (induction es arbitrary: e)
  case (Cons x es)
  then show ?case using Cons.IH [of "max x e"] by (auto simp: max_def split: if_splits)
qed simp

lemma trap_page_spec:
  assumes rs: "regions_ok rs" "paged rs" and room: "\<forall>r \<in> set rs. unat (region_end r) + 8192 < 2 ^ 64"
  shows "unat (trap_page rs) mod 4096 = 0 \<and> unat (trap_page rs) + 4096 < 2 ^ 64
    \<and> (\<forall>r \<in> set rs. unat (region_end r) + 4096 \<le> unat (trap_page rs))"
proof (cases rs)
  case Nil
  then show ?thesis by (simp add: trap_page_def unat_PAGE_SIZE)
next
  case (Cons r qs)
  define m where "m = fold max (map region_end qs) (region_end r)"
  have "m \<in> region_end ` set rs"
    using fold_max_mem [of "map region_end qs" "region_end r"] by (simp add: m_def Cons image_iff)
  then obtain q where q: "q \<in> set rs" "m = region_end q" by blast
  have "unat (region_end q) mod 4096 = 0"
    using rs q(1) by (simp add: fit_region_end [OF regions_ok_fit] paged_def mod_add_eq [symmetric, of "unat (r_start q)"])
  then have m: "unat m mod 4096 = 0" "unat m + 8192 < 2 ^ 64"
    using q room by auto
  then have s: "unat (sat_add m PAGE_SIZE) = unat m + 4096"
    by (simp add: unat_sat_add unat_PAGE_SIZE)
  have "align_up (sat_add m PAGE_SIZE) PAGE_SIZE = sat_add m PAGE_SIZE"
    by (rule align_up_self) (simp add: s m(1) mod_add_eq [symmetric, of "unat m"])
  then have t: "unat (trap_page rs) = unat m + 4096"
    using s by (simp add: trap_page_def Cons m_def)
  have "unat (region_end x) \<le> unat m" if "x \<in> set rs" for x
    using fold_max_bound [of "region_end r" "map region_end qs"] that
    by (auto simp: m_def Cons word_le_nat_alt)
  then show ?thesis using t m by (simp add: mod_add_eq [symmetric, of "unat m"])
qed

text \<open>Registering a hook leaves a part of the engine's state alone.\<close>

definition hook_keeps :: "'u hook_engine \<Rightarrow> ('u \<Rightarrow> 'x) \<Rightarrow> bool" where
  "hook_keeps E f \<longleftrightarrow> (\<forall>t a b u. f (snd (uc_add_hook E t a b u)) = f u)"

lemma hook_keepsD: "hook_keeps E f \<Longrightarrow> uc_add_hook E t a b u = (r, u') \<Longrightarrow> f u' = f u"
  unfolding hook_keeps_def by (metis snd_conv)

definition trap_ready :: "VMemRegion list \<Rightarrow> u64 \<Rightarrow> ('u, 'h) Valkyrie \<Rightarrow> bool" where
  "trap_ready rs t vk \<longleftrightarrow> exit_trap_addr vk = Some t \<and> unat t mod 4096 = 0
     \<and> (\<forall>r \<in> set rs. unat (region_end r) + 4096 \<le> unat t)
     \<and> region_at (regions vk) = (\<lambda>x. if in_range t 4096 x then Some (Prot_ALL, ''[Stop guard page]'')
         else region_at rs x)"

lemma setup_trap_spec:
  assumes laws: "engine_maps P view" "hook_keeps E view" and sync: "in_sync view vk"
    and room: "\<forall>r \<in> set (regions vk). unat (region_end r) + 8192 < 2 ^ 64"
    and need: "exit_trap_addr vk = None" "\<not> vos_skip_exit_trap (vos vk)"
    and run: "setup_trap P E vk = (Ok (), vk')"
  shows "in_sync view vk' \<and> trap_ready (regions vk) (trap_page (regions vk)) vk' \<and> vos vk' = vos vk \<and> cfg vk' = cfg vk"
proof -
  let ?t = "trap_page (regions vk)"
  have page: "unat ?t mod 4096 = 0" "unat ?t + 4096 < 2 ^ 64" "\<forall>r \<in> set (regions vk). unat (region_end r) + 4096 \<le> unat ?t"
    using trap_page_spec [OF _ _ room] sync by (auto simp: in_sync_def)
  then have fits: "unat ?t + unat PAGE_SIZE \<noteq> 2 ^ 64" by (simp add: unat_PAGE_SIZE)
  obtain vk1 where m: "mem_map P ?t PAGE_SIZE Prot_ALL ''[Stop guard page]'' vk = (Ok (), vk1)"
    and h: "and_then (uc_do (\<lambda>_. UnicornGeneralError ''failed to install exit trap hook'')
          (uc_add_hook E HT_CODE ?t ?t) vk1) (\<lambda>hook_id vk.
      (Ok (), vk\<lparr>exit_trap_addr := Some ?t, exit_trap_hook := Some hook_id\<rparr>)) = (Ok (), vk')"
    using run need by (auto simp: setup_trap_def Let_def outcome_elim)
  obtain i u where u: "uc_add_hook E HT_CODE ?t ?t (uc vk1) = (Inr i, u)"
    and vk': "vk' = vk1\<lparr>uc := u, exit_trap_addr := Some ?t, exit_trap_hook := Some i\<rparr>"
    using h by (auto simp: outcome_elim)
  have ok: "fst (mem_map P ?t PAGE_SIZE Prot_ALL ''[Stop guard page]'' vk) = Ok ()" using m by simp
  have s1: "in_sync view vk1"
    using mem_map_spec [OF laws(1) sync fits, of Prot_ALL "''[Stop guard page]''"] m by simp
  have "in_sync view vk'"
    by (rule in_sync_cong [OF s1]) (simp_all add: vk' hook_keepsD [OF laws(2) u])
  then show ?thesis
    using page mem_map_Ok(2) [OF laws(1) sync fits ok] m remapped_mem_map [of vk P ?t PAGE_SIZE Prot_ALL "''[Stop guard page]''"]
    by (auto simp: vk' trap_ready_def unat_PAGE_SIZE fun_eq_iff remapped_def)
qed

lemma setup_trap_result:
  assumes "setup_trap P E vk = (Ok (), vk')"
  shows "vstate vk' = vstate vk" "exit_status vk' = exit_status vk" "crashed vk' = crashed vk"
  using assms remapped_mem_map [of vk P "trap_page (regions vk)" PAGE_SIZE Prot_ALL "''[Stop guard page]''"]
  by (fastforce simp: setup_trap_def Let_def outcome_elim remapped_def split: if_splits)+

text \<open>Mapping memory and adding a hook leave the registers alone.\<close>

definition registers_stay :: "('u, 'h) platform \<Rightarrow> 'u hook_engine \<Rightarrow> bool" where
  "registers_stay P E \<longleftrightarrow> hook_keeps E (\<lambda>u r. uc_reg_read P r u)
     \<and> (\<forall>a n p u r. uc_reg_read P r (snd (uc_mem_map P a n p u)) = uc_reg_read P r u)"

lemma setup_trap_registers:
  assumes stay: "registers_stay P E" and run: "setup_trap P E vk = (Ok (), vk')"
  shows "(\<lambda>r. uc_reg_read P r (uc vk')) = (\<lambda>r. uc_reg_read P r (uc vk)) \<and> vregs vk' = vregs vk \<and> cfg vk' = cfg vk"
proof -
  have m: "uc_mem_map P a n p u = (x, u') \<Longrightarrow> uc_reg_read P r u' = uc_reg_read P r u" for a n p u x u' r
    using stay unfolding registers_stay_def by (metis snd_conv)
  have h: "uc_add_hook E t a b u = (x, u') \<Longrightarrow> uc_reg_read P r u' = uc_reg_read P r u" for t a b u x u' r
    using hook_keepsD [of E "\<lambda>u r. uc_reg_read P r u"] stay unfolding registers_stay_def by metis
  show ?thesis
  proof (cases "exit_trap_addr vk = None \<and> \<not> vos_skip_exit_trap (vos vk)")
    case False
    then have "vk' = vk" using run by (auto simp: setup_trap_def split: if_splits)
    then show ?thesis by simp
  next
    case True
    let ?t = "trap_page (regions vk)"
    obtain vk1 where mp: "mem_map P ?t PAGE_SIZE Prot_ALL ''[Stop guard page]'' vk = (Ok (), vk1)"
      and hk: "and_then (uc_do (\<lambda>_. UnicornGeneralError ''failed to install exit trap hook'')
          (uc_add_hook E HT_CODE ?t ?t) vk1) (\<lambda>hook_id vk.
        (Ok (), vk\<lparr>exit_trap_addr := Some ?t, exit_trap_hook := Some hook_id\<rparr>)) = (Ok (), vk')"
      using run True by (auto simp: setup_trap_def Let_def outcome_elim)
    obtain i u where "uc_add_hook E HT_CODE ?t ?t (uc vk1) = (Inr i, u)"
      "vk' = vk1\<lparr>uc := u, exit_trap_addr := Some ?t, exit_trap_hook := Some i\<rparr>"
      using hk by (auto simp: outcome_elim)
    moreover obtain u1 where "uc_mem_map P ?t PAGE_SIZE Prot_ALL (uc vk) = (Inr (), u1)" "uc vk1 = u1"
      "vregs vk1 = vregs vk" "cfg vk1 = cfg vk"
      using mp by (auto simp: mem_map_def outcome_elim split: if_splits)
    ultimately show ?thesis by (simp add: m h)
  qed
qed

lemma get_reg_same:
  "(\<lambda>r. uc_reg_read P r (uc vk')) = (\<lambda>r. uc_reg_read P r (uc vk)) \<Longrightarrow> rg_arch (vregs vk') = rg_arch (vregs vk)
     \<Longrightarrow> fst (get_reg P r vk') = fst (get_reg P r vk)"
  by (simp add: get_reg_def get_reg_x86_def get_reg_x86_64_def fun_eq_iff split: Arch.split VRegister.split sum.split)

section \<open>System calls through the registry\<close>

text \<open>The registry has exactly the emulator's code hook, at any address.\<close>

definition serves ::
  "(u64 \<Rightarrow> u32 \<Rightarrow> ('u, 'h, unit) vk_call) \<Rightarrow> ('u, 'h) registry \<Rightarrow> bool" where
  "serves handler hk \<longleftrightarrow> (\<exists>h. hooks_of hk HT_CODE = [h] \<and> hc_begin h = 1 \<and> hc_end h = 0
     \<and> hc_cb h = (\<lambda>ctx args d. case args of Trace addr sz \<Rightarrow> syscall_callback handler ctx addr sz d | _ \<Rightarrow> (None, ctx, d)))"

lemma serves_installed:
  assumes run: "install_syscall_hook P E io st = (Ok (), st')" and os: "c_os (cfg (em_vk st)) = Linux"
    and none: "hooks_of (snd st) HT_CODE = []"
  shows "\<exists>handler. syscall_handler_for P io (c_arch (cfg (em_vk st))) = Ok handler \<and> serves handler (snd st')"
proof -
  obtain handler where h: "syscall_handler_for P io (c_arch (cfg (em_vk st))) = Ok handler"
    using run os by (auto simp: install_syscall_hook_def outcome_elim)
  obtain ret where c: "on_hooks (hook_code E (syscall_callback handler) NoData 1 0) st = (Ok ret, st')"
    using run os h by (auto simp: install_syscall_hook_def outcome_elim)
  then obtain hk u where e: "ensure_code_dispatcher E (snd st, uc (em_vk st)) = (Ok (), hk, u)"
    and st': "snd st' = (snd (alloc_id hk))\<lparr>hooks := push_entry HT_CODE \<lparr>hc_id = fst (alloc_id hk), hc_begin = 1, hc_end = 0, hc_user_data = NoData,
            hc_cb = (\<lambda>ctx args d. case args of Trace addr sz \<Rightarrow> syscall_callback handler ctx addr sz d | _ \<Rightarrow> (None, ctx, d))\<rparr>
            (hooks (snd (alloc_id hk)))\<rparr>"
    by (auto simp: on_hooks_def hook_code_def outcome_elim Let_def alloc_id_def split: prod.splits)
  have "hooks hk = hooks (snd st)"
    using e by (auto simp: ensure_code_dispatcher_def ensure_dispatcher_def split: if_splits prod.splits sum.splits)
  then have "hooks_of (snd st') HT_CODE = hooks_of (snd st) HT_CODE @ [\<lparr>hc_id = fst (alloc_id hk), hc_begin = 1, hc_end = 0, hc_user_data = NoData,
            hc_cb = (\<lambda>ctx args d. case args of Trace addr sz \<Rightarrow> syscall_callback handler ctx addr sz d | _ \<Rightarrow> (None, ctx, d))\<rparr>]"
    by (simp add: st' push_entry_def maps.look_put alloc_id_def)
  then show ?thesis
    using h none by (auto simp: serves_def)
qed

lemma serves_dispatch:
  assumes s: "serves handler hk"
  shows "\<exists>hk'. dispatch_common hk m HT_CODE (Trace addr sz) = (Ok (), fst (snd (syscall_callback handler m addr sz NoData)), hk')
    \<and> serves handler hk'"
proof -
  obtain h where h: "hooks_of hk HT_CODE = [h]" and f: "hc_begin h = 1" "hc_end h = 0"
    and cb: "hc_cb h = (\<lambda>ctx args d. case args of Trace addr sz \<Rightarrow> syscall_callback handler ctx addr sz d | _ \<Rightarrow> (None, ctx, d))"
    using s by (auto simp: serves_def)
  then have m: "map_of (hooks hk) HT_CODE = Some [h]" by (simp split: option.splits)
  have call: "syscall_callback handler m addr sz d = (None, fst (snd (syscall_callback handler m addr sz NoData)), d)" for d
    by (simp add: syscall_callback_def split: prod.split)
  have "run_common (Trace addr sz) m [h] = (True, fst (snd (syscall_callback handler m addr sz NoData)), [h])"
    using f call [of "hc_user_data h"] by (simp add: in_scope_def bound_check_def cb blocks_def)
  then have "dispatch_common hk m HT_CODE (Trace addr sz) = (Ok (), fst (snd (syscall_callback handler m addr sz NoData)),
      hk\<lparr>hooks := AList.update HT_CODE [h] (hooks hk)\<rparr>)"
    using m by (simp add: dispatch_common_def needs_handled_def hook_type_defs del: run_common.simps)
  then show ?thesis
    using f cb by (auto simp: serves_def maps.look_put)
qed

text \<open>
  A run of the engine under the registry: its own instructions change registers and contents; every
  instruction it reaches is a code event, dispatched to the registered hooks. It ends in a callback that
  does not return.
\<close>

inductive hooked_run ::
  "('u, 'h) platform \<Rightarrow> ('u \<Rightarrow> nat \<Rightarrow> Prot option) \<Rightarrow> ('u, 'h) emulator \<Rightarrow> ('u, 'h) emulator \<Rightarrow> bool"
  for P view where
  start: "hooked_run P view st st"
| exec: "hooked_run P view st (m, hk) \<Longrightarrow> view u = view (uc (mc_vk m)) \<Longrightarrow>
     hooked_run P view st (m\<lparr>mc_vk := (mc_vk m)\<lparr>uc := u\<rparr>\<rparr>, hk)"
| code: "hooked_run P view st (m, hk) \<Longrightarrow> trap_clear P addr (mc_vk m)
     \<Longrightarrow> dispatch_common hk m HT_CODE (Trace addr sz) = (r, m', hk') \<Longrightarrow> hooked_run P view st (m', hk')"

inductive_cases hooked_runE: "hooked_run P view st st'"

lemma handler_sync:
  assumes "engine_maps P view" "io_keeps_map view io" "syscall_handler_for P io a = Ok handler"
    and "in_sync view vk" "trap_clear P addr vk"
  shows "in_sync view (snd (handler addr sz vk))"
  using assms handle_x86_syscall_sync handle_x86_64_syscall_sync
  by (auto simp: syscall_handler_for_def split: if_splits)

lemma callback_sync:
  assumes "engine_maps P view" "io_keeps_map view io" "syscall_handler_for P io a = Ok handler"
    and "in_sync view (mc_vk m)" "trap_clear P addr (mc_vk m)"
  shows "in_sync view (mc_vk (fst (snd (syscall_callback handler m addr sz d))))"
proof -
  note s = handler_sync [OF assms, of sz]
  show ?thesis
    using assms(4) s by (auto simp: syscall_callback_def split: prod.splits)
qed

lemma hooked_run_serves:
  assumes "hooked_run P view st st'" "serves handler (snd st)" "syscall_handler_for P io a = Ok handler"
    "engine_maps P view" "io_keeps_map view io" "in_sync view (em_vk st)"
  shows "serves handler (snd st') \<and> in_sync view (em_vk st')"
  using assms
proof (induction rule: hooked_run.induct)
  case (exec st m hk u)
  then show ?case by (auto intro: in_sync_cong)
next
  case (code st m hk addr sz r m' hk')
  then have s: "serves handler hk" and sync: "in_sync view (mc_vk m)" by simp_all
  from serves_dispatch [OF s, of m addr sz] code.hyps(3) show ?case
    using callback_sync [OF code.prems(3,4,2) sync code.hyps(2)] by auto
qed simp

text \<open>Installing a hook changes the registry and the engine only.\<close>

lemma on_hook_code_frame:
  assumes "on_hooks (hook_code E cb ud lo hi) st = (r, st')" and "hook_keeps E f"
  shows "\<exists>u. f u = f (uc (em_vk st)) \<and> fst st' = (fst st)\<lparr>mc_vk := (em_vk st)\<lparr>uc := u\<rparr>\<rparr>"
proof -
  let ?e = "ensure_code_dispatcher E (snd st, uc (em_vk st))"
  have e: "f (snd (snd ?e)) = f (uc (em_vk st))"
    using hook_keepsD [OF assms(2)] by (auto simp: ensure_code_dispatcher_def ensure_dispatcher_def split: prod.split sum.split)
  obtain q hk u where q: "?e = (q, hk, u)" by (metis prod_cases3)
  have "snd (snd (hook_code E cb ud lo hi (snd st, uc (em_vk st)))) = u"
    unfolding hook_code_def q by (cases q) (simp_all add: Let_def alloc_id_def)
  then have "fst st' = (fst st)\<lparr>mc_vk := (em_vk st)\<lparr>uc := u\<rparr>\<rparr>"
    using assms(1) by (auto simp: on_hooks_def split: prod.splits)
  with e q show ?thesis by auto
qed

lemma install_syscall_hook_frame:
  assumes "install_syscall_hook P E io st = (r, st')" and "hook_keeps E f"
  shows "\<exists>u. f u = f (uc (em_vk st)) \<and> fst st' = (fst st)\<lparr>mc_vk := (em_vk st)\<lparr>uc := u\<rparr>\<rparr>"
proof (cases "c_os (cfg (em_vk st)) = BareMetal")
  case True
  then show ?thesis using assms(1) by (intro exI [of _ "uc (em_vk st)"]) (auto simp: install_syscall_hook_def)
next
  case False
  obtain handler where h: "syscall_handler_for P io (c_arch (cfg (em_vk st))) = Ok handler"
    by (cases "c_arch (cfg (em_vk st))") (simp_all add: syscall_handler_for_def)
  obtain q s where q: "on_hooks (hook_code E (syscall_callback handler) NoData 1 0) st = (q, s)" by (rule prod.exhaust)
  have "s = st'"
    using assms(1) False h q by (cases q) (auto simp: install_syscall_hook_def)
  with on_hook_code_frame [OF q assms(2)] show ?thesis by simp
qed

section \<open>Properties\<close>

text \<open>
  C3: after \<open>install_syscall_hook\<close> on a Linux emulator with no code hook, every instruction the engine
  reports runs the handler of the configured architecture exactly once, at that address, and the registry
  is ready for the next one; an error of the handler is swallowed.
\<close>

theorem syscall_hook_serves:
  assumes run: "install_syscall_hook P E io st = (Ok (), st')" and os: "c_os (cfg (em_vk st)) = Linux"
    and none: "hooks_of (snd st) HT_CODE = []" and idle: "mc_unwound m = Ok ()"
  shows "\<exists>handler r vk m' hk'. syscall_handler_for P io (c_arch (cfg (em_vk st))) = Ok handler
    \<and> handler addr sz (mc_vk m) = (r, vk) \<and> dispatch_common (snd st') m HT_CODE (Trace addr sz) = (Ok (), m', hk')
    \<and> m' = m\<lparr>mc_vk := vk, mc_unwound := (case r of Err _ \<Rightarrow> Ok () | _ \<Rightarrow> r)\<rparr> \<and> serves handler hk'"
proof -
  obtain handler where h: "syscall_handler_for P io (c_arch (cfg (em_vk st))) = Ok handler" and s: "serves handler (snd st')"
    using serves_installed [OF run os none] by blast
  obtain r vk where c: "handler addr sz (mc_vk m) = (r, vk)" by fastforce
  with serves_dispatch [OF s, of m addr sz] idle h show ?thesis
    by (auto simp: syscall_callback_def)
qed

text \<open>
  The engine's own execution with the installed hook. Along any run of instructions and of code
  events dispatched through the registry, in which every mapping call is clear of the flaws found in
  \<open>mmap\<close> and \<open>mprotect\<close>, the region list and the engine's memory map agree.
\<close>

lemma hooked_run_keeps_sync:
  assumes run: "install_syscall_hook P E io st = (Ok (), st1)" "hooked_run P view st1 st2"
    and os: "c_os (cfg (em_vk st)) = Linux" and none: "hooks_of (snd st) HT_CODE = []"
    and laws: "engine_maps P view" "hook_keeps E view" "io_keeps_map view io" and sync: "in_sync view (em_vk st)"
  shows "in_sync view (em_vk st2)"
proof -
  obtain handler where h: "syscall_handler_for P io (c_arch (cfg (em_vk st))) = Ok handler" and s: "serves handler (snd st1)"
    using serves_installed [OF run(1) os none] by blast
  obtain u where "view u = view (uc (em_vk st))" "em_vk st1 = (em_vk st)\<lparr>uc := u\<rparr>"
    using install_syscall_hook_frame [OF run(1) laws(2)] by auto
  then have "in_sync view (em_vk st1)" by (auto intro: in_sync_cong [OF sync])
  with hooked_run_serves [OF run(2) s h laws(1,3)] show ?thesis by blast
qed

text \<open>
  C5: the exit trap of a bare-metal program. When the initial run is prepared, the page of the trap was
  free and lies a page above every region, aligned; it is mapped, executable and labelled, nothing else
  changed its mapping; the word at the initial stack pointer is the address of the trap, so a \<open>ret\<close> of the
  program's outermost frame reaches it; and the result of an earlier run is reset. The initial stack pointer is the
  value of the guest's stack pointer register, when mapping memory and adding a hook leave the registers alone.
\<close>

theorem exit_trap_armed:
  assumes laws: "engine_maps P view" "engine_bytes P content" "hook_keeps E view" and sync: "in_sync view (em_vk st)"
    and room: "\<forall>r \<in> set (regions (em_vk st)). unat (region_end r) + 8192 < 2 ^ 64"
    and need: "exit_trap_addr (em_vk st) = None" "\<not> vos_skip_exit_trap (vos (em_vk st))"
    and run: "prepare_initial_run P E io st = (Ok (), st')"
  shows "\<exists>t n. exit_trap_addr (em_vk st') = Some t \<and> unat t mod 4096 = 0
    \<and> (\<forall>r \<in> set (regions (em_vk st)). unat (region_end r) + 4096 \<le> unat t)
    \<and> region_at (regions (em_vk st')) = (\<lambda>x. if in_range t 4096 x then Some (Prot_ALL, ''[Stop guard page]'')
         else region_at (regions (em_vk st)) x)
    \<and> n = unat (c_archsize (cfg (em_vk st)) div 8) \<and> n \<le> 8
    \<and> guest_bytes content (initial_sp (em_vk st')) n (em_vk st') = take n (to_le_bytes t)
    \<and> in_sync view (em_vk st')
    \<and> vstate (em_vk st') = NotSet \<and> exit_status (em_vk st') = None \<and> \<not> crashed (em_vk st')
    \<and> (registers_stay P E \<longrightarrow> fst (get_reg P (sp_register (em_vk st)) (em_vk st)) = Ok (initial_sp (em_vk st')))"
proof -
  let ?vk0 = "reset_execution_state (em_vk st)"
  obtain s1 v2 where i: "install_syscall_hook P E io (set_vk ?vk0 st) = (Ok (), s1)"
    and t: "setup_trap P E (em_vk s1) = (Ok (), v2)" and w: "write_exit_trap P v2 = (Ok (), em_vk st')"
    using run by (auto simp: prepare_initial_run_def outcome_elim)
  obtain u where u: "view u = view (uc (em_vk st))" "em_vk s1 = ?vk0\<lparr>uc := u\<rparr>"
    using install_syscall_hook_frame [OF i laws(3)] by (auto simp: reset_execution_state_def)
  have v1: "in_sync view (em_vk s1)" "regions (em_vk s1) = regions (em_vk st)" "cfg (em_vk s1) = cfg (em_vk st)"
    using u by (auto intro: in_sync_cong [OF sync] simp: reset_execution_state_def)
  have need1: "exit_trap_addr (em_vk s1) = None" "\<not> vos_skip_exit_trap (vos (em_vk s1))"
    using need by (simp_all add: u(2) reset_execution_state_def)
  let ?t = "trap_page (regions (em_vk st))"
  have spec: "in_sync view v2" "trap_ready (regions (em_vk st)) ?t v2" "vos v2 = vos (em_vk s1)"
    "cfg v2 = cfg (em_vk st)"
    using setup_trap_spec [OF laws(1,3) v1(1) _ need1 t] room v1(2,3) by auto
  have outcome2: "vstate v2 = NotSet" "exit_status v2 = None" "\<not> crashed v2"
    using setup_trap_result [OF t] by (simp_all add: u(2) reset_execution_state_def)
  obtain sp where sp: "get_reg P (sp_register v2) v2 = (Ok sp, v2)"
    and n8: "unat (c_archsize (cfg (em_vk st)) div 8) \<le> 8"
    and m: "mem_write P sp (take (unat (c_archsize (cfg (em_vk st)) div 8)) (to_le_bytes ?t)) (v2\<lparr>initial_sp := sp\<rparr>)
      = (Ok (), em_vk st')"
    using w spec need1 get_reg_same_state [of P "sp_register v2" "v2"]
    by (auto simp: write_exit_trap_def trap_ready_def outcome_elim Let_def split: if_splits)
  note wr = mem_write_Ok [OF laws(2) m]
  have st': "em_vk st' = v2\<lparr>initial_sp := sp, uc := uc (em_vk st')\<rparr>" using wr by simp
  have sy: "in_sync view (em_vk st')"
  proof -
    have "in_sync view (v2\<lparr>initial_sp := sp\<rparr>)" using spec(1) by (rule in_sync_cong) simp_all
    from mem_write_sync [OF laws(1) this] m show ?thesis by (metis snd_conv)
  qed
  have fields: "exit_trap_addr (em_vk st') = Some ?t" "regions (em_vk st') = regions v2"
    "initial_sp (em_vk st') = sp" "vstate (em_vk st') = NotSet" "exit_status (em_vk st') = None" "\<not> crashed (em_vk st')"
    using spec(2) outcome2 by (subst st', simp add: trap_ready_def)+
  have "guest_bytes content sp (unat (c_archsize (cfg (em_vk st)) div 8)) (em_vk st') =
      take (unat (c_archsize (cfg (em_vk st)) div 8)) (to_le_bytes ?t)"
    using guest_bytes_write [OF laws(2) m] n8 by (simp add: length_to_le_bytes min_def)
  moreover have "registers_stay P E \<longrightarrow> fst (get_reg P (sp_register (em_vk st)) (em_vk st)) = Ok (initial_sp (em_vk st'))"
  proof
    assume stay: "registers_stay P E"
    then have "hook_keeps E (\<lambda>u r. uc_reg_read P r u)" by (simp add: registers_stay_def)
    from install_syscall_hook_frame [OF i this]
    have s1: "(\<lambda>r. uc_reg_read P r (uc (em_vk s1))) = (\<lambda>r. uc_reg_read P r (uc (em_vk st)))" "vregs (em_vk s1) = vregs (em_vk st)"
      by (auto simp: reset_execution_state_def)
    note v2 = setup_trap_registers [OF stay t]
    have "fst (get_reg P r v2) = fst (get_reg P r (em_vk st))" for r
      by (rule get_reg_same [OF trans [OF conjunct1 [OF v2] s1(1)]]) (simp only: v2 s1(2))
    moreover have "sp_register v2 = sp_register (em_vk st)" by (simp only: sp_register_def spec(4))
    ultimately have "fst (get_reg P (sp_register v2) v2) = fst (get_reg P (sp_register (em_vk st)) (em_vk st))"
      by (simp only:)
    with sp fields(3) show "fst (get_reg P (sp_register (em_vk st)) (em_vk st)) = Ok (initial_sp (em_vk st'))" by simp
  qed
  ultimately show ?thesis using fields sy spec(2) n8 by (auto simp: trap_ready_def)
qed

section \<open>Construction\<close>

lemma enable_instruction_trace_frame:
  assumes "install_trace_if d P E dis st = (Ok x, st')" and "hook_keeps E f"
  shows "\<exists>u. f u = f (uc (em_vk st)) \<and> fst st' = (fst st)\<lparr>mc_vk := (em_vk st)\<lparr>uc := u\<rparr>\<rparr>"
proof (cases d)
  case False
  then show ?thesis using assms(1) by (intro exI [of _ "uc (em_vk st)"]) (auto simp: install_trace_if_def)
next
  case True
  obtain q s where q: "on_hooks (hook_code E (trace_callback P dis) NoData 1 0) st = (q, s)" by (rule prod.exhaust)
  have "s = st'"
    using assms(1) True q by (cases q) (auto simp: install_trace_if_def enable_instruction_trace_def)
  with on_hook_code_frame [OF q assms(2)] show ?thesis by simp
qed

lemma fresh_sel:
  "regions (fresh c vs u mem os creds table h) = m_regions mem" "cfg (fresh c vs u mem os creds table h) = c"
  "uc (fresh c vs u mem os creds table h) = u"
  by (simp_all add: fresh_def)

lemma after_load_frame:
  assumes run: "after_load P E dis udbserver a vk = (Ok x, st)"
    and keeps: "hook_keeps E f" "\<And>p b u. f (snd (udbserver p b u)) = f u"
  shows "\<exists>u. f u = f (uc vk) \<and> em_vk st = vk\<lparr>vos := vos_set_loader_info a (of_nat (length (c_baremetal_code (cfg vk))))
    (skip_exit_check vk) (vos vk), uc := u\<rparr>"
proof -
  obtain y s1 where t: "install_trace_if (c_disassemble (cfg vk)) P E dis
       (\<lparr>mc_vk = vk\<lparr>vos := vos_set_loader_info a
          (of_nat (length (c_baremetal_code (cfg vk)))) (skip_exit_check vk) (vos vk)\<rparr>,
         mc_unwound = Ok (), cov_map = [], cov_state = \<lparr>cv_len = 0, cv_prev_loc = 0\<rparr>\<rparr>, hooks_new) = (Ok y, s1)"
    and d: "(if c_debug (cfg (em_vk s1))
      then (case udbserver (c_debug_port (cfg (em_vk s1))) a (uc (em_vk s1)) of
              (ok, u) \<Rightarrow> (if ok then Ok () else Err (Io 0), set_vk ((em_vk s1)\<lparr>uc := u\<rparr>) s1))
      else (Ok (), s1)) = (Ok x, st)"
    using run unfolding after_load_def outcome_elim by blast
  obtain u where u: "f u = f (uc vk)" "em_vk s1 = vk\<lparr>vos := vos_set_loader_info a
      (of_nat (length (c_baremetal_code (cfg vk)))) (skip_exit_check vk) (vos vk), uc := u\<rparr>"
    using enable_instruction_trace_frame [OF t keeps(1)] by auto
  have "\<exists>u'. f u' = f u \<and> em_vk st = (em_vk s1)\<lparr>uc := u'\<rparr>"
    using d keeps(2) [of "c_debug_port (cfg (em_vk s1))" a "uc (em_vk s1)"] u(2)
    by (cases "udbserver (c_debug_port (cfg (em_vk s1))) a (uc (em_vk s1))")
      (auto split: if_splits intro: exI [of _ u])
  with u show ?thesis by auto
qed

lemma valkyrie_new_steps:
  assumes run: "valkyrie_new P E parse dis engine_new udbserver creds table h c = Ok st"
  obtains u mem os vs a vk where "engine_new (get_unicorn_mode (c_arch c)) = Inr u" "m_regions mem = []"
    "loader_run parse P (c_loader c) (fresh c vs u mem os creds table h) = (Ok a, vk)"
    "after_load P E dis udbserver a vk = (Ok (), st)"
proof -
  obtain vs where vs: "vcs_new (c_endianess c) (c_archsize c) = Ok vs"
    using run by (auto simp: valkyrie_new_def split: outcome.splits prod.splits sum.splits)
  obtain u where u: "engine_new (get_unicorn_mode (c_arch c)) = Inr u"
    using run vs by (auto simp: valkyrie_new_def split: outcome.splits prod.splits sum.splits)
  obtain mem where mem: "vmemory_new c = Ok mem"
    using run vs u by (auto simp: valkyrie_new_def split: outcome.splits prod.splits)
  obtain os where os: "select_os (c_os c) = Ok os"
    by (cases "c_os c") (simp_all add: select_os_def)
  obtain a vk where l: "loader_run parse P (c_loader c) (fresh c vs u mem os creds table h) = (Ok a, vk)"
    using run vs u mem os by (auto simp: valkyrie_new_def split: outcome.splits prod.splits)
  have "after_load P E dis udbserver a vk = (Ok (), st)"
    using run vs u mem os l by (auto simp: valkyrie_new_def split: outcome.splits prod.splits)
  moreover have "m_regions mem = []"
    using mem by (auto simp: vmemory_new_def split: if_splits)
  ultimately show ?thesis using that u l by blast
qed

lemma valkyrie_new_loaded:
  assumes laws: "engine_maps P view" and hooks: "hook_keeps E view"
    and outside: "\<forall>m u. engine_new m = Inr u \<longrightarrow> view u = (\<lambda>_. None)" "\<forall>p b u. view (snd (udbserver p b u)) = view u"
    and run: "valkyrie_new P E parse dis engine_new udbserver creds table h c = Ok st" and top: "below_end (em_vk st)"
  shows "in_sync view (em_vk st) \<and> laid_out (em_vk st)
    \<and> (\<forall>x. in_range (stack_addr_start (vmem (em_vk st))) (unat (c_stack_size (cfg (em_vk st)))) x \<longrightarrow> stack_at (em_vk st) x)
    \<and> (vos_skip_exit_trap (vos (em_vk st)) \<longleftrightarrow> c_os (cfg (em_vk st)) = Linux)"
proof -
  obtain u mem os vs a vk where e: "engine_new (get_unicorn_mode (c_arch c)) = Inr u" "m_regions mem = []"
    and l: "loader_run parse P (c_loader c) (fresh c vs u mem os creds table h) = (Ok a, vk)"
    and f: "after_load P E dis udbserver a vk = (Ok (), st)"
    using valkyrie_new_steps [OF run] .
  let ?f = "fresh c vs u mem os creds table h"
  have start: "in_sync view ?f"
    using outside(1) e by (simp add: in_sync_def fresh_sel paged_def region_at_def)
  obtain u' where u': "view u' = view (uc vk)"
    and st: "em_vk st = vk\<lparr>vos := vos_set_loader_info a (of_nat (length (c_baremetal_code (cfg vk))))
      (skip_exit_check vk) (vos vk), uc := u'\<rparr>"
    using after_load_frame [OF f hooks] outside(2) by auto
  have top1: "below_end vk" using top by (simp add: st below_end_def)
  have m: "laid_out vk \<and> in_sync view vk
      \<and> (\<forall>x. in_range (stack_addr_start (vmem vk)) (unat (c_stack_size (cfg vk))) x \<longrightarrow> stack_at vk x)"
    using l blob_loader.mapped [OF laws start _ top1] elf_loader.mapped [OF laws start _ top1]
      blob_loader.load_layout elf_loader.load_layout
    by (cases "c_loader c") (fastforce simp: loader_run_def)+
  have "in_sync view (em_vk st)"
    using m u' by (auto simp: st intro: in_sync_cong)
  moreover have "vos_skip_exit_trap (vos (em_vk st)) \<longleftrightarrow> c_os (cfg (em_vk st)) = Linux"
    by (simp add: st vos_skip_exit_trap_def vos_set_loader_info_def os_set_loader_info_def skip_exit_check_def
        split: VCoreOs.split OsType.split)
  ultimately show ?thesis using m by (auto simp: st laid_out_def stack_at_def)
qed

text \<open>
  C6: \<open>Valkyrie::new\<close>. On a fresh engine, when construction succeeds and nothing reaches the top of the
  address space, the region list agrees with the engine's map, the address space is laid out, the stack is
  mapped, the exit trap is needed exactly without Linux, and a raw program that \<open>feed_baremetal\<close> accepted is
  in memory at the code base.
\<close>

theorem valkyrie_new_ready:
  assumes laws: "engine_maps P view" "engine_bytes P content" "engine_map_bytes P content"
    and hooks: "hook_keeps E (\<lambda>u. (view u, content u))"
    and outside: "\<And>m u. engine_new m = Inr u \<Longrightarrow> view u = (\<lambda>_. None)"
      "\<And>p b u. (view (snd (udbserver p b u)), content (snd (udbserver p b u))) = (view u, content u)"
    and run: "valkyrie_new P E parse dis engine_new udbserver creds table h c = Ok st" and top: "below_end (em_vk st)"
  shows "in_sync view (em_vk st) \<and> laid_out (em_vk st)
    \<and> (\<forall>x. in_range (stack_addr_start (vmem (em_vk st))) (unat (c_stack_size (cfg (em_vk st)))) x \<longrightarrow> stack_at (em_vk st) x)
    \<and> (vos_skip_exit_trap (vos (em_vk st)) \<longleftrightarrow> c_os (cfg (em_vk st)) = Linux)
    \<and> (\<forall>code c0. feed_baremetal code c0 = Ok c \<longrightarrow>
         guest_bytes content (c_code_base_address c) (length code) (em_vk st) = code)"
proof -
  obtain u mem os vs a vk where e: "engine_new (get_unicorn_mode (c_arch c)) = Inr u" "m_regions mem = []"
    and l: "loader_run parse P (c_loader c) (fresh c vs u mem os creds table h) = (Ok a, vk)"
    and f: "after_load P E dis udbserver a vk = (Ok (), st)"
    using valkyrie_new_steps [OF run] .
  let ?f = "fresh c vs u mem os creds table h"
  have start: "in_sync view ?f"
    using outside(1) [OF e(1)] e(2) by (simp add: in_sync_def fresh_sel paged_def region_at_def)
  obtain u' where u': "content u' = content (uc vk)"
    and st: "em_vk st = vk\<lparr>vos := vos_set_loader_info a (of_nat (length (c_baremetal_code (cfg vk))))
      (skip_exit_check vk) (vos vk), uc := u'\<rparr>"
    using after_load_frame [OF f hooks outside(2)] by auto
  have top1: "below_end vk" using top by (simp add: st below_end_def)
  have code: "guest_bytes content (c_code_base_address c) (length code) (em_vk st) = code"
    if fed: "feed_baremetal code c0 = Ok c" for code c0
  proof -
    note fd = feed_baremetal_Ok [OF fed]
    have b: "loader_blob_run P ?f = (Ok a, vk)" using l fd(4) by (simp add: loader_run_def)
    from blob_code_kept [OF laws start b top1] fd show ?thesis
      by (auto simp: fresh_sel st guest_bytes_def u')
  qed
  have "hook_keeps E view" "\<forall>p b u. view (snd (udbserver p b u)) = view u"
    using hooks outside(2) by (simp_all add: hook_keeps_def)
  from valkyrie_new_loaded [OF laws(1) this(1) _ this(2) run top] outside(1) code show ?thesis by blast
qed

section \<open>On the reference engine\<close>

definition ref_hooks :: "ref_state hook_engine" where
  "ref_hooks = \<lparr>uc_add_hook = (\<lambda>t a b u. (Inr 7, u)), uc_remove_hook = (\<lambda>i u. (Inr (), u))\<rparr>"

lemma ref_hook_keeps: "hook_keeps ref_hooks f"
  by (simp add: hook_keeps_def ref_hooks_def)

definition ref_machine :: "(ref_state, unit) Valkyrie \<Rightarrow> (ref_state, unit) emulator" where
  "ref_machine vk = (\<lparr>mc_vk = vk, mc_unwound = Ok (), cov_map = [], cov_state = \<lparr>cv_len = 0, cv_prev_loc = 0\<rparr>\<rparr>, hooks_new)"

lemma ref_machine_sel [simp]: "em_vk (ref_machine vk) = vk" "hooks_of (snd (ref_machine vk)) t = []"
  by (simp_all add: ref_machine_def hooks_new_def)

lemma ref_install:
  assumes "c_os (cfg vk) = Linux"
  shows "\<exists>st. install_syscall_hook ref_engine ref_hooks io (ref_machine vk) = (Ok (), st) \<and> mc_vk (fst st) = vk"
proof -
  obtain handler where "syscall_handler_for ref_engine io (c_arch (cfg vk)) = Ok handler"
    by (cases "c_arch (cfg vk)") (simp_all add: syscall_handler_for_def)
  then show ?thesis
    using assms by (simp add: install_syscall_hook_def on_hooks_def hook_code_def ensure_code_dispatcher_def
        ensure_dispatcher_def ref_machine_def hooks_new_def ref_hooks_def alloc_id_def Let_def)
qed

theorem syscall_hook_serves_witness:
  "\<exists>st hk' m'. install_syscall_hook ref_engine ref_hooks (\<lambda>_ _ vk. (Ok 0, vk)) (ref_machine (ref_vk X86)) = (Ok (), st)
    \<and> dispatch_common (snd st) (fst (ref_machine (ref_vk X86))) HT_CODE (Trace 0x400000 2) = (Ok (), m', hk')
    \<and> mc_vk m' = snd (handle_x86_syscall ref_engine (\<lambda>_ _ vk. (Ok 0, vk)) 0x400000 2 (ref_vk X86))"
proof -
  let ?io = "\<lambda>_ _ vk. (Ok 0, vk)" and ?st = "ref_machine (ref_vk X86)"
  have os: "c_os (cfg (em_vk ?st)) = Linux" by (simp add: ref_cfg_def)
  obtain st where i: "install_syscall_hook ref_engine ref_hooks ?io ?st = (Ok (), st)"
    using ref_install [of "ref_vk X86" ?io] os by auto
  have idle: "mc_unwound (fst ?st) = Ok ()" by (simp add: ref_machine_def)
  have h: "syscall_handler_for ref_engine ?io (c_arch (cfg (em_vk ?st))) = Ok (handle_x86_syscall ref_engine ?io)"
    by (simp add: syscall_handler_for_def)
  from syscall_hook_serves [OF i os _ idle, of "0x400000" 2] i h show ?thesis
    by fastforce
qed

text \<open>The reference emulator without Linux: the trap goes to 0x603000, its address to the stack pointer.\<close>

definition ref_bare :: "(ref_state, unit) Valkyrie" where
  "ref_bare = (ref_vk X86)\<lparr>vos := Blob os_new, cfg := (ref_cfg X86)\<lparr>c_os := BareMetal\<rparr>\<rparr>"

lemma ref_bare_trap:
  "\<exists>st. prepare_initial_run ref_engine ref_hooks (\<lambda>_ _ vk. (Ok 0, vk)) (ref_machine ref_bare) = (Ok (), st)
    \<and> exit_trap_addr (em_vk st) = Some 0x603000 \<and> initial_sp (em_vk st) = 0"
proof -
  have t: "trap_page ref_regions = 0x603000"
    by (simp add: trap_page_def ref_regions_def sat_add_def max_def align_up_def PAGE_SIZE_def)
  have rd: "uc_reg_read ref_engine r u = Inr (ref_regs u r)" for r u
    by (simp add: ref_engine_def)
  have len: "to_le_bytes w \<noteq> []" for w :: u64
    by (simp flip: length_greater_0_conv)
  have free: "\<forall>x. in_range 0x603000 4096 x \<longrightarrow> region_at ref_regions x = None"
    by (simp add: ref_regions_def region_at_def in_region_def)
  show ?thesis
    by (simp add: prepare_initial_run_def install_syscall_hook_def ref_bare_def ref_machine_def on_vk_def setup_trap_def
        reset_execution_state_def vos_skip_exit_trap_def os_new_def t ref_map_step pages_def unat_PAGE_SIZE free uc_do_def
        ref_hooks_def write_exit_trap_def sp_register_def get_reg_def get_reg_x86_def Let_def mem_write_def ref_vk_def
        ref_cfg_def varch_new_def vregs_new_def defaults_for_arch_def ref_writes rd len ref_fill_def del: ref_vk_sel)
qed

theorem exit_trap_armed_witness:
  "\<exists>st. prepare_initial_run ref_engine ref_hooks (\<lambda>_ _ vk. (Ok 0, vk)) (ref_machine ref_bare) = (Ok (), st)
    \<and> guest_bytes ref_content 0 4 (em_vk st) = [0x00, 0x30, 0x60, 0x00]
    \<and> region_at (regions (em_vk st)) 0x603fff = Some (Prot_ALL, ''[Stop guard page]'')
    \<and> fst (get_reg ref_engine (sp_register ref_bare) ref_bare) = Ok (initial_sp (em_vk st))"
proof -
  obtain st where r: "prepare_initial_run ref_engine ref_hooks (\<lambda>_ _ vk. (Ok 0, vk)) (ref_machine ref_bare) = (Ok (), st)"
    and t: "exit_trap_addr (em_vk st) = Some 0x603000" "initial_sp (em_vk st) = 0"
    using ref_bare_trap by blast
  have sy: "in_sync ref_view (em_vk (ref_machine ref_bare))"
    using ref_in_sync [of X86] by (simp add: ref_bare_def in_sync_def)
  have room: "\<forall>r \<in> set (regions (em_vk (ref_machine ref_bare))). unat (region_end r) + 8192 < 2 ^ 64"
    by (simp add: ref_bare_def ref_regions_def sat_add_def)
  have need: "exit_trap_addr (em_vk (ref_machine ref_bare)) = None" "\<not> vos_skip_exit_trap (vos (em_vk (ref_machine ref_bare)))"
    by (simp_all add: ref_bare_def ref_vk_def vos_skip_exit_trap_def os_new_def)
  have n: "unat (c_archsize (cfg (em_vk (ref_machine ref_bare))) div 8) = 4"
    by (simp add: ref_bare_def ref_cfg_def defaults_for_arch_def)
  have le: "take 4 (to_le_bytes (0x603000 :: u64)) = [0x00, 0x30, 0x60, 0x00]"
    by (simp add: to_le_bytes_def le_bytes_def upt_rec)
  have regs: "registers_stay ref_engine ref_hooks"
    by (simp add: registers_stay_def hook_keeps_def ref_hooks_def ref_engine_def ref_fill_def)
  from exit_trap_armed [OF ref_engine_maps ref_engine_bytes ref_hook_keeps sy room need r] t n le r regs show ?thesis
    by (intro exI [of _ st]) simp
qed

text \<open>Construction on an empty reference engine, of a bare-metal program of two bytes.\<close>

definition ref_open :: "UcMode \<Rightarrow> uc_error + ref_state" where
  "ref_open mode = Inr \<lparr>ref_view = (\<lambda>_. None), ref_content = (\<lambda>_. 0), ref_regs = (\<lambda>_. 0)\<rparr>"

definition ref_program :: ValkyrieConfig where
  "ref_program = (ref_cfg X86_64)\<lparr>c_os := BareMetal, c_loader := Raw, c_code_base_address := 0x700000,
     c_baremetal_code := [0x90, 0xf4]\<rparr>"

abbreviation ref_construct :: "(ref_state, unit) emulator vk_outcome" where
  "ref_construct \<equiv> valkyrie_new ref_engine ref_hooks (\<lambda>_ _. None) (\<lambda>_ _. None) ref_open (\<lambda>_ _ u. (True, u))
     \<lparr>cr_uid = 0, cr_euid = 0, cr_gid = 0, cr_egid = 0\<rparr> fd_table_default () ref_program"

lemma ref_construct_Ok: "\<exists>st. ref_construct = Ok st \<and> below_end (em_vk st) \<and> c_os (cfg (em_vk st)) = BareMetal"
  by (simp add: valkyrie_new_def vcs_new_def ref_program_def ref_cfg_def defaults_for_arch_def ref_open_def vmemory_new_def
        select_os_def loader_run_def loader_blob_run_def fresh_def Let_def align_up_def PAGE_SIZE_def ref_map_step pages_def
        ref_fill_def mem_write_def uc_do_def ref_writes sp_register_def set_reg_def set_reg_x86_64_def varch_new_def
        vregs_new_def note_reg_update_def push_region_def after_load_def install_trace_if_def below_end_def)

theorem valkyrie_new_ready_witness:
  "\<exists>st. ref_construct = Ok st \<and> in_sync ref_view (em_vk st)
    \<and> guest_bytes ref_content 0x700000 2 (em_vk st) = [0x90, 0xf4] \<and> \<not> vos_skip_exit_trap (vos (em_vk st))"
proof -
  obtain st where run: "ref_construct = Ok st" and top: "below_end (em_vk st)"
    and os: "c_os (cfg (em_vk st)) = BareMetal"
    using ref_construct_Ok by blast
  have fed: "feed_baremetal [0x90, 0xf4] (ref_cfg X86_64\<lparr>c_os := BareMetal, c_code_base_address := 0x700000\<rparr>) = Ok ref_program"
    by (simp add: feed_baremetal_def ref_program_def ref_cfg_def)
  have r: "in_sync ref_view (em_vk st) \<and> laid_out (em_vk st)
    \<and> (\<forall>x. in_range (stack_addr_start (vmem (em_vk st))) (unat (c_stack_size (cfg (em_vk st)))) x \<longrightarrow> stack_at (em_vk st) x)
    \<and> (vos_skip_exit_trap (vos (em_vk st)) \<longleftrightarrow> c_os (cfg (em_vk st)) = Linux)
    \<and> (\<forall>code c0. feed_baremetal code c0 = Ok ref_program \<longrightarrow>
         guest_bytes ref_content (c_code_base_address ref_program) (length code) (em_vk st) = code)"
    by (rule valkyrie_new_ready [OF ref_engine_maps ref_engine_bytes ref_engine_map_bytes ref_hook_keeps _ _ run top])
      (auto simp: ref_open_def)
  show ?thesis
    using r run fed os by (fastforce simp: ref_program_def numeral_2_eq_2)
qed

end
