(* ===== verification/Vk_Fuzz.thy ===== *)
theory Vk_Fuzz
  imports Vk_Core
begin

text \<open>
  \<open>src/src/fuzzing.rs\<close>: block coverage, the snapshot of a prepared emulator, and running inputs from it.
  An input is its target bytes. The engine's saved context is opaque, of type \<open>'c\<close>.
\<close>

section \<open>Outside the repository\<close>

record ('u, 'c) context_engine =
  uc_context_alloc :: "'u \<Rightarrow> (uc_error + 'c) \<times> 'u"
  uc_context_save :: "'c \<Rightarrow> 'u \<Rightarrow> (uc_error + 'c) \<times> 'u"
  uc_context_restore :: "'c \<Rightarrow> 'u \<Rightarrow> 'u engine_unit"

text \<open>\<open>libafl\<close>'s \<open>ExitKind\<close>: the two values the code makes.\<close>

datatype ExitKind = ExitOk | ExitCrash

section \<open>Coverage\<close>

text \<open>
  One execution of a block: the slot is chosen from this block and the one before, its counter saturates.
  \<open>% state.len\<close> panics when the length is 0, the write is through a raw pointer.
\<close>

definition coverage_index :: "u64 \<Rightarrow> CoverageMapRef \<Rightarrow> u64" where
  "coverage_index addr s = ((drop_bit 4 addr mod cv_len s) XOR cv_prev_loc s) mod cv_len s"

definition coverage_hit :: "u64 \<Rightarrow> bytes \<times> CoverageMapRef \<Rightarrow> bytes \<times> CoverageMapRef" where
  "coverage_hit addr ms =
     (let (cov, s) = ms; cur_loc = drop_bit 4 addr mod cv_len s; idx = unat (coverage_index addr s)
      in (cov[idx := sat_add (cov ! idx) 1], s\<lparr>cv_prev_loc := drop_bit 1 cur_loc\<rparr>))"

definition block_callback ::
  "('u, 'h) Machine \<Rightarrow> u64 \<Rightarrow> u32 \<Rightarrow> HookData \<Rightarrow> u32 option \<times> ('u, 'h) Machine \<times> HookData" where
  "block_callback m addr sz ud =
     (if mc_unwound m \<noteq> Ok () then (None, m, ud)
      else case ud of
        OwnCoverage s \<Rightarrow>
          if cv_len s = 0 then (None, m\<lparr>mc_unwound := Panic\<rparr>, ud)
          else (case coverage_hit addr (cov_map m, s) of
                  (cov, s) \<Rightarrow> (None, m\<lparr>cov_map := cov\<rparr>, OwnCoverage s))
      | _ \<Rightarrow> (None, m, ud))"

definition shared_block_callback ::
  "('u, 'h) Machine \<Rightarrow> u64 \<Rightarrow> u32 \<Rightarrow> HookData \<Rightarrow> u32 option \<times> ('u, 'h) Machine \<times> HookData" where
  "shared_block_callback m addr sz ud =
     (if mc_unwound m \<noteq> Ok () then (None, m, ud)
      else case ud of
        SharedCoverage \<Rightarrow>
          if cv_len (cov_state m) = 0 then (None, m\<lparr>mc_unwound := Panic\<rparr>, ud)
          else (case coverage_hit addr (cov_map m, cov_state m) of
                  (cov, s) \<Rightarrow> (None, m\<lparr>cov_map := cov, cov_state := s\<rparr>, ud))
      | _ \<Rightarrow> (None, m, ud))"

definition clear_coverage :: "bytes \<Rightarrow> bytes" where
  "clear_coverage coverage = replicate (length coverage) 0"

definition clear_coverage_map :: "('u, 'h) Machine \<Rightarrow> ('u, 'h) Machine" where
  "clear_coverage_map m =
     (if cv_len (cov_state m) = 0 then m
      else m\<lparr>cov_map := replicate (unat (cv_len (cov_state m))) 0 @ drop (unat (cv_len (cov_state m))) (cov_map m),
             cov_state := (cov_state m)\<lparr>cv_prev_loc := 0\<rparr>\<rparr>)"

definition install_block_coverage :: "'u hook_engine \<Rightarrow> bytes \<Rightarrow> ('u, 'h, unit) em_call" where
  "install_block_coverage E coverage st =
     (if coverage = [] then (Err (BadConfig ''coverage map must be non-empty''), st)
      else and_then
        (on_hooks (hook_block E block_callback (OwnCoverage \<lparr>cv_len = of_nat (length coverage), cv_prev_loc = 0\<rparr>) 1 0)
          ((fst st)\<lparr>cov_map := clear_coverage coverage\<rparr>, snd st))
        (\<lambda>_ st. (Ok (), st)))"

definition install_shared_block_coverage :: "'u hook_engine \<Rightarrow> ('u, 'h, unit) em_call" where
  "install_shared_block_coverage E st =
     (if cv_len (cov_state (fst st)) = 0 then (Err (BadConfig ''coverage map must be non-empty''), st)
      else and_then
        (on_hooks (hook_block E shared_block_callback SharedCoverage 1 0) (clear_coverage_map (fst st), snd st))
        (\<lambda>_ st. (Ok (), st)))"

section \<open>Snapshots\<close>

record WritableRegionSnapshot =
  ws_start :: u64
  ws_data :: bytes

record 'c EmulatorSnapshot =
  sn_context :: 'c
  sn_regions :: "VMemRegion list"
  sn_writable_regions :: "WritableRegionSnapshot list"
  sn_linux_creds :: LinuxCreds
  sn_guest_rt_sigactions :: "i32 \<rightharpoonup> bytes"
  sn_guest_rt_sigmask :: bytes
  sn_guest_prctl_name :: bytes
  sn_guest_pdeathsig :: i32
  sn_guest_dumpable :: i32

text \<open>A region that cannot be read is made readable for the copy; a failed read still restores it.\<close>

definition read_region_snapshot :: "('u, 'h) platform \<Rightarrow> u64 \<Rightarrow> u64 \<Rightarrow> Prot \<Rightarrow> ('u, 'h, bytes) vk_call" where
  "read_region_snapshot P start sz prot vk =
     (if p_read prot then mem_read P start (unat sz) vk
      else and_then (uc_do (\<lambda>_. UnicornGeneralError ''mem_protect failed'')
             (uc_mem_protect P start sz (prot_or prot Prot_READ)) vk) (\<lambda>_ vk.
           case mem_read P start (unat sz) vk of
             (Panic, vk) \<Rightarrow> (Panic, vk)
           | (r, vk) \<Rightarrow>
               and_then (uc_do (\<lambda>_. UnicornGeneralError ''mem_protect failed'') (uc_mem_protect P start sz prot) vk)
                 (\<lambda>_ vk. (r, vk))))"

fun snapshot_writable ::
  "('u, 'h) platform \<Rightarrow> VMemRegion list \<Rightarrow> ('u, 'h, WritableRegionSnapshot list) vk_call" where
  "snapshot_writable P [] vk = (Ok [], vk)"
| "snapshot_writable P (r # rs) vk =
     and_then (read_region_snapshot P (r_start r) (r_size r) (r_prot r) vk) (\<lambda>bs vk.
     and_then (snapshot_writable P rs vk) (\<lambda>ws vk.
     (Ok (\<lparr>ws_start = r_start r, ws_data = bs\<rparr> # ws), vk)))"

definition capture_snapshot ::
  "('u, 'h) platform \<Rightarrow> ('u, 'c) context_engine \<Rightarrow> ('u, 'h, 'c EmulatorSnapshot) vk_call" where
  "capture_snapshot P X vk =
     and_then (uc_do (\<lambda>_. UnicornGeneralError ''context_alloc failed'') (uc_context_alloc X) vk) (\<lambda>context vk.
     and_then (uc_do (\<lambda>_. UnicornGeneralError ''context_save failed'') (uc_context_save X context) vk) (\<lambda>context vk.
     and_then (snapshot_writable P (filter (\<lambda>r. p_write (r_prot r)) (regions vk)) vk) (\<lambda>writable vk.
     (Ok \<lparr>sn_context = context, sn_regions = regions vk, sn_writable_regions = writable,
        sn_linux_creds = linux_creds vk, sn_guest_rt_sigactions = guest_rt_sigactions vk,
        sn_guest_rt_sigmask = guest_rt_sigmask vk, sn_guest_prctl_name = guest_prctl_name vk,
        sn_guest_pdeathsig = guest_pdeathsig vk, sn_guest_dumpable = guest_dumpable vk\<rparr>, vk))))"

text \<open>The three loops of \<open>restore_memory_layout\<close>.\<close>

fun unmap_pieces :: "('u, 'h) platform \<Rightarrow> (u64 \<times> u64) list \<Rightarrow> ('u, 'h, unit) vk_call" where
  "unmap_pieces P [] vk = (Ok (), vk)"
| "unmap_pieces P ((start, sz) # ps) vk =
     and_then (uc_do (\<lambda>_. UnicornGeneralError ''mem_unmap failed'') (uc_mem_unmap P start sz) vk) (\<lambda>_ vk.
     unmap_pieces P ps (set_regions (remove_range (regions vk) start sz) vk))"

fun unmap_uncovered ::
  "('u, 'h) platform \<Rightarrow> VMemRegion list \<Rightarrow> VMemRegion list \<Rightarrow> ('u, 'h, unit) vk_call" where
  "unmap_uncovered P snap [] vk = (Ok (), vk)"
| "unmap_uncovered P snap (r # rs) vk =
     and_then (unmap_pieces P (subtract_snapshot_coverage (r_start r) (r_size r) snap) vk)
       (\<lambda>_ vk. unmap_uncovered P snap rs vk)"

fun remap_regions :: "('u, 'h) platform \<Rightarrow> VMemRegion list \<Rightarrow> ('u, 'h, unit) vk_call" where
  "remap_regions P [] vk = (Ok (), vk)"
| "remap_regions P (r # rs) vk =
     and_then
       (if \<not> is_range_mapped (regions vk) (r_start r) (r_size r)
        then uc_do (\<lambda>_. UnicornGeneralError ''mem_map failed'') (uc_mem_map P (r_start r) (r_size r) (r_prot r)) vk
        else uc_do (\<lambda>_. UnicornGeneralError ''mem_protect failed'') (uc_mem_protect P (r_start r) (r_size r) (r_prot r)) vk)
       (\<lambda>_ vk. remap_regions P rs vk)"

definition restore_memory_layout :: "('u, 'h) platform \<Rightarrow> VMemRegion list \<Rightarrow> ('u, 'h, unit) vk_call" where
  "restore_memory_layout P snap vk =
     and_then (unmap_uncovered P snap (regions vk) vk) (\<lambda>_ vk.
     and_then (remap_regions P snap vk) (\<lambda>_ vk.
     (Ok (), set_regions snap vk)))"

fun write_regions :: "('u, 'h) platform \<Rightarrow> WritableRegionSnapshot list \<Rightarrow> ('u, 'h, unit) vk_call" where
  "write_regions P [] vk = (Ok (), vk)"
| "write_regions P (w # ws) vk =
     and_then (mem_write P (ws_start w) (ws_data w) vk) (\<lambda>_ vk. write_regions P ws vk)"

definition restore_snapshot ::
  "('u, 'h) platform \<Rightarrow> ('u, 'c) context_engine \<Rightarrow> 'c EmulatorSnapshot \<Rightarrow> ('u, 'h, unit) vk_call" where
  "restore_snapshot P X snap vk =
     and_then (restore_memory_layout P (sn_regions snap) vk) (\<lambda>_ vk.
     and_then (write_regions P (sn_writable_regions snap) vk) (\<lambda>_ vk.
     and_then (uc_do (\<lambda>_. UnicornGeneralError ''context_restore failed'')
         (uc_context_restore X (sn_context snap)) vk) (\<lambda>_ vk.
     (Ok (), vk\<lparr>linux_creds := sn_linux_creds snap, guest_rt_sigactions := sn_guest_rt_sigactions snap,
        guest_rt_sigmask := sn_guest_rt_sigmask snap, guest_prctl_name := sn_guest_prctl_name snap,
        guest_pdeathsig := sn_guest_pdeathsig snap, guest_dumpable := sn_guest_dumpable snap\<rparr>))))"

section \<open>Running inputs\<close>

text \<open>The \<open>match\<close> on \<open>catch_unwind\<close>: a panic of the emulator is a crash of the guest.\<close>

definition exit_kind :: "('u, 'h) emulator \<Rightarrow> ExitKind" where
  "exit_kind st = (if crashed (em_vk st) then ExitCrash else ExitOk)"

definition verdict :: "unit vk_outcome \<times> ('u, 'h) emulator \<Rightarrow> ExitKind vk_outcome \<times> ('u, 'h) emulator" where
  "verdict r =
     (case r of
        (Ok _, st) \<Rightarrow> (Ok (exit_kind st), st)
      | (Err e, st) \<Rightarrow> (Err e, st)
      | (Panic, st) \<Rightarrow> (Ok ExitCrash, st)
      | (Diverges, st) \<Rightarrow> (Diverges, st))"

definition run_valkyrie ::
  "('u, 'h) platform \<Rightarrow> 'u hook_engine \<Rightarrow> (string \<Rightarrow> ('u, 'h) sys_fn) \<Rightarrow> ('u, 'h) engine_run
     \<Rightarrow> ('u, 'h, ExitKind) em_call" where
  "run_valkyrie P E io emu st = verdict (run P E io emu st)"

definition run_valkyrie_prepared ::
  "('u, 'h) platform \<Rightarrow> ('u, 'h) engine_run \<Rightarrow> ('u, 'h, ExitKind) em_call" where
  "run_valkyrie_prepared P emu st = verdict (run_prepared P emu st)"

text \<open>\<open>ReusableEmulator\<close>: the emulator, the snapshot, and the coverage state in \<open>Machine\<close>.\<close>

definition reusable_new ::
  "('u, 'h) platform \<Rightarrow> 'u hook_engine \<Rightarrow> ('u, 'c) context_engine \<Rightarrow> (string \<Rightarrow> ('u, 'h) sys_fn) \<Rightarrow> bytes
     \<Rightarrow> ('u, 'h, 'c EmulatorSnapshot) em_call" where
  "reusable_new P E X io coverage st =
     and_then (prepare_initial_run P E io (set_vk (set_soft_unicorn_errors True (em_vk st)) st)) (\<lambda>_ st.
     and_then (on_vk (vos_prepare_execution P (vos (em_vk st))) st) (\<lambda>(start, stop) st.
     and_then (on_vk (capture_snapshot P X) (set_vk (set_prepared_execution_range start stop (em_vk st)) st)) (\<lambda>snap st.
     and_then (install_shared_block_coverage E
         ((fst st)\<lparr>cov_map := coverage, cov_state := \<lparr>cv_len = of_nat (length coverage), cv_prev_loc = 0\<rparr>\<rparr>, snd st)) (\<lambda>_ st.
     (Ok snap, st)))))"

definition run_input ::
  "('u, 'h) platform \<Rightarrow> ('u, 'c) context_engine \<Rightarrow> ('u, 'h) engine_run \<Rightarrow> 'c EmulatorSnapshot \<Rightarrow> bytes
     \<Rightarrow> ('u, 'h, ExitKind) em_call" where
  "run_input P X emu snap input st =
     and_then (on_vk (restore_snapshot P X snap) st) (\<lambda>_ st.
     run_valkyrie_prepared P emu
       (clear_coverage_map (fst (set_vk (reset_execution_state (set_stdin_bytes input (em_vk st))) st)), snd st))"

definition emulate_input_with_coverage ::
  "('u, 'h) platform \<Rightarrow> 'u hook_engine \<Rightarrow> (string \<Rightarrow> ('u, 'h) sys_fn) \<Rightarrow> ('u, 'h) engine_run
     \<Rightarrow> (bytes \<Rightarrow> ('u, 'h) emulator vk_outcome) \<Rightarrow> bytes \<Rightarrow> bytes \<Rightarrow> ('u, 'h) emulator
     \<Rightarrow> ExitKind vk_outcome \<times> ('u, 'h) emulator" where
  "emulate_input_with_coverage P E io emu build input coverage st =
     and_then (build input, st) (\<lambda>vk st.
     and_then (install_block_coverage E coverage vk) (\<lambda>_ st. run_valkyrie P E io emu st))"

end
