(* ===== verification/Vk_FuzzRun.thy ===== *)
theory Vk_FuzzRun
  imports Vk_Fuzz Vk_CoreRun
begin

text \<open>
  What the fuzzing front end guarantees: the coverage map counts block transitions and is never written
  out of bounds; a restored snapshot gives back the memory layout, the contents of writable regions and
  the process attributes, and what it does not give back.
\<close>

section \<open>Coverage\<close>

text \<open>The slot of each block of a trace, from the previous location: the reference for the callback.\<close>

fun block_slots :: "u64 \<Rightarrow> u64 \<Rightarrow> u64 list \<Rightarrow> nat list" where
  "block_slots len prev [] = []"
| "block_slots len prev (a # as) =
     (let cur = drop_bit 4 a mod len in unat ((cur XOR prev) mod len) # block_slots len (drop_bit 1 cur) as)"

definition coverage_fits :: "bytes \<Rightarrow> CoverageMapRef \<Rightarrow> bool" where
  "coverage_fits cov s \<longleftrightarrow> cov \<noteq> [] \<and> length cov < 2 ^ 64 \<and> cv_len s = of_nat (length cov)"

lemma coverage_fits_len:
  assumes "coverage_fits cov s"
  shows "unat (cv_len s) = length cov" "cv_len s \<noteq> 0"
proof -
  show len: "unat (cv_len s) = length cov"
    using assms by (simp add: coverage_fits_def unat_of_nat_u64)
  then show "cv_len s \<noteq> 0" using assms by (auto simp: coverage_fits_def)
qed

lemma coverage_index_bound:
  assumes "coverage_fits cov s"
  shows "unat (coverage_index addr s) < length cov"
proof -
  have "unat (coverage_index addr s) < unat (cv_len s)"
    using coverage_fits_len [OF assms] assms unfolding coverage_index_def unat_mod_distrib
    by (intro mod_less_divisor) (simp add: coverage_fits_def)
  then show ?thesis using coverage_fits_len(1) [OF assms] by simp
qed

lemma coverage_hit_fits: "coverage_fits cov s \<Longrightarrow> coverage_hit addr (cov, s) = (cov', s') \<Longrightarrow>
    coverage_fits cov' s' \<and> length cov' = length cov"
  by (auto simp: coverage_hit_def coverage_fits_def Let_def)

text \<open>The registry has exactly the shared coverage hook for blocks.\<close>

definition covers :: "('u, 'h) registry \<Rightarrow> bool" where
  "covers hk \<longleftrightarrow> (\<exists>h. hooks_of hk HT_BLOCK = [h] \<and> hc_begin h = 1 \<and> hc_end h = 0 \<and> hc_user_data h = SharedCoverage
     \<and> hc_cb h = (\<lambda>ctx args d. case args of Trace addr sz \<Rightarrow> shared_block_callback ctx addr sz d | _ \<Rightarrow> (None, ctx, d)))"

lemma covers_dispatch:
  assumes c: "covers hk" and idle: "mc_unwound m = Ok ()" and fits: "coverage_fits (cov_map m) (cov_state m)"
    and hit: "coverage_hit addr (cov_map m, cov_state m) = (cov, s)"
  shows "\<exists>hk'. dispatch_common hk m HT_BLOCK (Trace addr sz) = (Ok (), m\<lparr>cov_map := cov, cov_state := s\<rparr>, hk') \<and> covers hk'"
proof -
  obtain h where h: "hooks_of hk HT_BLOCK = [h]" and f: "hc_begin h = 1" "hc_end h = 0" "hc_user_data h = SharedCoverage"
    and cb: "hc_cb h = (\<lambda>ctx args d. case args of Trace addr sz \<Rightarrow> shared_block_callback ctx addr sz d | _ \<Rightarrow> (None, ctx, d))"
    using c by (auto simp: covers_def)
  then have m: "map_of (hooks hk) HT_BLOCK = Some [h]" by (simp split: option.splits)
  have "shared_block_callback m addr sz SharedCoverage = (None, m\<lparr>cov_map := cov, cov_state := s\<rparr>, SharedCoverage)"
    using idle hit coverage_fits_len(2) [OF fits] by (simp add: shared_block_callback_def)
  then have "run_common (Trace addr sz) m [h] = (True, m\<lparr>cov_map := cov, cov_state := s\<rparr>, [h])"
    using f by (simp add: in_scope_def bound_check_def cb blocks_def)
  then have "dispatch_common hk m HT_BLOCK (Trace addr sz) = (Ok (), m\<lparr>cov_map := cov, cov_state := s\<rparr>,
      hk\<lparr>hooks := AList.update HT_BLOCK [h] (hooks hk)\<rparr>)"
    using m by (simp add: dispatch_common_def needs_handled_def hook_type_defs del: run_common.simps)
  then show ?thesis
    using f cb by (auto simp: covers_def maps.look_put)
qed

fun block_events :: "('u, 'h) emulator \<Rightarrow> u64 list \<Rightarrow> ('u, 'h) emulator" where
  "block_events st [] = st"
| "block_events (m, hk) (a # as) =
     (case dispatch_common hk m HT_BLOCK (Trace a 0) of (_, m, hk) \<Rightarrow> block_events (m, hk) as)"

lemma sat_count: "unat (sat_add c 1) = min 255 (Suc (unat (c :: u8)))"
  by (simp add: unat_sat_add)

lemma block_events_count:
  assumes "covers hk" "mc_unwound m = Ok ()" "coverage_fits (cov_map m) (cov_state m)"
    and "block_events (m, hk) as = (m', hk')"
  shows "mc_unwound m' = Ok () \<and> mc_vk m' = mc_vk m \<and> length (cov_map m') = length (cov_map m)
    \<and> (\<forall>j < length (cov_map m). unat (cov_map m' ! j) = min 255 (unat (cov_map m ! j)
         + count_list (block_slots (cv_len (cov_state m)) (cv_prev_loc (cov_state m)) as) j))"
  using assms
proof (induction as arbitrary: m hk)
  case Nil
  have "unat (b :: u8) \<le> 255" for b using unsigned_less [of b, where 'a = nat] by simp
  with Nil show ?case by (auto simp: min_def not_le intro: order_antisym)
next
  case (Cons a as)
  let ?i = "unat (coverage_index a (cov_state m))"
  obtain cov s where hit: "coverage_hit a (cov_map m, cov_state m) = (cov, s)" by (rule prod.exhaust)
  obtain hk1 where d: "dispatch_common hk m HT_BLOCK (Trace a 0) = (Ok (), m\<lparr>cov_map := cov, cov_state := s\<rparr>, hk1)"
    and c1: "covers hk1"
    using covers_dispatch [OF Cons.prems(1-3) hit] by blast
  note f1 = coverage_hit_fits [OF Cons.prems(3) hit]
  have run: "block_events (m\<lparr>cov_map := cov, cov_state := s\<rparr>, hk1) as = (m', hk')"
    using Cons.prems(4) d by simp
  have eq: "cov = (cov_map m)[?i := sat_add (cov_map m ! ?i) 1]" "cv_len s = cv_len (cov_state m)"
    "cv_prev_loc s = drop_bit 1 (drop_bit 4 a mod cv_len (cov_state m))"
    using hit by (auto simp: coverage_hit_def Let_def)
  have i: "?i < length (cov_map m)" by (rule coverage_index_bound [OF Cons.prems(3)])
  have slots: "block_slots (cv_len (cov_state m)) (cv_prev_loc (cov_state m)) (a # as)
      = ?i # block_slots (cv_len s) (cv_prev_loc s) as"
    by (simp add: Let_def coverage_index_def eq)
  note IH = Cons.IH [OF c1 _ _ run]
  show ?case
    using IH f1 Cons.prems(2) i unfolding slots
    by (auto simp: eq(1) nth_list_update sat_count)
qed

lemma covers_installed:
  assumes run: "install_shared_block_coverage E st = (Ok (), st')" and none: "hooks_of (snd st) HT_BLOCK = []"
  shows "covers (snd st') \<and> cov_map (fst st') = cov_map (clear_coverage_map (fst st))
    \<and> cov_state (fst st') = cov_state (clear_coverage_map (fst st)) \<and> mc_unwound (fst st') = mc_unwound (fst st)"
proof -
  let ?m = "clear_coverage_map (fst st)"
  obtain ret where c: "on_hooks (hook_block E shared_block_callback SharedCoverage 1 0) (?m, snd st) = (Ok ret, st')"
    using run by (auto simp: install_shared_block_coverage_def outcome_elim split: if_splits)
  then obtain hk u where e: "ensure_block_dispatcher E (snd st, uc (mc_vk ?m)) = (Ok (), hk, u)"
    and st': "fst st' = ?m\<lparr>mc_vk := (mc_vk ?m)\<lparr>uc := u\<rparr>\<rparr>" "hooks (snd st') = push_entry HT_BLOCK \<lparr>hc_id = next_id hk, hc_begin = 1, hc_end = 0,
            hc_user_data = SharedCoverage,
            hc_cb = (\<lambda>ctx args d. case args of Trace addr sz \<Rightarrow> shared_block_callback ctx addr sz d | _ \<Rightarrow> (None, ctx, d))\<rparr> (hooks hk)"
    by (auto simp: on_hooks_def hook_block_def outcome_elim Let_def alloc_id_def split: prod.splits)
  have "hooks hk = hooks (snd st)"
    using e by (auto simp: ensure_block_dispatcher_def ensure_dispatcher_def split: if_splits prod.splits sum.splits)
  then have "covers (snd st')"
    using none by (simp add: covers_def st'(2) push_entry_def maps.look_put)
  moreover have "mc_unwound ?m = mc_unwound (fst st)" by (simp add: clear_coverage_map_def)
  ultimately show ?thesis by (simp add: st'(1))
qed

text \<open>
  C7: block coverage. After \<open>install_shared_block_coverage\<close> over a map of the stated length, whatever blocks
  the guest executes, no callback panics and none writes outside the map; and slot \<open>j\<close> holds the number of
  executed transitions that the reference trace assigns to it, saturated at 255.
\<close>

theorem coverage_counts_blocks:
  assumes run: "install_shared_block_coverage E st = (Ok (), st')" and none: "hooks_of (snd st) HT_BLOCK = []"
    and idle: "mc_unwound (fst st) = Ok ()" and fits: "coverage_fits (cov_map (fst st)) (cov_state (fst st))"
    and events: "block_events st' as = (m, hk)"
  shows "mc_unwound m = Ok () \<and> length (cov_map m) = length (cov_map (fst st))
    \<and> (\<forall>i \<in> set (block_slots (cv_len (cov_state (fst st))) 0 as). i < length (cov_map (fst st)))
    \<and> (\<forall>j < length (cov_map (fst st)). unat (cov_map m ! j)
         = min 255 (count_list (block_slots (cv_len (cov_state (fst st))) 0 as) j))"
proof -
  note len = coverage_fits_len [OF fits]
  have c: "cov_map (fst st') = replicate (length (cov_map (fst st))) 0" "cov_state (fst st') = (cov_state (fst st))\<lparr>cv_prev_loc := 0\<rparr>"
    "covers (snd st')" "mc_unwound (fst st') = Ok ()"
    using covers_installed [OF run none] len idle by (simp_all add: clear_coverage_map_def)
  then have f: "coverage_fits (cov_map (fst st')) (cov_state (fst st'))"
    using fits by (auto simp: coverage_fits_def)
  have "block_events (fst st', snd st') as = (m, hk)" using events by simp
  note count = block_events_count [OF c(3,4) f this]
  have slot: "\<forall>i \<in> set (block_slots len prev as). i < unat len" if "len \<noteq> 0" for len prev :: u64
    using that by (induction as arbitrary: prev) (auto simp: Let_def unat_mod_distrib unat_gt_0)
  show ?thesis
    using count slot [OF len(2), of 0] len(1) by (simp add: c)
qed

section \<open>Restoring the memory layout\<close>

lemma unmap_pieces_spec:
  assumes "engine_maps P view" "unmap_pieces P ps vk = (Ok (), vk')"
  shows "view (uc vk') = (\<lambda>x. if x \<in> pair_bytes ps then None else view (uc vk) x) \<and> remapped vk vk'"
  using assms(2)
proof (induction ps arbitrary: vk)
  case Nil
  then show ?case by (simp add: pair_bytes_def remapped_refl)
next
  case (Cons p ps)
  obtain a n where p: "p = (a, n)" by (rule prod.exhaust)
  obtain u where u: "uc_mem_unmap P a n (uc vk) = (Inr (), u)"
    and rest: "unmap_pieces P ps (set_regions (remove_range (regions vk) a n) (vk\<lparr>uc := u\<rparr>)) = (Ok (), vk')"
    using Cons.prems by (auto simp: p outcome_elim)
  have v: "view u = (\<lambda>x. if in_range a (unat n) x then None else view (uc vk) x)"
    using engine_unmap_done [OF assms(1) u] by simp
  have "remapped vk (set_regions (remove_range (regions vk) a n) (vk\<lparr>uc := u\<rparr>))"
    by (rule remappedI [where u = u]) simp
  then show ?case
    using Cons.IH [OF rest] v by (auto simp: p pair_bytes_def fun_eq_iff intro: remapped_trans)
qed

lemma uncovered_bytes:
  assumes "regions_ok snap" "fit_region r"
  shows "pair_bytes (subtract_snapshot_coverage (r_start r) (r_size r) snap) = Collect (in_region r) - covered snap"
  using subtract_snapshot_coverage_exact [OF assms(1), of "r_start r" "r_size r"] assms(2)
  by (auto simp: fit_region_def in_region_def)

lemma unmap_uncovered_spec:
  assumes "engine_maps P view" "regions_ok snap" "list_all fit_region rs" "unmap_uncovered P snap rs vk = (Ok (), vk')"
  shows "view (uc vk') = (\<lambda>x. if x \<in> covered rs - covered snap then None else view (uc vk) x) \<and> remapped vk vk'"
  using assms(3,4)
proof (induction rs arbitrary: vk)
  case (Cons r rs)
  obtain vk1 where p: "unmap_pieces P (subtract_snapshot_coverage (r_start r) (r_size r) snap) vk = (Ok (), vk1)"
    and rest: "unmap_uncovered P snap rs vk1 = (Ok (), vk')"
    using Cons.prems(2) by (auto simp: outcome_elim)
  show ?case
    using Cons.IH [OF _ rest] Cons.prems(1) unmap_pieces_spec [OF assms(1) p] uncovered_bytes [OF assms(2), of r]
    by (auto simp: fun_eq_iff intro: remapped_trans)
qed (simp add: remapped_refl)

lemma remap_step:
  assumes "engine_maps P view"
    and "(if c then uc_do e1 (uc_mem_map P a n p) vk else uc_do e2 (uc_mem_protect P a n p) vk) = (Ok (), vk1)"
  shows "\<exists>u. vk1 = vk\<lparr>uc := u\<rparr> \<and> view u = (\<lambda>x. if in_range a (unat n) x then Some p else view (uc vk) x)
    \<and> ((\<forall>x. in_range a (unat n) x \<longrightarrow> view (uc vk) x = None) \<or> (\<forall>x. in_range a (unat n) x \<longrightarrow> view (uc vk) x \<noteq> None))"
  using assms(2) engine_map_done [OF assms(1)] engine_protect_done [OF assms(1)]
  by (auto simp: outcome_elim split: if_splits)

lemma remap_regions_spec:
  assumes "engine_maps P view" "regions_ok rs" "remap_regions P rs vk = (Ok (), vk')"
  shows "view (uc vk') = (\<lambda>x. case region_at rs x of Some v \<Rightarrow> Some (fst v) | None \<Rightarrow> view (uc vk) x)
    \<and> (\<exists>u. vk' = vk\<lparr>uc := u\<rparr>)
    \<and> (\<forall>r \<in> set rs. (\<forall>x. in_region r x \<longrightarrow> view (uc vk) x = None) \<or> (\<forall>x. in_region r x \<longrightarrow> view (uc vk) x \<noteq> None))"
  using assms(2,3)
proof (induction rs arbitrary: vk)
  case Nil
  then show ?case by (auto intro: exI [of _ "uc vk"])
next
  case (Cons r rs)
  obtain vk1 where p: "(if \<not> is_range_mapped (regions vk) (r_start r) (r_size r)
        then uc_do (\<lambda>_. UnicornGeneralError ''mem_map failed'') (uc_mem_map P (r_start r) (r_size r) (r_prot r)) vk
        else uc_do (\<lambda>_. UnicornGeneralError ''mem_protect failed'') (uc_mem_protect P (r_start r) (r_size r) (r_prot r)) vk)
      = (Ok (), vk1)" and rest: "remap_regions P rs vk1 = (Ok (), vk')"
    using Cons.prems(2) unfolding remap_regions.simps outcome_elim by (metis unit_eq)
  have ok: "regions_ok rs" "fit_region r" "\<forall>q \<in> set rs. apart r q"
    using Cons.prems(1) by (simp_all add: regions_ok_Cons)
  obtain u where u: "vk1 = vk\<lparr>uc := u\<rparr>" "view u = (\<lambda>x. if in_region r x then Some (r_prot r) else view (uc vk) x)"
      "(\<forall>x. in_region r x \<longrightarrow> view (uc vk) x = None) \<or> (\<forall>x. in_region r x \<longrightarrow> view (uc vk) x \<noteq> None)"
    using remap_step [OF assms(1) p] unfolding in_region_def by blast
  have sep: "\<not> in_region r x" if "q \<in> set rs" "in_region q x" for q x
    using that ok apart_iff [of r q] regions_ok_fit [OF ok(1)] by blast
  then have none: "region_at rs x = None" if "in_region r x" for x
    using that by (auto simp: region_at_None covered_def)
  note IH = Cons.IH [OF ok(1) rest]
  have "view (uc vk') = (\<lambda>x. case region_at (r # rs) x of Some v \<Rightarrow> Some (fst v) | None \<Rightarrow> view (uc vk) x)"
    using IH u(1,2) none by (auto simp: fun_eq_iff split: option.split)
  moreover have "\<forall>q \<in> set rs. (\<forall>x. in_region q x \<longrightarrow> view (uc vk) x = None) \<or> (\<forall>x. in_region q x \<longrightarrow> view (uc vk) x \<noteq> None)"
  proof
    fix q assume q: "q \<in> set rs"
    have same: "view (uc vk1) x = view (uc vk) x" if "in_region q x" for x
      using sep [OF q that] u(1,2) by simp
    from IH q have "(\<forall>x. in_region q x \<longrightarrow> view (uc vk1) x = None) \<or> (\<forall>x. in_region q x \<longrightarrow> view (uc vk1) x \<noteq> None)"
      by blast
    then show "(\<forall>x. in_region q x \<longrightarrow> view (uc vk) x = None) \<or> (\<forall>x. in_region q x \<longrightarrow> view (uc vk) x \<noteq> None)"
      by (simp add: same)
  qed
  ultimately show ?case using IH u(1,3) by auto
qed

text \<open>
  \<open>restore_memory_layout\<close>: when it succeeds, the region list is the snapshot's and the engine maps
  exactly those regions with their protections, whatever the guest mapped, unmapped or protected in between.
\<close>

lemma restore_layout_spec:
  assumes laws: "engine_maps P view" and sync: "in_sync view vk" and ok: "regions_ok snap" "paged snap"
    and run: "restore_memory_layout P snap vk = (Ok (), vk')"
  shows "in_sync view vk' \<and> regions vk' = snap \<and> (\<exists>u. vk' = set_regions snap (vk\<lparr>uc := u\<rparr>))
    \<and> (\<forall>r \<in> set snap. (\<forall>x. in_region r x \<longrightarrow> region_at (regions vk) x = None)
         \<or> (\<forall>x. in_region r x \<longrightarrow> region_at (regions vk) x \<noteq> None))"
proof -
  obtain vk1 vk2 where u: "unmap_uncovered P snap (regions vk) vk = (Ok (), vk1)"
    and r: "remap_regions P snap vk1 = (Ok (), vk2)" and vk': "vk' = set_regions snap vk2"
    using run by (auto simp: restore_memory_layout_def outcome_elim)
  have "list_all fit_region (regions vk)" using sync by (simp add: in_sync_def regions_ok_all_fit)
  note s1 = unmap_uncovered_spec [OF laws ok(1) this u]
  note s2 = remap_regions_spec [OF laws ok(1) r]
  have v: "view (uc vk) x = map_option fst (region_at (regions vk) x)" for x
    using sync by (simp add: in_sync_def)
  have "view (uc vk2) x = map_option fst (region_at snap x)" for x
    using s1 s2 v [of x] by (auto simp: region_at_None [symmetric] split: option.split)
  then have "in_sync view vk'"
    using ok by (simp add: vk' in_sync_def fun_eq_iff)
  moreover have "\<exists>u. vk' = set_regions snap (vk\<lparr>uc := u\<rparr>)"
    using s1 s2 by (auto simp: vk' remapped_def)
  moreover have "(\<forall>x. in_region q x \<longrightarrow> region_at (regions vk) x = None) \<or> (\<forall>x. in_region q x \<longrightarrow> region_at (regions vk) x \<noteq> None)"
    if q: "q \<in> set snap" for q
  proof -
    have "view (uc vk1) x = map_option fst (region_at (regions vk) x)" if "in_region q x" for x
      using s1 v [of x] q that by (auto simp: covered_def)
    then show ?thesis using s2 q by force
  qed
  ultimately show ?thesis by (simp add: vk')
qed

section \<open>Contents\<close>

text \<open>Documented behaviour: protecting memory, and saving or restoring the CPU context, touch no byte of it.\<close>

definition protect_keeps :: "('u, 'h) platform \<Rightarrow> ('u \<Rightarrow> 'x) \<Rightarrow> bool" where
  "protect_keeps P f \<longleftrightarrow> (\<forall>a n p u. f (snd (uc_mem_protect P a n p u)) = f u)"

definition context_keeps :: "('u, 'c) context_engine \<Rightarrow> ('u \<Rightarrow> 'x) \<Rightarrow> bool" where
  "context_keeps X f \<longleftrightarrow> (\<forall>u. f (snd (uc_context_alloc X u)) = f u)
     \<and> (\<forall>c u. f (snd (uc_context_save X c u)) = f u) \<and> (\<forall>c u. f (snd (uc_context_restore X c u)) = f u)"

lemma uc_do_keeps: "f (snd (g (uc vk))) = f (uc vk) \<Longrightarrow> uc_do e g vk = (r, vk') \<Longrightarrow>
    f (uc vk') = f (uc vk) \<and> (\<exists>u. vk' = vk\<lparr>uc := u\<rparr>)"
  by (auto simp: uc_do_def split: prod.splits sum.splits)

lemma mem_read_Ok': "engine_bytes P content \<Longrightarrow> mem_read P a n vk = (Ok bs, vk') \<Longrightarrow>
    bs = guest_bytes content a n vk \<and> vk' = vk"
  using mem_read_Ok by blast

lemma read_region_spec:
  assumes "engine_bytes P content" "protect_keeps P content" "read_region_snapshot P a n p vk = (Ok bs, vk')"
  shows "bs = guest_bytes content a (unat n) vk \<and> content (uc vk') = content (uc vk) \<and> (\<exists>u. vk' = vk\<lparr>uc := u\<rparr>)"
proof (cases "p_read p")
  case True
  then have "mem_read P a (unat n) vk = (Ok bs, vk')" using assms(3) by (simp add: read_region_snapshot_def)
  from mem_read_Ok' [OF assms(1) this] show ?thesis by (auto intro: exI [of _ "uc vk"])
next
  case False
  have keep: "content (uc w') = content (uc w) \<and> (\<exists>u. w' = w\<lparr>uc := u\<rparr>)"
    if "uc_do e (uc_mem_protect P a n q) w = (x, w')" for e q x and w w' :: "('a, 'b) Valkyrie"
    using uc_do_keeps [OF _ that, of content] assms(2) by (simp add: protect_keeps_def)
  obtain vk1 where p1: "uc_do (\<lambda>_. UnicornGeneralError ''mem_protect failed'') (uc_mem_protect P a n (prot_or p Prot_READ)) vk = (Ok (), vk1)"
    and rest: "(case mem_read P a (unat n) vk1 of (Panic, vk) \<Rightarrow> (Panic, vk)
           | (r, vk) \<Rightarrow> and_then (uc_do (\<lambda>_. UnicornGeneralError ''mem_protect failed'') (uc_mem_protect P a n p) vk)
                 (\<lambda>_ vk. (r, vk))) = (Ok bs, vk')"
    using assms(3) False unfolding read_region_snapshot_def by (auto simp: outcome_elim)
  obtain r where m: "mem_read P a (unat n) vk1 = (r, vk1)"
    using mem_read_same_state [of P a "unat n" vk1] by (metis prod.collapse)
  then have m': "mem_read P a (unat n) vk1 = (Ok bs, vk1)"
    and p2: "uc_do (\<lambda>_. UnicornGeneralError ''mem_protect failed'') (uc_mem_protect P a n p) vk1 = (Ok (), vk')"
    using rest by (cases r; auto simp: outcome_elim)+
  from keep [OF p1] keep [OF p2] mem_read_Ok' [OF assms(1) m'] show ?thesis
    by (auto simp: guest_bytes_def)
qed

abbreviation copied :: "('u \<Rightarrow> nat \<Rightarrow> u8) \<Rightarrow> ('u, 'h) Valkyrie \<Rightarrow> VMemRegion \<Rightarrow> WritableRegionSnapshot \<Rightarrow> bool" where
  "copied content vk r w \<equiv> ws_start w = r_start r \<and> ws_data w = guest_bytes content (r_start r) (unat (r_size r)) vk"

lemma snapshot_writable_spec:
  assumes "engine_bytes P content" "protect_keeps P content" "snapshot_writable P rs vk = (Ok ws, vk')"
  shows "list_all2 (copied content vk) rs ws \<and> content (uc vk') = content (uc vk) \<and> (\<exists>u. vk' = vk\<lparr>uc := u\<rparr>)"
  using assms(3)
proof (induction rs arbitrary: vk ws)
  case Nil
  then show ?case by (auto intro: exI [of _ "uc vk"])
next
  case (Cons r rs)
  obtain bs vk1 ws1 where b: "read_region_snapshot P (r_start r) (r_size r) (r_prot r) vk = (Ok bs, vk1)"
    and w: "snapshot_writable P rs vk1 = (Ok ws1, vk')" "ws = \<lparr>ws_start = r_start r, ws_data = bs\<rparr> # ws1"
    using Cons.prems by (auto simp: outcome_elim)
  note s = read_region_spec [OF assms(1,2) b]
  have "copied content vk1 = (copied content vk :: VMemRegion \<Rightarrow> WritableRegionSnapshot \<Rightarrow> bool)"
    using s by (simp add: guest_bytes_def fun_eq_iff)
  then show ?case
    using Cons.IH [OF w(1)] s w(2) by auto
qed

lemma write_regions_spec:
  assumes "engine_bytes P content" "list_all2 (copied content vk0) rs ws" "write_regions P ws vk = (Ok (), vk')"
  shows "content (uc vk') = (\<lambda>x. if x \<in> covered rs then content (uc vk0) x else content (uc vk) x) \<and> (\<exists>u. vk' = vk\<lparr>uc := u\<rparr>)"
  using assms(2,3)
proof (induction ws arbitrary: rs vk rule: list.induct)
  case Nil
  then have "rs = []" by simp
  with Nil show ?case by (auto intro: exI [of _ "uc vk"])
next
  case (Cons w ws)
  obtain r qs where rs: "rs = r # qs" "copied content vk0 r w" "list_all2 (copied content vk0) qs ws"
    using Cons.prems(1) by (auto simp: list_all2_Cons2)
  obtain vk1 where m: "mem_write P (ws_start w) (ws_data w) vk = (Ok (), vk1)" and rest: "write_regions P ws vk1 = (Ok (), vk')"
    using Cons.prems(2) by (auto simp: outcome_elim)
  note wr = mem_write_Ok [OF assms(1) m]
  have "content (uc vk1) = (\<lambda>x. if in_region r x then content (uc vk0) x else content (uc vk) x)"
    using wr rs(2) by (auto simp: in_region_def guest_bytes_def fun_eq_iff)
  moreover have "\<exists>u. vk1 = vk\<lparr>uc := u\<rparr>" using wr by blast
  ultimately show ?case
    using Cons.IH [OF rs(3) rest] rs(1) by (auto simp: fun_eq_iff)
qed

lemma write_regions_view:
  assumes "engine_maps P view" "write_regions P ws vk = (Ok (), vk')"
  shows "view (uc vk') = view (uc vk)"
  using assms(2)
proof (induction ws arbitrary: vk)
  case (Cons w ws)
  obtain vk1 where m: "mem_write P (ws_start w) (ws_data w) vk = (Ok (), vk1)" and rest: "write_regions P ws vk1 = (Ok (), vk')"
    using Cons.prems by (auto simp: outcome_elim)
  have "view (uc vk1) = view (uc vk)"
    using mem_write_frame [OF assms(1) keeps_map_refl [of view vk], of "ws_start w" "ws_data w"] m by (simp add: keeps_map_def)
  with Cons.IH [OF rest] show ?case by simp
qed simp

lemma write_regions_frame:
  assumes "write_regions P ws vk = (Ok (), vk')"
  shows "\<exists>u. vk' = vk\<lparr>uc := u\<rparr>"
  using assms
proof (induction ws arbitrary: vk)
  case Nil
  then show ?case by (auto intro: exI [of _ "uc vk"])
next
  case (Cons w ws)
  then show ?case by (fastforce simp: mem_write_def outcome_elim split: if_splits)
qed

lemma capture_spec:
  assumes "engine_bytes P content" "protect_keeps P content" "context_keeps X content"
    and run: "capture_snapshot P X vk = (Ok snap, vk')"
  shows "sn_regions snap = regions vk \<and> list_all2 (copied content vk) (filter (\<lambda>r. p_write (r_prot r)) (regions vk)) (sn_writable_regions snap)
    \<and> sn_linux_creds snap = linux_creds vk \<and> sn_guest_rt_sigactions snap = guest_rt_sigactions vk
    \<and> sn_guest_rt_sigmask snap = guest_rt_sigmask vk \<and> sn_guest_prctl_name snap = guest_prctl_name vk
    \<and> sn_guest_pdeathsig snap = guest_pdeathsig vk \<and> sn_guest_dumpable snap = guest_dumpable vk"
proof -
  obtain c1 u1 c2 u2 ws vk3 where a: "uc_context_alloc X (uc vk) = (Inr c1, u1)" and b: "uc_context_save X c1 u1 = (Inr c2, u2)"
    and w: "snapshot_writable P (filter (\<lambda>r. p_write (r_prot r)) (regions vk)) (vk\<lparr>uc := u2\<rparr>) = (Ok ws, vk3)"
    and snap: "snap = \<lparr>sn_context = c2, sn_regions = regions vk3, sn_writable_regions = ws,
        sn_linux_creds = linux_creds vk3, sn_guest_rt_sigactions = guest_rt_sigactions vk3,
        sn_guest_rt_sigmask = guest_rt_sigmask vk3, sn_guest_prctl_name = guest_prctl_name vk3,
        sn_guest_pdeathsig = guest_pdeathsig vk3, sn_guest_dumpable = guest_dumpable vk3\<rparr>"
    using run by (auto simp: capture_snapshot_def outcome_elim)
  have "content u2 = content (uc vk)"
    using assms(3) a b unfolding context_keeps_def by (metis snd_conv)
  then have "copied content (vk\<lparr>uc := u2\<rparr>) = (copied content vk :: VMemRegion \<Rightarrow> WritableRegionSnapshot \<Rightarrow> bool)"
    by (simp add: guest_bytes_def)
  then show ?thesis
    using snapshot_writable_spec [OF assms(1,2) w] by (auto simp: snap)
qed

section \<open>Properties of the snapshot\<close>

text \<open>
  C8: a snapshot brings a run back. Whatever the guest did to its memory in between, when restoring succeeds
  the region list is the one captured, the engine maps exactly those regions with their protections, every
  byte of a region that was writable at the capture is what it was, and so are the process attributes.
\<close>

theorem restore_brings_back:
  assumes laws: "engine_maps P view" "engine_bytes P content" "protect_keeps P content" "context_keeps X (\<lambda>u. (view u, content u))"
    and sync: "in_sync view vk0" "in_sync view vk"
    and capture: "capture_snapshot P X vk0 = (Ok snap, vk1)" and restore: "restore_snapshot P X snap vk = (Ok (), vk')"
  shows "in_sync view vk' \<and> regions vk' = regions vk0
    \<and> (\<forall>r \<in> set (regions vk0). p_write (r_prot r) \<longrightarrow> (\<forall>x. in_region r x \<longrightarrow> content (uc vk') x = content (uc vk0) x))
    \<and> linux_creds vk' = linux_creds vk0 \<and> guest_rt_sigactions vk' = guest_rt_sigactions vk0
    \<and> guest_rt_sigmask vk' = guest_rt_sigmask vk0 \<and> guest_prctl_name vk' = guest_prctl_name vk0
    \<and> guest_pdeathsig vk' = guest_pdeathsig vk0 \<and> guest_dumpable vk' = guest_dumpable vk0"
proof -
  have keeps: "context_keeps X content" "\<And>c u. view (snd (uc_context_restore X c u)) = view u"
    using laws(4) by (simp_all add: context_keeps_def)
  note cap = capture_spec [OF laws(2,3) keeps(1) capture]
  obtain vk2 vk3 u where l: "restore_memory_layout P (sn_regions snap) vk = (Ok (), vk2)"
    and w: "write_regions P (sn_writable_regions snap) vk2 = (Ok (), vk3)"
    and c: "uc_context_restore X (sn_context snap) (uc vk3) = (Inr (), u)"
    and vk': "vk' = vk3\<lparr>uc := u, linux_creds := sn_linux_creds snap, guest_rt_sigactions := sn_guest_rt_sigactions snap,
        guest_rt_sigmask := sn_guest_rt_sigmask snap, guest_prctl_name := sn_guest_prctl_name snap,
        guest_pdeathsig := sn_guest_pdeathsig snap, guest_dumpable := sn_guest_dumpable snap\<rparr>"
    using restore by (auto simp: restore_snapshot_def outcome_elim)
  have ok: "regions_ok (sn_regions snap)" "paged (sn_regions snap)"
    using cap sync(1) by (simp_all add: in_sync_def)
  note lay = restore_layout_spec [OF laws(1) sync(2) ok l]
  note wr = write_regions_spec [OF laws(2) cap [THEN conjunct2, THEN conjunct1] w]
  have v: "view u = view (uc vk2)"
    using keeps(2) [of "sn_context snap" "uc vk3"] c write_regions_view [OF laws(1) w] by simp
  have ct: "content u = content (uc vk3)"
    using keeps(1) c unfolding context_keeps_def by (metis snd_conv)
  have "in_sync view vk'"
    using lay wr v by (auto simp: vk' intro: in_sync_cong)
  moreover have "content (uc vk') x = content (uc vk0) x"
    if "r \<in> set (regions vk0)" "p_write (r_prot r)" "in_region r x" for r x
    using wr that ct by (auto simp: vk' covered_def)
  ultimately show ?thesis
    using lay wr cap by (auto simp: vk')
qed

text \<open>
  C9: a guest that unmaps part of a region breaks the fuzzer. When some page of a snapshot's region is
  mapped and another is not, no restore succeeds: the region is not wholly mapped, so the code maps it anew,
  and the engine refuses to map over the pages that are left.
\<close>

theorem partial_unmap_breaks_restore:
  assumes laws: "engine_maps P view" and sync: "in_sync view vk" and ok: "regions_ok (sn_regions snap)" "paged (sn_regions snap)"
    and region: "r \<in> set (sn_regions snap)" "in_region r x" "in_region r y"
    and partial: "region_at (regions vk) x \<noteq> None" "region_at (regions vk) y = None"
  shows "fst (restore_snapshot P X snap vk) \<noteq> Ok ()"
proof
  assume "fst (restore_snapshot P X snap vk) = Ok ()"
  then obtain vk' where "restore_snapshot P X snap vk = (Ok (), vk')" by (metis prod.collapse)
  then obtain vk2 where l: "restore_memory_layout P (sn_regions snap) vk = (Ok (), vk2)"
    by (auto simp: restore_snapshot_def outcome_elim)
  then have "(\<forall>x. in_region r x \<longrightarrow> region_at (regions vk) x = None) \<or> (\<forall>x. in_region r x \<longrightarrow> region_at (regions vk) x \<noteq> None)"
    using restore_layout_spec [OF laws sync ok] region(1) by metis
  then show False using region(2,3) partial by auto
qed

text \<open>
  C10: what a restore leaves as the last input made it: the program break, the table of open files, the
  prepared range and the trap. So \<open>brk(0)\<close> answers the break of the previous input, although the memory
  below it is the snapshot's.
\<close>

theorem restore_keeps_break:
  assumes laws: "engine_maps P view" and sync: "in_sync view vk" and ok: "regions_ok (sn_regions snap)" "paged (sn_regions snap)"
    and restore: "restore_snapshot P X snap vk = (Ok (), vk')"
  shows "sys_brk P (subctx_new [0, a1, a2, a3, a4, a5]) vk' = (Ok (heap_addr_exit (vmem vk)), vk')
    \<and> regions vk' = sn_regions snap \<and> fd_table vk' = fd_table vk"
proof -
  obtain vk2 vk3 u where l: "restore_memory_layout P (sn_regions snap) vk = (Ok (), vk2)"
    and w: "write_regions P (sn_writable_regions snap) vk2 = (Ok (), vk3)"
    and vk': "vk' = vk3\<lparr>uc := u, linux_creds := sn_linux_creds snap, guest_rt_sigactions := sn_guest_rt_sigactions snap,
        guest_rt_sigmask := sn_guest_rt_sigmask snap, guest_prctl_name := sn_guest_prctl_name snap,
        guest_pdeathsig := sn_guest_pdeathsig snap, guest_dumpable := sn_guest_dumpable snap\<rparr>"
    using restore by (auto simp: restore_snapshot_def outcome_elim)
  have "\<exists>u. vk3 = vk2\<lparr>uc := u\<rparr>"
    using write_regions_frame [OF w] .
  then show ?thesis
    using restore_layout_spec [OF laws sync ok l] by (auto simp: vk' sys_brk_def arg0_def subctx_new_def)
qed

text \<open>
  C11: the verdict on an input, for every way the engine's execution can come back. A run of a prepared emulator
  starts the engine once, on the prepared range. If every callback returned, the verdict is never an error of
  the emulator: a crash when the engine failed (also when the failure is not a soft error, whose panic
  \<open>catch_unwind\<close> turns into a crash) or when a crash is recorded, else a normal exit; a failure is recorded as
  a crash, and the emulator is left in the state \<open>Ended\<close> unless a failure was not soft. If a callback panicked
  or does not return, there is no verdict: the panic meets the engine's C frames before \<open>catch_unwind\<close> and
  ends the process, as it does from the edition of the language the crate is written in.
\<close>

theorem prepared_run_verdict:
  assumes range: "prepared_start (em_vk st) = Some a" "prepared_end (em_vk st) = Some b"
    and ran: "emu a b (c_timeout (cfg (em_vk st))) (c_count (cfg (em_vk st))) (set_vk ((em_vk st)\<lparr>vstate := Running\<rparr>) st) = (r, st1)"
  shows "if mc_unwound (fst st1) = Ok ()
    then \<exists>st2. run_valkyrie_prepared P emu st = (Ok (if isl r \<or> crashed (em_vk st1) then ExitCrash else ExitOk), st2)
      \<and> (crashed (em_vk st2) \<longleftrightarrow> isl r \<or> crashed (em_vk st1))
      \<and> (\<not> isl r \<or> soft_unicorn_errors (em_vk st1) \<longrightarrow> vstate (em_vk st2) = Ended)
      \<and> snd st2 = snd st1 \<and> cov_map (fst st2) = cov_map (fst st1)
    else run_valkyrie_prepared P emu st = (Diverges, st1)"
  using assms by (cases r) (auto simp: run_valkyrie_prepared_def run_prepared_def start_engine_def verdict_def exit_kind_def
      on_vk_def handle_unicorn_error_def)

section \<open>On the reference engine\<close>

definition ref_ctx :: "(ref_state, RegisterX86 \<Rightarrow> u64) context_engine" where
  "ref_ctx = \<lparr>uc_context_alloc = (\<lambda>u. (Inr (\<lambda>_. 0), u)), uc_context_save = (\<lambda>c u. (Inr (ref_regs u), u)),
     uc_context_restore = (\<lambda>c u. (Inr (), u\<lparr>ref_regs := c\<rparr>))\<rparr>"

lemma ref_ctx_keeps: "context_keeps ref_ctx (\<lambda>u. (ref_view u, ref_content u))" "protect_keeps ref_engine ref_content"
  by (simp_all add: context_keeps_def ref_ctx_def protect_keeps_def ref_engine_def ref_fill_def)

lemma ref_read: "n \<noteq> 0 \<Longrightarrow> n < 2 ^ 63 \<Longrightarrow> mem_read ref_engine a n vk = (Ok (guest_bytes ref_content a n vk), vk)"
  by (simp add: mem_read_def ref_engine_def guest_bytes_def)

lemma ref_protect: "pages a n \<Longrightarrow> \<forall>x. in_range a (unat n) x \<longrightarrow> ref_view u x \<noteq> None \<Longrightarrow>
    uc_mem_protect ref_engine a n p u = (Inr (), ref_fill a n (Some p) u)"
  by (simp add: ref_engine_def)

lemma ref_capture:
  "\<exists>vk1. capture_snapshot ref_engine ref_ctx (ref_vk a) = (Ok \<lparr>sn_context = (\<lambda>_. 0), sn_regions = ref_regions,
     sn_writable_regions = [\<lparr>ws_start = 0x400000, ws_data = guest_bytes ref_content 0x400000 0x1000 (ref_vk a)\<rparr>,
       \<lparr>ws_start = 0x600000, ws_data = guest_bytes ref_content 0x600000 0x2000 (ref_vk a)\<rparr>],
     sn_linux_creds = linux_creds (ref_vk a), sn_guest_rt_sigactions = guest_rt_sigactions (ref_vk a),
     sn_guest_rt_sigmask = guest_rt_sigmask (ref_vk a), sn_guest_prctl_name = guest_prctl_name (ref_vk a),
     sn_guest_pdeathsig = guest_pdeathsig (ref_vk a), sn_guest_dumpable = guest_dumpable (ref_vk a)\<rparr>, vk1)"
proof -
  have u: "(ref_vk a)\<lparr>uc := \<lparr>ref_view = \<lambda>x. map_option fst (region_at ref_regions x), ref_content = \<lambda>x. 0, ref_regs = \<lambda>r. 0\<rparr>\<rparr> = ref_vk a"
    by (simp add: ref_vk_def)
  show ?thesis
    by (simp add: capture_snapshot_def uc_do_def ref_ctx_def u, simp add: ref_regions_def read_region_snapshot_def prot_defs ref_read)
qed

text \<open>The same emulator after an input: every byte is 1, the break has moved a page up.\<close>

definition ref_dirty :: "Arch \<Rightarrow> (ref_state, unit) Valkyrie" where
  "ref_dirty a = (ref_vk a)\<lparr>uc := (uc (ref_vk a))\<lparr>ref_content := (\<lambda>_. 1)\<rparr>,
     vmem := (vmem (ref_vk a))\<lparr>heap_addr_exit := 0x603000\<rparr>\<rparr>"

lemma ref_dirty_sync: "in_sync ref_view (ref_dirty a)"
  by (rule in_sync_cong [OF ref_in_sync]) (simp_all add: ref_dirty_def)

lemma ref_restore:
  assumes "sn_regions snap = ref_regions"
    and "sn_writable_regions snap = [\<lparr>ws_start = 0x400000, ws_data = d1\<rparr>, \<lparr>ws_start = 0x600000, ws_data = d2\<rparr>]"
    and "length d1 = 0x1000" "length d2 = 0x2000"
  shows "\<exists>vk'. restore_snapshot ref_engine ref_ctx snap (ref_dirty a) = (Ok (), vk')"
proof -
  have cov: "subtract_snapshot_coverage 0x400000 0x1000 ref_regions = []" "subtract_snapshot_coverage 0x600000 0x2000 ref_regions = []"
    by (simp_all add: subtract_snapshot_coverage_def ref_regions_def cut_segment_def sat_add_def)
  have mapped: "is_range_mapped ref_regions 0x400000 0x1000" "is_range_mapped ref_regions 0x600000 0x2000"
    by (simp_all add: is_range_mapped_def ref_regions_def sat_add_def)
  have v: "\<forall>x. in_range 0x400000 0x1000 x \<longrightarrow> region_at ref_regions x \<noteq> None" "\<forall>x. in_range 0x600000 0x2000 x \<longrightarrow> region_at ref_regions x \<noteq> None"
    by (simp_all add: ref_regions_def in_region_def)
  have un: "unmap_uncovered ref_engine ref_regions ref_regions (ref_dirty a) = (Ok (), ref_dirty a)"
    using cov by (subst (2) ref_regions_def) simp
  have re: "\<exists>u. remap_regions ref_engine ref_regions (ref_dirty a) = (Ok (), (ref_dirty a)\<lparr>uc := u\<rparr>)"
    using mapped v
    by (subst ref_regions_def) (simp add: uc_do_def ref_protect pages_def ref_fill_def ref_dirty_def, rule exI, rule refl)
  have d: "d1 \<noteq> []" "d2 \<noteq> []" using assms(3,4) by auto
  have reg: "regions (ref_dirty a) = ref_regions" by (simp add: ref_dirty_def)
  obtain u where r: "remap_regions ref_engine ref_regions (ref_dirty a) = (Ok (), (ref_dirty a)\<lparr>uc := u\<rparr>)" using re by blast
  show ?thesis
    using un r assms d reg by (simp add: restore_snapshot_def restore_memory_layout_def mem_write_def uc_do_def ref_writes ref_ctx_def)
qed

theorem restore_brings_back_witness:
  "\<exists>snap vk1 vk'. capture_snapshot ref_engine ref_ctx (ref_vk X86) = (Ok snap, vk1)
    \<and> restore_snapshot ref_engine ref_ctx snap (ref_dirty X86) = (Ok (), vk') \<and> ref_content (uc (ref_dirty X86)) 0x601fff = 1
    \<and> ref_content (uc vk') 0x601fff = 0"
proof -
  obtain snap vk1 where cap: "capture_snapshot ref_engine ref_ctx (ref_vk X86) = (Ok snap, vk1)" and
    s: "sn_regions snap = ref_regions" "sn_writable_regions snap = [\<lparr>ws_start = 0x400000, ws_data = guest_bytes ref_content 0x400000 0x1000 (ref_vk X86)\<rparr>,
       \<lparr>ws_start = 0x600000, ws_data = guest_bytes ref_content 0x600000 0x2000 (ref_vk X86)\<rparr>]"
    using ref_capture [of X86] by fastforce
  obtain vk' where res: "restore_snapshot ref_engine ref_ctx snap (ref_dirty X86) = (Ok (), vk')"
    using ref_restore [OF s] by auto
  let ?r = "\<lparr>r_start = 0x600000, r_size = 0x2000, r_prot = Prot_ALL, r_info = HEAP\<rparr>"
  have r: "?r \<in> set (regions (ref_vk X86))" "p_write (r_prot ?r)" "in_region ?r 0x601fff"
    by (simp_all add: ref_regions_def Prot_ALL_def in_region_def)
  from restore_brings_back [OF ref_engine_maps ref_engine_bytes ref_ctx_keeps(2,1) ref_in_sync ref_dirty_sync cap res] r
  have "ref_content (uc vk') 0x601fff = ref_content (uc (ref_vk X86)) 0x601fff" by blast
  with cap res show ?thesis by (simp add: ref_dirty_def)
qed

text \<open>After the guest unmapped the second heap page.\<close>

theorem partial_unmap_breaks_restore_witness:
  "\<exists>u vk1. uc_mem_unmap ref_engine 0x601000 0x1000 (uc (ref_vk X86)) = (Inr (), u)
    \<and> vk1 = set_regions (remove_range ref_regions 0x601000 0x1000) ((ref_vk X86)\<lparr>uc := u\<rparr>)
    \<and> fst (restore_snapshot ref_engine ref_ctx \<lparr>sn_context = (\<lambda>_. 0), sn_regions = ref_regions, sn_writable_regions = [],
         sn_linux_creds = linux_creds (ref_vk X86), sn_guest_rt_sigactions = Map.empty, sn_guest_rt_sigmask = [],
         sn_guest_prctl_name = [], sn_guest_pdeathsig = 0, sn_guest_dumpable = 1\<rparr> vk1) \<noteq> Ok ()"
proof -
  let ?s = "\<lparr>sn_context = (\<lambda>_. 0), sn_regions = ref_regions, sn_writable_regions = [],
         sn_linux_creds = linux_creds (ref_vk X86), sn_guest_rt_sigactions = Map.empty, sn_guest_rt_sigmask = [],
         sn_guest_prctl_name = [], sn_guest_pdeathsig = 0, sn_guest_dumpable = 1\<rparr>"
  have call: "uc_mem_unmap ref_engine 0x601000 0x1000 (uc (ref_vk X86)) = (Inr (), ref_fill 0x601000 0x1000 None (uc (ref_vk X86)))"
    by (simp add: ref_engine_def pages_def ref_regions_def in_region_def)
  let ?vk1 = "set_regions (remove_range ref_regions 0x601000 0x1000) ((ref_vk X86)\<lparr>uc := ref_fill 0x601000 0x1000 None (uc (ref_vk X86))\<rparr>)"
  have sync: "in_sync ref_view ?vk1"
    using unmap_sync [OF ref_engine_maps ref_in_sync call] by simp
  have ok: "regions_ok (sn_regions ?s)" "paged (sn_regions ?s)" using ref_regions_ok by simp_all
  let ?r = "\<lparr>r_start = 0x600000, r_size = 0x2000, r_prot = Prot_ALL, r_info = HEAP\<rparr>"
  have r: "?r \<in> set (sn_regions ?s)" "in_region ?r 0x600000" "in_region ?r 0x601000"
    by (simp_all add: ref_regions_def in_region_def)
  have p: "region_at (regions ?vk1) 0x600000 \<noteq> None" "region_at (regions ?vk1) 0x601000 = None"
    by (simp_all add: remove_range_def ref_regions_def cut_region_def sat_add_def sat_sub_def in_region_def)
  from partial_unmap_breaks_restore [OF ref_engine_maps sync ok r p, of ref_ctx] call show ?thesis by blast
qed

theorem restore_keeps_break_witness:
  "\<exists>snap vk'. restore_snapshot ref_engine ref_ctx snap (ref_dirty X86) = (Ok (), vk') \<and> regions vk' = ref_regions
    \<and> fst (sys_brk ref_engine (subctx_new [0, 0, 0, 0, 0, 0]) vk') = Ok 0x603000 \<and> region_at (regions vk') 0x602fff = None"
proof -
  obtain snap vk1 where cap: "capture_snapshot ref_engine ref_ctx (ref_vk X86) = (Ok snap, vk1)" and
    s: "sn_regions snap = ref_regions" "sn_writable_regions snap = [\<lparr>ws_start = 0x400000, ws_data = guest_bytes ref_content 0x400000 0x1000 (ref_vk X86)\<rparr>,
       \<lparr>ws_start = 0x600000, ws_data = guest_bytes ref_content 0x600000 0x2000 (ref_vk X86)\<rparr>]"
    using ref_capture [of X86] by fastforce
  obtain vk' where res: "restore_snapshot ref_engine ref_ctx snap (ref_dirty X86) = (Ok (), vk')"
    using ref_restore [OF s] by auto
  have ok: "regions_ok (sn_regions snap)" "paged (sn_regions snap)" using ref_regions_ok s(1) by simp_all
  have free: "region_at ref_regions 0x602fff = None" by (simp add: ref_regions_def in_region_def)
  have "heap_addr_exit (vmem (ref_dirty X86)) = 0x603000" by (simp add: ref_dirty_def)
  with restore_keeps_break [OF ref_engine_maps ref_dirty_sync ok res, of 0 0 0 0 0] res s(1) free show ?thesis
    by (intro exI [of _ snap] exI [of _ vk']) simp
qed

text \<open>
  An execution that fails at once, in the prepared range of a soft emulator and of one that is not; and one
  whose callback panics.
\<close>

lemma ref_prepared:
  "prepared_start (em_vk (ref_machine (set_prepared_execution_range a b vk))) = Some a"
  "prepared_end (em_vk (ref_machine (set_prepared_execution_range a b vk))) = Some b"
  "mc_unwound (fst (ref_machine vk)) = Ok ()"
  by (simp_all add: set_prepared_execution_range_def ref_machine_def)

theorem prepared_run_verdict_witness:
  "(\<exists>st2. run_valkyrie_prepared ref_engine (\<lambda>a b t n st. (Inl 1, st)) (ref_machine
      (set_prepared_execution_range 0x400000 0x400010 (set_soft_unicorn_errors True (ref_vk X86)))) = (Ok ExitCrash, st2)
    \<and> vstate (em_vk st2) = Ended)
   \<and> (\<exists>st2. run_valkyrie_prepared ref_engine (\<lambda>a b t n st. (Inl 1, st)) (ref_machine
      (set_prepared_execution_range 0x400000 0x400010 (ref_vk X86))) = (Ok ExitCrash, st2) \<and> crashed (em_vk st2))
   \<and> fst (run_valkyrie_prepared ref_engine (\<lambda>a b t n st. (Inr (), (fst st)\<lparr>mc_unwound := Panic\<rparr>, snd st)) (ref_machine
      (set_prepared_execution_range 0x400000 0x400010 (ref_vk X86)))) = Diverges"
proof -
  let ?soft = "set_prepared_execution_range 0x400000 0x400010 (set_soft_unicorn_errors True (ref_vk X86))"
  let ?emu = "\<lambda>a b t n st. (Inl 1, st)" and ?stuck = "\<lambda>a b t n st. (Inr (), (fst st)\<lparr>mc_unwound := Panic\<rparr>, snd st)"
  have "soft_unicorn_errors ?soft"
    by (simp add: set_prepared_execution_range_def set_soft_unicorn_errors_def)
  moreover note range = ref_prepared(1,2) [of "0x400000" "0x400010"]
  note prepared_run_verdict [where emu = ?emu and P = ref_engine, OF range refl, of "set_soft_unicorn_errors True (ref_vk X86)"]
    prepared_run_verdict [where emu = ?emu and P = ref_engine, OF range refl, of "ref_vk X86"]
    prepared_run_verdict [where emu = ?stuck and P = ref_engine, OF range refl, of "ref_vk X86"]
  ultimately show ?thesis by (auto simp: ref_prepared)
qed

text \<open>Two executions of one block and one of another, over a map of eight slots.\<close>

theorem coverage_counts_blocks_witness:
  "\<exists>st' m hk. install_shared_block_coverage ref_hooks ((fst (ref_machine (ref_vk X86)))\<lparr>cov_map := replicate 8 9,
        cov_state := \<lparr>cv_len = 8, cv_prev_loc = 0\<rparr>\<rparr>, hooks_new) = (Ok (), st')
    \<and> block_events st' [0x400010, 0x400000, 0x400010] = (m, hk) \<and> cov_map m ! 1 = 2"
proof -
  let ?st = "((fst (ref_machine (ref_vk X86)))\<lparr>cov_map := replicate 8 9, cov_state := \<lparr>cv_len = 8, cv_prev_loc = 0\<rparr>\<rparr>, hooks_new)"
  obtain st' where i: "install_shared_block_coverage ref_hooks ?st = (Ok (), st')"
    by (simp add: install_shared_block_coverage_def on_hooks_def hook_block_def ensure_block_dispatcher_def
        ensure_dispatcher_def ref_machine_def hooks_new_def ref_hooks_def alloc_id_def Let_def)
  obtain m hk where e: "block_events st' [0x400010, 0x400000, 0x400010] = (m, hk)" by (rule prod.exhaust)
  have none: "hooks_of (snd ?st) HT_BLOCK = []" and idle: "mc_unwound (fst ?st) = Ok ()"
    by (simp_all add: hooks_new_def ref_machine_def)
  have fits: "coverage_fits (cov_map (fst ?st)) (cov_state (fst ?st))" by (simp add: coverage_fits_def)
  have slots: "block_slots 8 0 [0x400010, 0x400000, 0x400010] = [1, 0, 1]" by (simp add: Let_def)
  from coverage_counts_blocks [OF i none idle fits e] slots have "unat (cov_map m ! 1) = 2" by simp
  then have "cov_map m ! 1 = 2" by (simp add: word_unat_eq_iff)
  with i e show ?thesis by blast
qed

end
