(* ===== verification/Vk_IoHost.thy ===== *)
theory Vk_IoHost
  imports Vk_Fs
begin

text \<open>
  What \<open>src/src/os/syscall/io.rs\<close> and \<open>network.rs\<close> take from the host: the calls of \<open>libc\<close> and of Rust's
  \<open>std::fs\<close> and \<open>std::io\<close>, as the records \<open>io_host\<close>, \<open>path_host\<close> and
  \<open>net_host\<close> over the host's state \<open>'h\<close>. A C function returns its raw
  result; a buffer it fills is the function of its bytes, of which the code uses a prefix. A host path is a
  string without NUL. The C structures are those of a 64-bit Linux host.
\<close>

section \<open>Structures of the C library\<close>

text \<open>\<open>st_image\<close> is the memory image of the whole structure, padding included.\<close>

record libc_stat =
  st_dev :: u64
  st_ino :: u64
  st_nlink :: u64
  st_mode :: u32
  st_uid :: u32
  st_gid :: u32
  st_rdev :: u64
  st_size :: i64
  st_blksize :: i64
  st_blocks :: i64
  st_atime :: i64
  st_atime_nsec :: i64
  st_mtime :: i64
  st_mtime_nsec :: i64
  st_ctime :: i64
  st_ctime_nsec :: i64
  st_image :: bytes

record libc_statfs64 =
  f_type :: i64
  f_bsize :: i64
  f_blocks :: u64
  f_bfree :: u64
  f_bavail :: u64
  f_files :: u64
  f_ffree :: u64
  f_fsid :: u64
  f_namelen :: i64
  f_frsize :: i64
  f_flags :: i64
  f_image :: bytes

record timespec =
  ts_sec :: i64
  ts_nsec :: i64

record itimerspec =
  it_interval :: timespec
  it_value :: timespec

datatype SeekFrom = SeekStart u64 | SeekEnd i64 | SeekCurrent i64

text \<open>Sizes of the structures that are copied as bytes.\<close>

definition POLLFD_SIZE :: nat where "POLLFD_SIZE = 8"
definition EPOLL_EVENT_SIZE :: nat where "EPOLL_EVENT_SIZE = 12"
definition WINSIZE_SIZE :: nat where "WINSIZE_SIZE = 8"
definition FD_SET_SIZE :: nat where "FD_SET_SIZE = 128"
definition SIGSET_SIZE :: nat where "SIGSET_SIZE = 128"

lemmas struct_sizes = POLLFD_SIZE_def EPOLL_EVENT_SIZE_def WINSIZE_SIZE_def FD_SET_SIZE_def SIGSET_SIZE_def

section \<open>The calls\<close>

type_synonym 'h libc_call = "'h \<Rightarrow> i32 \<times> 'h"
type_synonym 'h libc_fill = "'h \<Rightarrow> (i64 \<times> (nat \<Rightarrow> u8)) \<times> 'h"
  \<comment> \<open>a \<open>ssize_t\<close> and the caller's buffer\<close>
type_synonym 'h std_read = "'h \<Rightarrow> (nat \<times> (nat \<Rightarrow> u8)) option \<times> 'h"
type_synonym 'h std_write = "'h \<Rightarrow> nat option \<times> 'h"

text \<open>Streams and descriptors; then files and directories by path; then sockets, events and timers.\<close>

record 'h io_host =
  stdin_read :: "nat \<Rightarrow> 'h std_read"
  stdout_write :: "bytes \<Rightarrow> 'h std_write"
  stderr_write :: "bytes \<Rightarrow> 'h std_write"
  file_write :: "nat \<Rightarrow> bytes \<Rightarrow> 'h std_write"
  file_seek :: "nat \<Rightarrow> SeekFrom \<Rightarrow> 'h \<Rightarrow> (i32 option + u64) \<times> 'h"
    \<comment> \<open>on the left the error's \<open>raw_os_error\<close>\<close>
  file_drop :: "nat \<Rightarrow> 'h \<Rightarrow> 'h"
    \<comment> \<open>dropping a \<open>File\<close> closes it\<close>
  libc_read :: "i32 \<Rightarrow> nat \<Rightarrow> 'h libc_fill"
  libc_pread64 :: "i32 \<Rightarrow> nat \<Rightarrow> i64 \<Rightarrow> 'h libc_fill"
  libc_write :: "i32 \<Rightarrow> bytes \<Rightarrow> 'h \<Rightarrow> i64 \<times> 'h"
  libc_lseek :: "i32 \<Rightarrow> i64 \<Rightarrow> i32 \<Rightarrow> 'h \<Rightarrow> i64 \<times> 'h"
  libc_open :: "string \<Rightarrow> i32 \<Rightarrow> u32 \<Rightarrow> 'h libc_call"
  libc_openat :: "i32 \<Rightarrow> string \<Rightarrow> i32 \<Rightarrow> u32 \<Rightarrow> 'h libc_call"
  libc_close :: "i32 \<Rightarrow> 'h libc_call"
  libc_dup :: "i32 \<Rightarrow> 'h libc_call"
  libc_fcntl :: "i32 \<Rightarrow> i32 \<Rightarrow> i32 \<Rightarrow> 'h libc_call"
  libc_ioctl_int :: "i32 \<Rightarrow> u64 \<Rightarrow> i32 \<Rightarrow> 'h \<Rightarrow> (i32 \<times> i32) \<times> 'h"
    \<comment> \<open>the argument points to a \<open>c_int\<close>, returned after the call\<close>
  libc_ioctl_buf :: "i32 \<Rightarrow> u64 \<Rightarrow> bytes \<Rightarrow> 'h \<Rightarrow> (i32 \<times> (nat \<Rightarrow> u8)) \<times> 'h"
  libc_ioctl_val :: "i32 \<Rightarrow> u64 \<Rightarrow> u64 \<Rightarrow> 'h libc_call"

record 'h path_host =
  read_link :: "string \<Rightarrow> 'h \<Rightarrow> string option \<times> 'h"
  libc_access :: "string \<Rightarrow> i32 \<Rightarrow> 'h libc_call"
  libc_fstat :: "i32 \<Rightarrow> 'h \<Rightarrow> (i32 \<times> libc_stat) \<times> 'h"
  libc_fstatat :: "i32 \<Rightarrow> string \<Rightarrow> i32 \<Rightarrow> 'h \<Rightarrow> (i32 \<times> libc_stat) \<times> 'h"
  libc_statx :: "i32 \<Rightarrow> string \<Rightarrow> i32 \<Rightarrow> u32 \<Rightarrow> 'h \<Rightarrow> (i64 \<times> Statx) \<times> 'h"
  libc_statfs :: "string \<Rightarrow> 'h \<Rightarrow> (i32 \<times> libc_statfs64) \<times> 'h"
  libc_getdents64 :: "i32 \<Rightarrow> nat \<Rightarrow> 'h libc_fill"
  libc_getxattr :: "string \<Rightarrow> string \<Rightarrow> nat \<Rightarrow> 'h libc_fill"
  libc_lgetxattr :: "string \<Rightarrow> string \<Rightarrow> nat \<Rightarrow> 'h libc_fill"
  libc_fgetxattr :: "i32 \<Rightarrow> string \<Rightarrow> nat \<Rightarrow> 'h libc_fill"
  libc_renameat2 :: "i32 \<Rightarrow> string \<Rightarrow> i32 \<Rightarrow> string \<Rightarrow> u32 \<Rightarrow> 'h libc_call"
  libc_posix_fadvise :: "i32 \<Rightarrow> i64 \<Rightarrow> i64 \<Rightarrow> i32 \<Rightarrow> 'h libc_call"
  libc_unlink :: "string \<Rightarrow> 'h libc_call"
  libc_chmod :: "string \<Rightarrow> u32 \<Rightarrow> 'h libc_call"

record 'h net_host =
  libc_poll :: "bytes \<Rightarrow> u64 \<Rightarrow> i32 \<Rightarrow> 'h \<Rightarrow> (i32 \<times> (nat \<Rightarrow> u8)) \<times> 'h"
  libc_epoll_create1 :: "i32 \<Rightarrow> 'h libc_call"
  libc_epoll_ctl :: "i32 \<Rightarrow> i32 \<Rightarrow> i32 \<Rightarrow> bytes option \<Rightarrow> 'h libc_call"
  libc_epoll_wait :: "i32 \<Rightarrow> i32 \<Rightarrow> i32 \<Rightarrow> 'h \<Rightarrow> (i32 \<times> (nat \<Rightarrow> u8)) \<times> 'h"
  libc_timerfd_create :: "i32 \<Rightarrow> i32 \<Rightarrow> 'h libc_call"
  libc_timerfd_settime :: "i32 \<Rightarrow> i32 \<Rightarrow> itimerspec \<Rightarrow> bool \<Rightarrow> 'h \<Rightarrow> (i32 \<times> itimerspec) \<times> 'h"
    \<comment> \<open>whether the old value is asked for, and the old value\<close>
  libc_socket :: "i32 \<Rightarrow> i32 \<Rightarrow> i32 \<Rightarrow> 'h libc_call"
  libc_socketpair :: "i32 \<Rightarrow> i32 \<Rightarrow> i32 \<Rightarrow> 'h \<Rightarrow> (i32 \<times> i32 \<times> i32) \<times> 'h"
  libc_connect :: "i32 \<Rightarrow> bytes \<Rightarrow> u32 \<Rightarrow> 'h libc_call"
  libc_shutdown :: "i32 \<Rightarrow> i32 \<Rightarrow> 'h libc_call"
  libc_getsockopt :: "i32 \<Rightarrow> i32 \<Rightarrow> i32 \<Rightarrow> u32 \<Rightarrow> 'h \<Rightarrow> (i32 \<times> u32 \<times> (nat \<Rightarrow> u8)) \<times> 'h"
    \<comment> \<open>the length of the buffer; the length and the buffer after the call\<close>
  libc_sendto :: "i32 \<Rightarrow> bytes \<Rightarrow> i32 \<Rightarrow> bytes option \<Rightarrow> 'h \<Rightarrow> i64 \<times> 'h"
  libc_recvfrom :: "i32 \<Rightarrow> nat \<Rightarrow> i32 \<Rightarrow> bool \<Rightarrow> 'h \<Rightarrow> ((i64 \<times> (nat \<Rightarrow> u8)) \<times> u32 \<times> (nat \<Rightarrow> u8)) \<times> 'h"
    \<comment> \<open>whether the peer is asked for; the data, the peer's length and its buffer\<close>
  libc_pselect :: "i32 \<Rightarrow> bytes option \<Rightarrow> bytes option \<Rightarrow> bytes option \<Rightarrow> timespec option \<Rightarrow> bytes option
    \<Rightarrow> 'h \<Rightarrow> (i32 \<times> (nat \<Rightarrow> u8) \<times> (nat \<Rightarrow> u8) \<times> (nat \<Rightarrow> u8)) \<times> 'h"

definition on_host :: "('h \<Rightarrow> 'a \<times> 'h) \<Rightarrow> ('u, 'h) Valkyrie \<Rightarrow> 'a \<times> ('u, 'h) Valkyrie" where
  "on_host f vk = (case f (host vk) of (a, h) \<Rightarrow> (a, vk\<lparr>host := h\<rparr>))"

section \<open>Steps the handlers share\<close>

text \<open>A call whose only result is an errno or the number it returned.\<close>

definition errno_or :: "('u, 'h) platform \<Rightarrow> bool \<Rightarrow> u64 \<Rightarrow> ('u, 'h) Valkyrie \<Rightarrow> u64 vk_outcome \<times> ('u, 'h) Valkyrie" where
  "errno_or P failed v vk = (Ok (if failed then last_errno P vk else v), vk)"

text \<open>
  \<open>&buffer[..n]\<close> of a buffer of \<open>cap\<close> bytes is written to the guest when \<open>wanted\<close> and not empty, and \<open>n\<close> is
  the result; a prefix longer than the buffer panics.
\<close>

definition deliver :: "('u, 'h) platform \<Rightarrow> bool \<Rightarrow> u64 \<Rightarrow> nat \<Rightarrow> nat \<Rightarrow> (nat \<Rightarrow> u8) \<Rightarrow> ('u, 'h, u64) vk_call" where
  "deliver P wanted addr cap n buf vk =
     (if \<not> wanted \<or> n = 0 then (Ok (of_nat n), vk)
      else if cap < n then (Panic, vk)
      else and_then (mem_write P addr (map buf [0..<n]) vk) (\<lambda>_ vk. (Ok (of_nat n), vk)))"

text \<open>The same after a C call that filled the buffer.\<close>

definition deliver_filled ::
  "('u, 'h) platform \<Rightarrow> bool \<Rightarrow> u64 \<Rightarrow> nat \<Rightarrow> (i64 \<times> (nat \<Rightarrow> u8)) \<times> ('u, 'h) Valkyrie \<Rightarrow> u64 vk_outcome \<times> ('u, 'h) Valkyrie" where
  "deliver_filled P wanted addr cap r =
     (case r of ((n, buf), vk) \<Rightarrow>
        if n <s 0 then (Ok (last_errno P vk), vk) else deliver P wanted addr cap (unat n) buf vk)"

text \<open>\<open>vec![0u8; count]\<close>, then \<open>k\<close>.\<close>

definition with_buffer :: "nat \<Rightarrow> ('u, 'h, 'a) vk_call \<Rightarrow> ('u, 'h, 'a) vk_call" where
  "with_buffer count k vk = (if 2 ^ 63 \<le> count then (Panic, vk) else k vk)"

text \<open>\<open>CString::new\<close> fails on a NUL.\<close>

definition cstring_new :: "string \<Rightarrow> string option" where
  "cstring_new s = (if CHR 0x00 \<in> set s then None else Some s)"

definition guest_path_at :: "('u, 'h) platform \<Rightarrow> ('u, 'h) Valkyrie \<Rightarrow> i32 \<Rightarrow> string \<Rightarrow> string vk_outcome" where
  "guest_path_at P vk dirfd path =
     (case get_path_at P vk dirfd path of
        Ok (Some p) \<Rightarrow> Ok p
      | Ok None \<Rightarrow> Err (Io EBADF)
      | Err e \<Rightarrow> Err e
      | Panic \<Rightarrow> Panic
      | Diverges \<Rightarrow> Diverges)"

text \<open>A host path made from a guest string: EBADF when there is none, EINVAL when it is not a C string.\<close>

definition with_host_path ::
  "('u, 'h) platform \<Rightarrow> i32 \<Rightarrow> string \<Rightarrow> (string \<Rightarrow> ('u, 'h, u64) vk_call) \<Rightarrow> ('u, 'h, u64) vk_call" where
  "with_host_path P dirfd path k vk =
     (case guest_path_at P vk dirfd path of
        Err _ \<Rightarrow> (Ok (neg_errno EBADF), vk)
      | Panic \<Rightarrow> (Panic, vk)
      | Diverges \<Rightarrow> (Diverges, vk)
      | Ok host_path \<Rightarrow>
          (case cstring_new host_path of
             None \<Rightarrow> (Ok (neg_errno EINVAL), vk)
           | Some c_path \<Rightarrow> k c_path vk))"

text \<open>
  A descriptor of the host: \<open>from_raw_fd\<close> and \<open>as_raw_fd\<close>. Inserting into the table drops the entry it
  replaces, which closes it.
\<close>

definition from_raw_fd :: "i32 \<Rightarrow> nat" where "from_raw_fd fd = unat fd"
definition as_raw_fd :: "nat \<Rightarrow> i32" where "as_raw_fd file = of_nat file"

lemma as_raw_from_raw [simp]: "as_raw_fd (from_raw_fd fd) = fd"
  by (simp add: as_raw_fd_def from_raw_fd_def)

definition table_insert :: "'h io_host \<Rightarrow> u64 \<Rightarrow> VkFile \<Rightarrow> ('u, 'h) Valkyrie \<Rightarrow> ('u, 'h) Valkyrie" where
  "table_insert H fd f vk =
     (let vk' = vk\<lparr>fd_table := files_insert fd f (fd_table vk)\<rparr> in
      case fd_files (fd_table vk) fd of
        None \<Rightarrow> vk'
      | Some g \<Rightarrow> vk'\<lparr>host := file_drop H (vf_file g) (host vk')\<rparr>)"

definition host_fd_for_guest :: "('u, 'h) Valkyrie \<Rightarrow> u64 \<Rightarrow> i32 option" where
  "host_fd_for_guest vk fd =
     (if fd \<le> 2 then Some (ucast fd)
      else map_option (\<lambda>f. as_raw_fd (vf_file f)) (fd_files (fd_table vk) fd))"

subsection \<open>Constants of the Linux ABI\<close>

definition EAGAIN :: i32 where "EAGAIN = 11"
definition SEEK_SET :: i32 where "SEEK_SET = 0"
definition SEEK_CUR :: i32 where "SEEK_CUR = 1"
definition SEEK_END :: i32 where "SEEK_END = 2"
definition F_SETFL :: i32 where "F_SETFL = 4"
definition AT_EMPTY_PATH :: i32 where "AT_EMPTY_PATH = 0x1000"
definition FIONBIO :: u64 where "FIONBIO = 0x5421"
definition FIONREAD :: u64 where "FIONREAD = 0x541B"
definition TIOCINQ :: u64 where "TIOCINQ = 0x541B"
definition TIOCOUTQ :: u64 where "TIOCOUTQ = 0x5411"
definition TIOCGWINSZ :: u64 where "TIOCGWINSZ = 0x5413"
definition FUTEX_WAIT :: i32 where "FUTEX_WAIT = 0"
definition FUTEX_WAKE :: i32 where "FUTEX_WAKE = 1"
definition FUTEX_REQUEUE :: i32 where "FUTEX_REQUEUE = 3"
definition FUTEX_WAIT_BITSET :: i32 where "FUTEX_WAIT_BITSET = 9"
definition FUTEX_WAKE_BITSET :: i32 where "FUTEX_WAKE_BITSET = 10"
definition FUTEX_PRIVATE_FLAG :: i32 where "FUTEX_PRIVATE_FLAG = 128"
definition FUTEX_CLOCK_REALTIME :: i32 where "FUTEX_CLOCK_REALTIME = 256"

end
