(* ===== verification/Vk_IoMeta.thy ===== *)
theory Vk_IoMeta
  imports Vk_IoHost
begin

text \<open>
  The system calls of \<open>src/src/os/syscall/io.rs\<close> on paths and on what the host reports of files: \<open>stat\<close> and
  its variants, \<open>statx\<close>, \<open>statfs\<close>, extended attributes, links, directories, \<open>access\<close>, \<open>rename\<close>, \<open>unlink\<close>,
  \<open>chmod\<close>, \<open>fadvise\<close>. Log lines are left out.
\<close>

section \<open>Structures for a 32-bit guest\<close>

definition pack_linux_x86_stat64_le :: "libc_stat \<Rightarrow> bytes" where
  "pack_linux_x86_stat64_le st =
     to_le_bytes (st_dev st) @ to_le_bytes (0 :: u32) @ to_le_bytes (ucast (st_ino st) :: u32)
     @ to_le_bytes (st_mode st) @ to_le_bytes (ucast (st_nlink st) :: u32) @ to_le_bytes (st_uid st)
     @ to_le_bytes (st_gid st) @ to_le_bytes (st_rdev st) @ to_le_bytes (0 :: u32) @ to_le_bytes (st_size st)
     @ to_le_bytes (ucast (st_blksize st) :: u32) @ to_le_bytes (st_blocks st)
     @ to_le_bytes (ucast (st_atime st) :: u32) @ to_le_bytes (ucast (st_atime_nsec st) :: u32)
     @ to_le_bytes (ucast (st_mtime st) :: u32) @ to_le_bytes (ucast (st_mtime_nsec st) :: u32)
     @ to_le_bytes (ucast (st_ctime st) :: u32) @ to_le_bytes (ucast (st_ctime_nsec st) :: u32)
     @ to_le_bytes (st_ino st)"

definition fsid_bytes :: "u64 \<Rightarrow> bytes" where
  "fsid_bytes fsid = to_le_bytes fsid"

definition pack_linux_x86_statfs_le :: "libc_statfs64 \<Rightarrow> bytes" where
  "pack_linux_x86_statfs_le st =
     (let out = [];
          out = push_u32_le out (ucast (f_type st));
          out = push_u32_le out (ucast (f_bsize st));
          out = push_u32_le out (ucast (f_blocks st));
          out = push_u32_le out (ucast (f_bfree st));
          out = push_u32_le out (ucast (f_bavail st));
          out = push_u32_le out (ucast (f_files st));
          out = push_u32_le out (ucast (f_ffree st));
          out = out @ fsid_bytes (f_fsid st);
          out = push_u32_le out (ucast (f_namelen st));
          out = push_u32_le out (ucast (f_frsize st));
          out = push_u32_le out (ucast (f_flags st))
      in foldl push_u32_le out [0, 0, 0, 0])"

text \<open>The packed structure \<open>LinuxX86StatFs64\<close>, field after field without padding.\<close>

definition pack_linux_x86_statfs64_le :: "libc_statfs64 \<Rightarrow> bytes" where
  "pack_linux_x86_statfs64_le st =
     to_le_bytes (ucast (f_type st) :: u32) @ to_le_bytes (ucast (f_bsize st) :: u32)
     @ to_le_bytes (f_blocks st) @ to_le_bytes (f_bfree st) @ to_le_bytes (f_bavail st)
     @ to_le_bytes (f_files st) @ to_le_bytes (f_ffree st) @ fsid_bytes (f_fsid st)
     @ to_le_bytes (ucast (f_namelen st) :: u32) @ to_le_bytes (ucast (f_frsize st) :: u32)
     @ to_le_bytes (ucast (f_flags st) :: u32) @ concat (replicate 4 (to_le_bytes (0 :: u32)))"

section \<open>stat\<close>

text \<open>The caller answers \<open>last_errno\<close> whatever the error, so an error made without a host call reports a stale errno.\<close>

definition stat_at :: "('u, 'h) platform \<Rightarrow> 'h path_host \<Rightarrow> i32 \<Rightarrow> string \<Rightarrow> u32 \<Rightarrow> ('u, 'h, libc_stat) vk_call" where
  "stat_at P F dirfd file_name flags vk =
     and_then
       (if file_name = [] \<and> flags AND AT_EMPTY_PATH \<noteq> 0
        then (case on_host (libc_fstatat F dirfd [] flags) vk of (r, vk) \<Rightarrow> (Ok r, vk))
        else case get_path_at P vk dirfd file_name of
          Ok None \<Rightarrow> (Err (Io EBADF), vk)
        | Ok (Some abs_path) \<Rightarrow>
            (case cstring_new abs_path of
               None \<Rightarrow> (Err (Io EINVAL), vk)
             | Some c_path \<Rightarrow> (case on_host (libc_fstatat F AT_FDCWD c_path flags) vk of (r, vk) \<Rightarrow> (Ok r, vk)))
        | Err e \<Rightarrow> (Err e, vk)
        | Panic \<Rightarrow> (Panic, vk)
        | Diverges \<Rightarrow> (Diverges, vk))
       (\<lambda>(ret, st) vk. (if ret = - 1 then Err (Io (libc_errno P (host vk))) else Ok st, vk))"

text \<open>\<open>match r { Ok(st) => k(st), Err(_) => return Ok(last_errno()) }\<close>\<close>

definition or_last_errno ::
  "('u, 'h) platform \<Rightarrow> 'a vk_outcome \<times> ('u, 'h) Valkyrie \<Rightarrow> ('a \<Rightarrow> ('u, 'h, u64) vk_call)
     \<Rightarrow> u64 vk_outcome \<times> ('u, 'h) Valkyrie" where
  "or_last_errno P r k =
     (case r of
        (Ok a, vk) \<Rightarrow> k a vk
      | (Err _, vk) \<Rightarrow> (Ok (last_errno P vk), vk)
      | (Panic, vk) \<Rightarrow> (Panic, vk)
      | (Diverges, vk) \<Rightarrow> (Diverges, vk))"

definition write_guest_stat_native :: "('u, 'h) platform \<Rightarrow> u64 \<Rightarrow> libc_stat \<Rightarrow> ('u, 'h, u64) vk_call" where
  "write_guest_stat_native P statbuf_ptr st vk =
     and_then (mem_write P statbuf_ptr (st_image st) vk) (\<lambda>_ vk. (Ok 0, vk))"

definition write_guest_stat64 :: "('u, 'h) platform \<Rightarrow> u64 \<Rightarrow> libc_stat \<Rightarrow> ('u, 'h, u64) vk_call" where
  "write_guest_stat64 P statbuf_ptr st vk =
     and_then (mem_write P statbuf_ptr (pack_linux_x86_stat64_le st) vk) (\<lambda>_ vk. (Ok 0, vk))"

definition sys_stat :: "('u, 'h) platform \<Rightarrow> 'h path_host \<Rightarrow> ('u, 'h) sys_fn" where
  "sys_stat P F sctx vk =
     (let pathname_ptr = arg0 sctx; statbuf_ptr = arg1 sctx in
      and_then (read_guest_string P pathname_ptr vk) (\<lambda>file_name vk.
        or_last_errno P (stat_at P F AT_FDCWD file_name 0 vk) (write_guest_stat_native P statbuf_ptr)))"

definition sys_stat64 :: "('u, 'h) platform \<Rightarrow> 'h path_host \<Rightarrow> ('u, 'h) sys_fn" where
  "sys_stat64 P F sctx vk =
     (let pathname_ptr = arg0 sctx; statbuf_ptr = arg1 sctx in
      and_then (read_guest_string P pathname_ptr vk) (\<lambda>file_name vk.
        or_last_errno P (stat_at P F AT_FDCWD file_name 0 vk) (write_guest_stat64 P statbuf_ptr)))"

definition sys_fstat :: "('u, 'h) platform \<Rightarrow> 'h path_host \<Rightarrow> ('u, 'h) sys_fn" where
  "sys_fstat P F sctx vk =
     (case on_host (libc_fstat F (ucast (arg0 sctx))) vk of
        ((ret, st), vk) \<Rightarrow>
          if ret = - 1 then (Ok (last_errno P vk), vk) else write_guest_stat_native P (arg1 sctx) st vk)"

definition sys_fstat64 :: "('u, 'h) platform \<Rightarrow> 'h path_host \<Rightarrow> ('u, 'h) sys_fn" where
  "sys_fstat64 P F sctx vk =
     (case on_host (libc_fstat F (ucast (arg0 sctx))) vk of
        ((ret, st), vk) \<Rightarrow>
          if ret = - 1 then (Ok (last_errno P vk), vk) else write_guest_stat64 P (arg1 sctx) st vk)"

definition sys_newfstatat :: "('u, 'h) platform \<Rightarrow> 'h path_host \<Rightarrow> ('u, 'h) sys_fn" where
  "sys_newfstatat P F sctx vk =
     (let dirfd = (ucast (arg0 sctx) :: i32); pathname_ptr = arg1 sctx; statbuf_ptr = arg2 sctx;
          flags = (ucast (arg3 sctx) :: u32) in
      and_then (read_guest_string P pathname_ptr vk) (\<lambda>file_name vk.
        or_last_errno P (stat_at P F dirfd file_name flags vk) (write_guest_stat_native P statbuf_ptr)))"

definition sys_fstatat64 :: "('u, 'h) platform \<Rightarrow> 'h path_host \<Rightarrow> ('u, 'h) sys_fn" where
  "sys_fstatat64 P F sctx vk =
     (let dirfd = (ucast (arg0 sctx) :: i32); pathname_ptr = arg1 sctx; statbuf_ptr = arg2 sctx;
          flags = (ucast (arg3 sctx) :: u32) in
      and_then (read_guest_string P pathname_ptr vk) (\<lambda>file_name vk.
        or_last_errno P (stat_at P F dirfd file_name flags vk) (write_guest_stat64 P statbuf_ptr)))"

definition sys_statx :: "('u, 'h) platform \<Rightarrow> 'h path_host \<Rightarrow> ('u, 'h) sys_fn" where
  "sys_statx P F sctx vk =
     (let dfd = (ucast (arg0 sctx) :: i32); file_name_addr = arg1 sctx; flags = (ucast (arg2 sctx) :: u32);
          mask = (ucast (arg3 sctx) :: u32); statx_buf_addr = arg4 sctx;
          finish = (\<lambda>((ret, st), vk).
            if ret = - 1 then (Ok (last_errno P vk), vk)
            else and_then (mem_write P statx_buf_addr (pack_statx_le st) vk) (\<lambda>_ vk. (Ok 0, vk))) in
      and_then (read_guest_string P file_name_addr vk) (\<lambda>file_name vk.
        if file_name = [] \<and> flags AND AT_EMPTY_PATH \<noteq> 0
        then finish (on_host (libc_statx F dfd [] flags mask) vk)
        else with_host_path P dfd file_name (\<lambda>c_path vk.
          finish (on_host (libc_statx F AT_FDCWD c_path flags mask) vk)) vk))"

section \<open>statfs\<close>

definition statfs_for_path :: "('u, 'h) platform \<Rightarrow> 'h path_host \<Rightarrow> string \<Rightarrow> ('u, 'h, libc_statfs64) vk_call" where
  "statfs_for_path P F path vk =
     (case get_path_at P vk AT_FDCWD path of
        Ok None \<Rightarrow> (Err (Io EBADF), vk)
      | Ok (Some abs_path) \<Rightarrow>
          (case cstring_new abs_path of
             None \<Rightarrow> (Err (Io EINVAL), vk)
           | Some c_path \<Rightarrow>
               (case on_host (libc_statfs F c_path) vk of
                  ((ret, st), vk) \<Rightarrow> (if ret = - 1 then Err (Io (libc_errno P (host vk))) else Ok st, vk)))
      | Err e \<Rightarrow> (Err e, vk)
      | Panic \<Rightarrow> (Panic, vk)
      | Diverges \<Rightarrow> (Diverges, vk))"

definition sys_statfs :: "('u, 'h) platform \<Rightarrow> 'h path_host \<Rightarrow> ('u, 'h) sys_fn" where
  "sys_statfs P F sctx vk =
     (let path_ptr = arg0 sctx; statfs_buf_ptr = arg1 sctx in
      and_then (read_guest_string P path_ptr vk) (\<lambda>path vk.
        or_last_errno P (statfs_for_path P F path vk) (\<lambda>st vk.
          let bytes = (case c_arch (cfg vk) of X86_64 \<Rightarrow> f_image st | X86 \<Rightarrow> pack_linux_x86_statfs_le st) in
          and_then (mem_write P statfs_buf_ptr bytes vk) (\<lambda>_ vk. (Ok 0, vk)))))"

definition sys_statfs64 :: "('u, 'h) platform \<Rightarrow> 'h path_host \<Rightarrow> ('u, 'h) sys_fn" where
  "sys_statfs64 P F sctx vk =
     (let path_ptr = arg0 sctx; buf_size = unat (arg1 sctx); statfs_buf_ptr = arg2 sctx in
      and_then (read_guest_string P path_ptr vk) (\<lambda>path vk.
        or_last_errno P (statfs_for_path P F path vk) (\<lambda>st vk.
          let bytes = (case c_arch (cfg vk) of X86_64 \<Rightarrow> f_image st | X86 \<Rightarrow> pack_linux_x86_statfs64_le st) in
          if buf_size < length bytes then (Ok (neg_errno EINVAL), vk)
          else and_then (mem_write P statfs_buf_ptr bytes vk) (\<lambda>_ vk. (Ok 0, vk)))))"

section \<open>Extended attributes\<close>

definition sys_path_getxattr :: "('u, 'h) platform \<Rightarrow> 'h path_host \<Rightarrow> bool \<Rightarrow> ('u, 'h) sys_fn" where
  "sys_path_getxattr P F follow_symlinks sctx vk =
     (let path_ptr = arg0 sctx; name_ptr = arg1 sctx; value_ptr = arg2 sctx; sz = unat (arg3 sctx) in
      and_then (read_guest_string P path_ptr vk) (\<lambda>path vk.
      and_then (read_guest_string P name_ptr vk) (\<lambda>name vk.
        with_host_path P AT_FDCWD path (\<lambda>c_path vk.
          case cstring_new name of
            None \<Rightarrow> (Ok (neg_errno EINVAL), vk)
          | Some c_name \<Rightarrow>
              with_buffer sz (\<lambda>vk.
                deliver_filled P (value_ptr \<noteq> 0) value_ptr sz
                  (on_host ((if follow_symlinks then libc_getxattr F else libc_lgetxattr F) c_path c_name sz) vk)) vk) vk)))"

definition sys_getxattr :: "('u, 'h) platform \<Rightarrow> 'h path_host \<Rightarrow> ('u, 'h) sys_fn" where
  "sys_getxattr P F = sys_path_getxattr P F True"

definition sys_lgetxattr :: "('u, 'h) platform \<Rightarrow> 'h path_host \<Rightarrow> ('u, 'h) sys_fn" where
  "sys_lgetxattr P F = sys_path_getxattr P F False"

definition sys_fgetxattr :: "('u, 'h) platform \<Rightarrow> 'h path_host \<Rightarrow> ('u, 'h) sys_fn" where
  "sys_fgetxattr P F sctx vk =
     (let fd = ucast (arg0 sctx); name_ptr = arg1 sctx; value_ptr = arg2 sctx; sz = unat (arg3 sctx) in
      and_then (read_guest_string P name_ptr vk) (\<lambda>name vk.
        case cstring_new name of
          None \<Rightarrow> (Ok (neg_errno EINVAL), vk)
        | Some c_name \<Rightarrow>
            with_buffer sz (\<lambda>vk.
              deliver_filled P (value_ptr \<noteq> 0) value_ptr sz (on_host (libc_fgetxattr F fd c_name sz) vk)) vk))"

section \<open>Paths\<close>

definition sys_access :: "('u, 'h) platform \<Rightarrow> 'h path_host \<Rightarrow> ('u, 'h) sys_fn" where
  "sys_access P F sctx vk =
     (let path_ptr = arg0 sctx; mode = (ucast (arg1 sctx) :: i32) in
      and_then (read_guest_string P path_ptr vk)
        (\<lambda>path. with_host_path P AT_FDCWD path (\<lambda>c_path vk.
           case on_host (libc_access F c_path mode) vk of (ret, vk) \<Rightarrow> errno_or P (ret = - 1) 0 vk)))"

definition sys_unlink :: "('u, 'h) platform \<Rightarrow> 'h path_host \<Rightarrow> ('u, 'h) sys_fn" where
  "sys_unlink P F sctx vk =
     and_then (read_guest_string P (arg0 sctx) vk)
       (\<lambda>path. with_host_path P AT_FDCWD path (\<lambda>c_path vk.
          case on_host (libc_unlink F c_path) vk of (rc, vk) \<Rightarrow> errno_or P (rc = - 1) 0 vk))"

definition sys_chmod :: "('u, 'h) platform \<Rightarrow> 'h path_host \<Rightarrow> ('u, 'h) sys_fn" where
  "sys_chmod P F sctx vk =
     (let path_ptr = arg0 sctx; mode = (ucast (arg1 sctx) :: u32) in
      and_then (read_guest_string P path_ptr vk)
        (\<lambda>path. with_host_path P AT_FDCWD path (\<lambda>c_path vk.
           case on_host (libc_chmod F c_path mode) vk of (rc, vk) \<Rightarrow> errno_or P (rc = - 1) 0 vk)))"

text \<open>Both paths are looked up before either is made a C string.\<close>

definition sys_renameat2 :: "('u, 'h) platform \<Rightarrow> 'h path_host \<Rightarrow> ('u, 'h) sys_fn" where
  "sys_renameat2 P F sctx vk =
     (let old_dfd = (ucast (arg0 sctx) :: i32); old_name_addr = arg1 sctx; new_dfd = (ucast (arg2 sctx) :: i32);
          new_name_addr = arg3 sctx; flags = (ucast (arg4 sctx) :: u32) in
      and_then (read_guest_string P old_name_addr vk) (\<lambda>old_name vk.
      and_then (read_guest_string P new_name_addr vk) (\<lambda>new_name vk.
        case (get_path_at P vk old_dfd old_name, get_path_at P vk new_dfd new_name) of
          (Ok (Some old_abs), Ok (Some new_abs)) \<Rightarrow>
            (case (cstring_new old_abs, cstring_new new_abs) of
               (Some old_c, Some new_c) \<Rightarrow>
                 (case on_host (libc_renameat2 F AT_FDCWD old_c AT_FDCWD new_c flags) vk of
                    (ret, vk) \<Rightarrow> errno_or P (ret = - 1) (scast ret) vk)
             | _ \<Rightarrow> (Ok (neg_errno EINVAL), vk))
        | (Ok None, _) \<Rightarrow> (Ok (neg_errno EBADF), vk)
        | (Ok (Some _), Ok None) \<Rightarrow> (Ok (neg_errno EBADF), vk)
        | _ \<Rightarrow> (Panic, vk))))"

definition sys_renameat :: "('u, 'h) platform \<Rightarrow> 'h path_host \<Rightarrow> ('u, 'h) sys_fn" where
  "sys_renameat P F sctx vk =
     sys_renameat2 P F (subctx_new [arg0 sctx, arg1 sctx, arg2 sctx, arg3 sctx, 0, 0]) vk"

definition sys_rename :: "('u, 'h) platform \<Rightarrow> 'h path_host \<Rightarrow> ('u, 'h) sys_fn" where
  "sys_rename P F sctx vk =
     sys_renameat P F (subctx_new [scast AT_FDCWD, arg0 sctx, scast AT_FDCWD, arg1 sctx, 0, 0]) vk"

definition readlink_target_for_guest :: "('u, 'h) Valkyrie \<Rightarrow> string \<Rightarrow> bytes option" where
  "readlink_target_for_guest vk path =
     (if path = ''/proc/self/exe''
      then Some (ascii (case c_elf_file (cfg vk) of Some p \<Rightarrow> p | None \<Rightarrow> ''/proc/self/exe''))
      else None)"

text \<open>
  The two link calls differ in where the arguments are. The host's target is read even when the path has no
  C string, since \<open>std::fs::read_link\<close> takes the path; an empty target is an error of the write.
\<close>

definition read_link_at :: "('u, 'h) platform \<Rightarrow> 'h path_host \<Rightarrow> i32 \<Rightarrow> u64 \<Rightarrow> u64 \<Rightarrow> nat \<Rightarrow> ('u, 'h, u64) vk_call" where
  "read_link_at P F dirfd path_ptr buf_addr buf_size vk =
     (if buf_size = 0 then (Ok 0, vk)
      else and_then (read_guest_string P path_ptr vk) (\<lambda>path vk.
        let answer = (\<lambda>target vk. let count = min (length target) buf_size in
              and_then (mem_write P buf_addr (take count target) vk) (\<lambda>_ vk. (Ok (of_nat count), vk))) in
        case readlink_target_for_guest vk path of
          Some target \<Rightarrow> answer target vk
        | None \<Rightarrow>
            (case guest_path_at P vk dirfd path of
               Err _ \<Rightarrow> (Ok (neg_errno EBADF), vk)
             | Panic \<Rightarrow> (Panic, vk)
             | Diverges \<Rightarrow> (Diverges, vk)
             | Ok host_path \<Rightarrow>
                 (case on_host (read_link F host_path) vk of
                    (None, vk) \<Rightarrow> (Ok (last_errno P vk), vk)
                  | (Some target, vk) \<Rightarrow> answer (utf8_lossy (ascii target)) vk))))"

definition sys_readlink :: "('u, 'h) platform \<Rightarrow> 'h path_host \<Rightarrow> ('u, 'h) sys_fn" where
  "sys_readlink P F sctx vk = read_link_at P F AT_FDCWD (arg0 sctx) (arg1 sctx) (unat (arg2 sctx)) vk"

definition sys_readlinkat :: "('u, 'h) platform \<Rightarrow> 'h path_host \<Rightarrow> ('u, 'h) sys_fn" where
  "sys_readlinkat P F sctx vk =
     read_link_at P F (ucast (arg0 sctx)) (arg1 sctx) (arg2 sctx) (unat (arg3 sctx)) vk"

section \<open>Directories and advice\<close>

definition sys_getdents64 :: "('u, 'h) platform \<Rightarrow> 'h path_host \<Rightarrow> ('u, 'h) sys_fn" where
  "sys_getdents64 P F sctx vk =
     (let fd = (ucast (arg0 sctx) :: i32); dirp = arg1 sctx; count = unat (arg2 sctx) in
      if count = 0 then (Ok 0, vk)
      else if fd <s 0 then (Ok (neg_errno EBADF), vk)
      else case host_fd_for_guest vk (scast fd) of
        None \<Rightarrow> (Ok (neg_errno EBADF), vk)
      | Some host_fd \<Rightarrow>
          with_buffer count (\<lambda>vk. deliver_filled P True dirp count (on_host (libc_getdents64 F host_fd count) vk)) vk)"

definition sys_fadvise64 :: "('u, 'h) platform \<Rightarrow> 'h path_host \<Rightarrow> ('u, 'h) sys_fn" where
  "sys_fadvise64 P F sctx vk =
     (let fd = (ucast (arg0 sctx) :: i32) in
      if fd <s 0 then (Ok (neg_errno EBADF), vk)
      else let (offset, len, advice) =
          (case c_arch (cfg vk) of
             X86_64 \<Rightarrow> (arg1 sctx, arg2 sctx, ucast (arg3 sctx))
           | X86 \<Rightarrow> ((arg1 sctx AND 0xffffffff) OR push_bit 32 (arg2 sctx), arg3 sctx, ucast (arg4 sctx))) in
      case host_fd_for_guest vk (scast fd) of
        None \<Rightarrow> (Ok (neg_errno EBADF), vk)
      | Some host_fd \<Rightarrow>
          (case on_host (libc_posix_fadvise F host_fd offset len advice) vk of
             (rc, vk) \<Rightarrow> (Ok (if rc \<noteq> 0 then neg_errno rc else 0), vk)))"

end
