(* ===== verification/Vk_Io.thy ===== *)
theory Vk_Io
  imports Vk_IoHost
begin

text \<open>
  The system calls of \<open>src/src/os/syscall/io.rs\<close> on descriptors: reading, writing, seeking, opening and
  closing, \<open>poll\<close>, \<open>dup\<close>, \<open>fcntl\<close>, \<open>ioctl\<close>, epoll, timers and \<open>futex\<close>. Log lines are left out.
\<close>

section \<open>Reading\<close>

definition deliver_std ::
  "('u, 'h) platform \<Rightarrow> u64 \<Rightarrow> nat \<Rightarrow> (nat \<times> (nat \<Rightarrow> u8)) option \<times> ('u, 'h) Valkyrie \<Rightarrow> u64 vk_outcome \<times> ('u, 'h) Valkyrie" where
  "deliver_std P addr cap r =
     (case r of
        (None, vk) \<Rightarrow> (Ok (last_errno P vk), vk)
      | (Some (n, buf), vk) \<Rightarrow> deliver P True addr cap n buf vk)"

definition sys_read :: "('u, 'h) platform \<Rightarrow> 'h io_host \<Rightarrow> ('u, 'h) sys_fn" where
  "sys_read P H sctx vk =
     (let fd = arg0 sctx; buf_addr = arg1 sctx; count = unat (arg2 sctx) in
      if count = 0 then (Ok 0, vk)
      else with_buffer count (\<lambda>vk.
        if fd = 0 then
          let stdin_data = c_stdin_data (cfg vk) in
          if stdin_offset vk < length stdin_data then
            let remaining = drop (stdin_offset vk) stdin_data; bytes_read = min (length remaining) count
            in deliver P True buf_addr count bytes_read (\<lambda>i. remaining ! i)
                 (vk\<lparr>stdin_offset := stdin_offset vk + bytes_read\<rparr>)
          else if stdin_data = [] then deliver_std P buf_addr count (on_host (stdin_read H count) vk)
          else (Ok 0, vk)
        else case fd_files (fd_table vk) fd of
          Some vkf \<Rightarrow> deliver_std P buf_addr count (on_host (file_read P (vf_file vkf) count) vk)
        | None \<Rightarrow> deliver_filled P True buf_addr count (on_host (libc_read H (ucast fd) count) vk)) vk)"

definition drop_file :: "'h io_host \<Rightarrow> nat \<Rightarrow> ('u, 'h) Valkyrie \<Rightarrow> ('u, 'h) Valkyrie" where
  "drop_file H file vk = vk\<lparr>host := file_drop H file (host vk)\<rparr>"

definition sys_pread64 :: "('u, 'h) platform \<Rightarrow> 'h io_host \<Rightarrow> ('u, 'h) sys_fn" where
  "sys_pread64 P H sctx vk =
     (let fd = arg0 sctx; buf_addr = arg1 sctx; count = unat (arg2 sctx);
          offset = (case c_arch (cfg vk) of X86 \<Rightarrow> arg3 sctx OR push_bit 32 (arg4 sctx) | X86_64 \<Rightarrow> arg3 sctx) in
      if count = 0 then (Ok 0, vk)
      else with_buffer count (\<lambda>vk.
        case fd_files (fd_table vk) fd of
          Some vkf \<Rightarrow>
            (case on_host (file_try_clone P (vf_file vkf)) vk of
               (None, vk) \<Rightarrow> (Ok (neg_errno EIO), vk)
             | (Some file, vk) \<Rightarrow>
                 (case on_host (file_seek H file (SeekStart offset)) vk of
                    (Inl _, vk) \<Rightarrow> (Ok (neg_errno EIO), drop_file H file vk)
                  | (Inr _, vk) \<Rightarrow>
                      (case on_host (file_read P file count) vk of
                         (None, vk) \<Rightarrow> (Ok (last_errno P vk), drop_file H file vk)
                       | (Some (n, buf), vk) \<Rightarrow> deliver P True buf_addr count n buf (drop_file H file vk))))
        | None \<Rightarrow> deliver_filled P True buf_addr count (on_host (libc_pread64 H (ucast fd) count offset) vk)) vk)"

section \<open>Seeking\<close>

definition host_seek :: "('u, 'h) platform \<Rightarrow> 'h io_host \<Rightarrow> u64 \<Rightarrow> i64 \<Rightarrow> i32 \<Rightarrow> ('u, 'h) Valkyrie
     \<Rightarrow> (i32 + i64) \<times> ('u, 'h) Valkyrie" where
  "host_seek P H fd offset whence vk =
     (case on_host (libc_lseek H (ucast fd) offset whence) vk of
        (result, vk) \<Rightarrow> (if result <s 0 then Inl (libc_errno P (host vk)) else Inr result, vk))"

definition seek_from :: "i64 \<Rightarrow> i32 \<Rightarrow> SeekFrom option" where
  "seek_from offset whence =
     (if whence = SEEK_SET then Some (SeekStart offset)
      else if whence = SEEK_CUR then Some (SeekCurrent offset)
      else if whence = SEEK_END then Some (SeekEnd offset)
      else None)"

definition seek_fd :: "('u, 'h) platform \<Rightarrow> 'h io_host \<Rightarrow> u64 \<Rightarrow> i64 \<Rightarrow> i32 \<Rightarrow> ('u, 'h) Valkyrie
     \<Rightarrow> (i32 + i64) \<times> ('u, 'h) Valkyrie" where
  "seek_fd P H fd offset whence vk =
     (if fd \<le> 2 then host_seek P H fd offset whence vk
      else case fd_files (fd_table vk) fd of
        Some vkf \<Rightarrow>
          (case seek_from offset whence of
             None \<Rightarrow> (Inl EINVAL, vk)
           | Some pos \<Rightarrow>
               (case on_host (file_seek H (vf_file vkf) pos) vk of
                  (Inr v, vk) \<Rightarrow> (Inr v, vk)
                | (Inl err, vk) \<Rightarrow> (Inl (case err of Some e \<Rightarrow> e | None \<Rightarrow> EIO), vk)))
      | None \<Rightarrow> host_seek P H fd offset whence vk)"

definition sys_lseek :: "('u, 'h) platform \<Rightarrow> 'h io_host \<Rightarrow> ('u, 'h) sys_fn" where
  "sys_lseek P H sctx vk =
     (case seek_fd P H (arg0 sctx) (arg1 sctx) (ucast (arg2 sctx)) vk of
        (Inr pos, vk) \<Rightarrow> (Ok pos, vk)
      | (Inl errno, vk) \<Rightarrow> (Ok (neg_errno errno), vk))"

definition sys_llseek :: "('u, 'h) platform \<Rightarrow> 'h io_host \<Rightarrow> ('u, 'h) sys_fn" where
  "sys_llseek P H sctx vk =
     (let fd = arg0 sctx; offset_high = arg1 sctx; offset_low = arg2 sctx; result_addr = arg3 sctx;
          whence = (ucast (arg4 sctx) :: i32) in
      if result_addr = 0 then (Ok (neg_errno EFAULT), vk)
      else case seek_fd P H fd (push_bit 32 offset_high OR offset_low) whence vk of
        (Inr pos, vk) \<Rightarrow> and_then (mem_write P result_addr (to_le_bytes pos) vk) (\<lambda>_ vk. (Ok 0, vk))
      | (Inl errno, vk) \<Rightarrow> (Ok (neg_errno errno), vk))"

section \<open>Opening and closing\<close>

text \<open>The end of \<open>open\<close> and \<open>openat\<close>: the host's descriptor is the guest's, and is entered in the table.\<close>

definition enter_file :: "('u, 'h) platform \<Rightarrow> 'h io_host \<Rightarrow> string \<Rightarrow> i32 \<Rightarrow> u32 \<Rightarrow> i32 \<times> ('u, 'h) Valkyrie
     \<Rightarrow> u64 vk_outcome \<times> ('u, 'h) Valkyrie" where
  "enter_file P H host_path flags mode r =
     (case r of (fd, vk) \<Rightarrow>
        if fd = - 1 then (Ok (last_errno P vk), vk)
        else (Ok (scast fd), table_insert H (scast fd)
          \<lparr>vf_file = from_raw_fd fd, vf_path = host_path, vf_flags = scast flags, vf_mode = ucast mode\<rparr> vk))"

definition sys_open :: "('u, 'h) platform \<Rightarrow> 'h io_host \<Rightarrow> ('u, 'h) sys_fn" where
  "sys_open P H sctx vk =
     (let path_ptr = arg0 sctx; flags = (ucast (arg1 sctx) :: i32); mode = (ucast (arg2 sctx) :: u32) in
      and_then (read_guest_string P path_ptr vk)
        (\<lambda>path. with_host_path P AT_FDCWD path (\<lambda>c_path vk.
           enter_file P H c_path flags mode (on_host (libc_open H c_path flags mode) vk))))"

definition sys_openat :: "('u, 'h) platform \<Rightarrow> 'h io_host \<Rightarrow> ('u, 'h) sys_fn" where
  "sys_openat P H sctx vk =
     (let dirfd = (ucast (arg0 sctx) :: i32); path_ptr = arg1 sctx; flags = (ucast (arg2 sctx) :: i32);
          mode = (ucast (arg3 sctx) :: u32) in
      and_then (read_guest_string P path_ptr vk)
        (\<lambda>path. with_host_path P dirfd path (\<lambda>c_path vk.
           enter_file P H c_path flags mode (on_host (libc_openat H dirfd c_path flags mode) vk))))"

definition sys_close :: "('u, 'h) platform \<Rightarrow> 'h io_host \<Rightarrow> ('u, 'h) sys_fn" where
  "sys_close P H sctx vk =
     (let fd = arg0 sctx in
      if fd \<le> 2 then (Ok 0, vk)
      else case fd_files (fd_table vk) fd of
        Some vkf \<Rightarrow> (Ok 0, drop_file H (vf_file vkf) (vk\<lparr>fd_table := files_remove fd (fd_table vk)\<rparr>))
      | None \<Rightarrow>
          (case on_host (libc_close H (ucast fd)) vk of (ret, vk) \<Rightarrow> errno_or P (ret = - 1) 0 vk))"

definition sys_dup :: "('u, 'h) platform \<Rightarrow> 'h io_host \<Rightarrow> ('u, 'h) sys_fn" where
  "sys_dup P H sctx vk =
     (let oldfd = (ucast (arg0 sctx) :: i32) in
      if oldfd <s 0 then (Ok (neg_errno EBADF), vk)
      else if oldfd \<le>s 2 then
        (case on_host (libc_dup H oldfd) vk of (fd, vk) \<Rightarrow> errno_or P (fd = - 1) (scast fd) vk)
      else case fd_files (fd_table vk) (scast oldfd) of
        None \<Rightarrow> (Ok (neg_errno EBADF), vk)
      | Some vkf \<Rightarrow>
          (case on_host (file_try_clone P (vf_file vkf)) vk of
             (None, vk) \<Rightarrow> (Ok (last_errno P vk), vk)
           | (Some file, vk) \<Rightarrow>
               (Ok (scast (as_raw_fd file)), table_insert H (scast (as_raw_fd file)) (vkf\<lparr>vf_file := file\<rparr>) vk)))"

definition sys_fcntl :: "('u, 'h) platform \<Rightarrow> 'h io_host \<Rightarrow> ('u, 'h) sys_fn" where
  "sys_fcntl P H sctx vk =
     (let fd = (ucast (arg0 sctx) :: i32); cmd = (ucast (arg1 sctx) :: i32); arg = (ucast (arg2 sctx) :: i32) in
      if fd <s 0 then (Ok (neg_errno EBADF), vk)
      else case on_host (libc_fcntl H fd cmd arg) vk of (ret, vk) \<Rightarrow>
        if ret = - 1 then (Ok (last_errno P vk), vk)
        else (Ok (scast ret),
          if cmd = F_SETFL \<and> 2 <s fd
          then (case fd_files (fd_table vk) (scast fd) of
                  Some vkf \<Rightarrow> vk\<lparr>fd_table := files_insert (scast fd) (vkf\<lparr>vf_flags := scast arg\<rparr>) (fd_table vk)\<rparr>
                | None \<Rightarrow> vk)
          else vk))"

section \<open>Writing\<close>

text \<open>Where a buffer goes: the host's streams, a file of the table, else the host's descriptor itself.\<close>

definition write_fd :: "'h io_host \<Rightarrow> u64 \<Rightarrow> bytes \<Rightarrow> ('u, 'h) Valkyrie \<Rightarrow> nat option \<times> ('u, 'h) Valkyrie" where
  "write_fd H fd buffer vk =
     (if fd = 1 then on_host (stdout_write H buffer) vk
      else if fd = 2 then on_host (stderr_write H buffer) vk
      else case fd_files (fd_table vk) fd of
        Some vkf \<Rightarrow> on_host (file_write H (vf_file vkf) buffer) vk
      | None \<Rightarrow>
          (case on_host (libc_write H (ucast fd) buffer) vk of
             (n, vk) \<Rightarrow> (if n <s 0 then None else Some (unat n), vk)))"

definition sys_write :: "('u, 'h) platform \<Rightarrow> 'h io_host \<Rightarrow> ('u, 'h) sys_fn" where
  "sys_write P H sctx vk =
     (let fd = arg0 sctx; buf_addr = arg1 sctx; count = unat (arg2 sctx) in
      if count = 0 then (Ok 0, vk)
      else and_then (mem_read P buf_addr count vk) (\<lambda>buffer vk.
        case write_fd H fd buffer vk of
          (None, vk) \<Rightarrow> (Ok (last_errno P vk), vk)
        | (Some bytes_written, vk) \<Rightarrow> (Ok (of_nat bytes_written), vk)))"

text \<open>The loop over the vector, from entry \<open>index\<close>; it stops at the first short or failed write.\<close>

function writev_loop ::
  "('u, 'h) platform \<Rightarrow> 'h io_host \<Rightarrow> u64 \<Rightarrow> u64 \<Rightarrow> nat \<Rightarrow> nat \<Rightarrow> nat \<Rightarrow> u64 \<Rightarrow> ('u, 'h, u64) vk_call" where
  "writev_loop P H fd iov_addr ptr_size iovcnt index written vk =
     (if iovcnt \<le> index then (Ok written, vk)
      else let base_addr = iov_addr + of_nat (index * (ptr_size * 2)) in
      and_then (read_word P base_addr ptr_size vk) (\<lambda>iov_base vk.
      and_then (read_word P (base_addr + of_nat ptr_size) ptr_size vk) (\<lambda>iov_len vk.
      if iov_len = 0 then writev_loop P H fd iov_addr ptr_size iovcnt (Suc index) written vk
      else and_then (mem_read P iov_base (unat iov_len) vk) (\<lambda>buffer vk.
      if fd = 0 then (Ok (neg_errno EBADF), vk)
      else case write_fd H fd buffer vk of
        (Some count, vk) \<Rightarrow>
          if count < unat iov_len then (Ok (written + of_nat count), vk)
          else writev_loop P H fd iov_addr ptr_size iovcnt (Suc index) (written + of_nat count) vk
      | (None, vk) \<Rightarrow> if 0 < written then (Ok written, vk) else (Ok (last_errno P vk), vk)))))"
  by pat_completeness auto
termination by (relation "measure (\<lambda>(_, _, _, _, _, n, i, _). n - i)") auto

declare writev_loop.simps [simp del]

definition sys_writev :: "('u, 'h) platform \<Rightarrow> 'h io_host \<Rightarrow> ('u, 'h) sys_fn" where
  "sys_writev P H sctx vk =
     (let fd = arg0 sctx; iov_addr = arg1 sctx; iovcnt = unat (arg2 sctx) in
      if iovcnt = 0 then (Ok 0, vk)
      else writev_loop P H fd iov_addr (ptr_width vk) iovcnt 0 0 vk)"

section \<open>poll\<close>

text \<open>The size \<open>nfds * 8\<close> wraps in a release build; the vector of \<open>nfds\<close> entries is not allocated past 2 to the 63 bytes.\<close>

definition read_pollfds :: "('u, 'h) platform \<Rightarrow> u64 \<Rightarrow> u64 \<Rightarrow> ('u, 'h, bytes) vk_call" where
  "read_pollfds P addr nfds vk =
     and_then (mem_read P addr (unat (nfds * of_nat POLLFD_SIZE)) vk)
       (\<lambda>bytes. with_buffer (unat nfds * POLLFD_SIZE) (\<lambda>vk. (Ok bytes, vk)))"

definition sys_poll :: "('u, 'h) platform \<Rightarrow> 'h net_host \<Rightarrow> ('u, 'h) sys_fn" where
  "sys_poll P N sctx vk =
     (let fds_addr = arg0 sctx; nfds = arg1 sctx; timeout = (ucast (arg2 sctx) :: i32) in
      if 0 < nfds \<and> fds_addr = 0 then (Ok (neg_errno EFAULT), vk)
      else and_then (if nfds = 0 then (Ok [], vk) else read_pollfds P fds_addr nfds vk) (\<lambda>pollfds vk.
        case on_host (libc_poll N pollfds nfds timeout) vk of
          ((rc, buf), vk) \<Rightarrow>
            if rc <s 0 then (Ok (last_errno P vk), vk)
            else if 0 < nfds
            then and_then (mem_write P fds_addr (map buf [0..<unat nfds * POLLFD_SIZE]) vk) (\<lambda>_ vk. (Ok (scast rc), vk))
            else (Ok (scast rc), vk)))"

section \<open>ioctl\<close>

definition ioctl_request_size :: "u64 \<Rightarrow> nat" where
  "ioctl_request_size request = unat (drop_bit 16 request AND mask 14)"

definition ioctl_request_dir :: "u64 \<Rightarrow> u64" where
  "ioctl_request_dir request = drop_bit 30 request AND mask 2"

definition IOC_WRITE :: u64 where "IOC_WRITE = 1"
definition IOC_READ :: u64 where "IOC_READ = 2"

definition ioctl_int :: "('u, 'h) platform \<Rightarrow> 'h io_host \<Rightarrow> i32 \<Rightarrow> u64 \<Rightarrow> u64 \<Rightarrow> ('u, 'h, u64) vk_call" where
  "ioctl_int P H host_fd request arg vk =
     and_then
       (if request = FIONBIO
        then and_then (mem_read P arg 4 vk) (\<lambda>bytes vk. (Ok (from_le bytes :: i32), vk))
        else (Ok 0, vk))
       (\<lambda>value vk.
        case on_host (libc_ioctl_int H host_fd request value) vk of
          ((ret, value), vk) \<Rightarrow>
            if ret = - 1 then (Ok (last_errno P vk), vk)
            else and_then (mem_write P arg (to_le_bytes value) vk) (\<lambda>_ vk. (Ok (scast ret), vk)))"

text \<open>The other requests: the argument is a value, or a buffer of the size encoded in the request.\<close>

definition ioctl_sized :: "('u, 'h) platform \<Rightarrow> 'h io_host \<Rightarrow> i32 \<Rightarrow> u64 \<Rightarrow> u64 \<Rightarrow> ('u, 'h, u64) vk_call" where
  "ioctl_sized P H host_fd request arg vk =
     (let sz = ioctl_request_size request in
      if sz = 0
      then (case on_host (libc_ioctl_val H host_fd request arg) vk of
              (ret, vk) \<Rightarrow> errno_or P (ret = - 1) (scast ret) vk)
      else if arg = 0 then (Ok (neg_errno EFAULT), vk)
      else let direction = ioctl_request_dir request in
      and_then (if direction AND IOC_WRITE \<noteq> 0 then mem_read P arg sz vk else (Ok (replicate sz 0), vk))
        (\<lambda>buffer vk.
         case on_host (libc_ioctl_buf H host_fd request buffer) vk of
           ((ret, buf), vk) \<Rightarrow>
             if ret = - 1 then (Ok (last_errno P vk), vk)
             else if direction AND IOC_READ \<noteq> 0
             then and_then (mem_write P arg (map buf [0..<sz]) vk) (\<lambda>_ vk. (Ok (scast ret), vk))
             else (Ok (scast ret), vk)))"

definition sys_ioctl :: "('u, 'h) platform \<Rightarrow> 'h io_host \<Rightarrow> ('u, 'h) sys_fn" where
  "sys_ioctl P H sctx vk =
     (let fd = (ucast (arg0 sctx) :: i32); request = arg1 sctx; arg = arg2 sctx in
      if fd <s 0 then (Ok (neg_errno EBADF), vk)
      else case host_fd_for_guest vk (scast fd) of
        None \<Rightarrow> (Ok (neg_errno EBADF), vk)
      | Some host_fd \<Rightarrow>
          if request \<in> {FIONBIO, FIONREAD, TIOCINQ, TIOCOUTQ}
          then if arg = 0 then (Ok (neg_errno EFAULT), vk) else ioctl_int P H host_fd request arg vk
          else if request = TIOCGWINSZ
          then if arg = 0 then (Ok (neg_errno EFAULT), vk)
            else (case on_host (libc_ioctl_buf H host_fd request (replicate WINSIZE_SIZE 0)) vk of
                    ((ret, buf), vk) \<Rightarrow>
                      if ret = - 1 then (Ok (last_errno P vk), vk)
                      else and_then (mem_write P arg (map buf [0..<WINSIZE_SIZE]) vk) (\<lambda>_ vk. (Ok (scast ret), vk)))
          else ioctl_sized P H host_fd request arg vk)"

section \<open>epoll, timers and futex\<close>

definition sys_epoll_create1 :: "('u, 'h) platform \<Rightarrow> 'h net_host \<Rightarrow> ('u, 'h) sys_fn" where
  "sys_epoll_create1 P N sctx vk =
     (case on_host (libc_epoll_create1 N (ucast (arg0 sctx))) vk of (fd, vk) \<Rightarrow> errno_or P (fd <s 0) (scast fd) vk)"

definition sys_epoll_ctl :: "('u, 'h) platform \<Rightarrow> 'h net_host \<Rightarrow> ('u, 'h) sys_fn" where
  "sys_epoll_ctl P N sctx vk =
     (let epfd = ucast (arg0 sctx); op = ucast (arg1 sctx); fd = ucast (arg2 sctx); event_addr = arg3 sctx in
      and_then
        (if event_addr \<noteq> 0
         then and_then (mem_read P event_addr EPOLL_EVENT_SIZE vk) (\<lambda>bytes vk. (Ok (Some bytes), vk))
         else (Ok None, vk))
        (\<lambda>event vk.
         case on_host (libc_epoll_ctl N epfd op fd event) vk of (rc, vk) \<Rightarrow> errno_or P (rc <s 0) 0 vk))"

definition sys_epoll_wait :: "('u, 'h) platform \<Rightarrow> 'h net_host \<Rightarrow> ('u, 'h) sys_fn" where
  "sys_epoll_wait P N sctx vk =
     (let epfd = ucast (arg0 sctx); events_addr = arg1 sctx; maxevents = (ucast (arg2 sctx) :: i32);
          timeout = ucast (arg3 sctx) in
      if events_addr = 0 \<or> maxevents \<le>s 0 then (Ok (neg_errno EINVAL), vk)
      else case on_host (libc_epoll_wait N epfd maxevents timeout) vk of
        ((rc, buf), vk) \<Rightarrow>
          if rc <s 0 then (Ok (last_errno P vk), vk)
          else if rc = 0 then (Ok 0, vk)
          else if unat maxevents < unat rc then (Panic, vk)
          else and_then (mem_write P events_addr (map buf [0..<unat rc * EPOLL_EVENT_SIZE]) vk)
            (\<lambda>_ vk. (Ok (scast rc), vk)))"

definition sys_timerfd_create :: "('u, 'h) platform \<Rightarrow> 'h net_host \<Rightarrow> ('u, 'h) sys_fn" where
  "sys_timerfd_create P N sctx vk =
     (case on_host (libc_timerfd_create N (ucast (arg0 sctx)) (ucast (arg1 sctx))) vk of
        (fd, vk) \<Rightarrow> errno_or P (fd <s 0) (scast fd) vk)"

definition read_guest_timespec :: "('u, 'h) platform \<Rightarrow> u64 \<Rightarrow> ('u, 'h, timespec) vk_call" where
  "read_guest_timespec P addr vk =
     (let width = ptr_width vk in
      and_then (read_word P addr width vk) (\<lambda>sec vk.
      and_then (read_word P (addr + of_nat width) width vk) (\<lambda>nsec vk.
      (Ok \<lparr>ts_sec = sec, ts_nsec = nsec\<rparr>, vk))))"

definition write_guest_timespec :: "('u, 'h) platform \<Rightarrow> u64 \<Rightarrow> timespec \<Rightarrow> ('u, 'h, unit) vk_call" where
  "write_guest_timespec P addr ts vk =
     (let width = ptr_width vk in
      and_then (write_word P addr (ts_sec ts) width vk) (\<lambda>_ vk.
      write_word P (addr + of_nat width) (ts_nsec ts) width vk))"

definition read_guest_itimerspec :: "('u, 'h) platform \<Rightarrow> u64 \<Rightarrow> ('u, 'h, itimerspec) vk_call" where
  "read_guest_itimerspec P addr vk =
     (let width = of_nat (ptr_width vk) in
      and_then (read_guest_timespec P addr vk) (\<lambda>interval vk.
      and_then (read_guest_timespec P (addr + 2 * width) vk) (\<lambda>val vk.
      (Ok \<lparr>it_interval = interval, it_value = val\<rparr>, vk))))"

definition write_guest_itimerspec :: "('u, 'h) platform \<Rightarrow> u64 \<Rightarrow> itimerspec \<Rightarrow> ('u, 'h, unit) vk_call" where
  "write_guest_itimerspec P addr spec vk =
     (let width = of_nat (ptr_width vk) in
      and_then (write_guest_timespec P addr (it_interval spec) vk) (\<lambda>_ vk.
      write_guest_timespec P (addr + 2 * width) (it_value spec) vk))"

definition sys_timerfd_settime :: "('u, 'h) platform \<Rightarrow> 'h net_host \<Rightarrow> ('u, 'h) sys_fn" where
  "sys_timerfd_settime P N sctx vk =
     (let fd = ucast (arg0 sctx); flags = ucast (arg1 sctx); new_value_addr = arg2 sctx; old_value_addr = arg3 sctx in
      if new_value_addr = 0 then (Ok (neg_errno EFAULT), vk)
      else and_then (read_guest_itimerspec P new_value_addr vk) (\<lambda>new_value vk.
        case on_host (libc_timerfd_settime N fd flags new_value (old_value_addr \<noteq> 0)) vk of
          ((rc, old_value), vk) \<Rightarrow>
            if rc <s 0 then (Ok (last_errno P vk), vk)
            else and_then (if old_value_addr \<noteq> 0 then write_guest_itimerspec P old_value_addr old_value vk else (Ok (), vk))
              (\<lambda>_ vk. (Ok 0, vk))))"

definition FUTEX_CMD_MASK :: i32 where
  "FUTEX_CMD_MASK = NOT (FUTEX_PRIVATE_FLAG OR FUTEX_CLOCK_REALTIME)"

definition sys_futex :: "('u, 'h) platform \<Rightarrow> ('u, 'h) sys_fn" where
  "sys_futex P sctx vk =
     (let uaddr = arg0 sctx; futex_op = (ucast (arg1 sctx) :: i32); val = (ucast (arg2 sctx) :: u32) in
      if uaddr = 0 then (Ok (neg_errno EFAULT), vk)
      else and_then (mem_read P uaddr 4 vk) (\<lambda>bytes vk.
        let current = (from_le bytes :: u32); op = futex_op AND FUTEX_CMD_MASK in
        (Ok (if op = FUTEX_WAIT \<or> op = FUTEX_WAIT_BITSET
             then (if current \<noteq> val then neg_errno EAGAIN else 0)
             else if op = FUTEX_WAKE \<or> op = FUTEX_WAKE_BITSET \<or> op = FUTEX_REQUEUE then 0
             else neg_errno ENOSYS), vk)))"

end
