(* ===== verification/Vk_Net.thy ===== *)
theory Vk_Net
  imports Vk_Io
begin

text \<open>
  The socket calls of \<open>src/src/os/syscall/network.rs\<close>. A guest socket is the host's descriptor itself; it is
  not entered in the table of open files.
\<close>

definition write_socklen :: "('u, 'h) platform \<Rightarrow> u64 \<Rightarrow> u32 \<Rightarrow> ('u, 'h, unit) vk_call" where
  "write_socklen P addr len vk = mem_write P addr (to_le_bytes len) vk"

definition sys_socket :: "('u, 'h) platform \<Rightarrow> 'h net_host \<Rightarrow> ('u, 'h) sys_fn" where
  "sys_socket P N sctx vk =
     (case on_host (libc_socket N (ucast (arg0 sctx)) (ucast (arg1 sctx)) (ucast (arg2 sctx))) vk of
        (fd, vk) \<Rightarrow> errno_or P (fd <s 0) (scast fd) vk)"

definition sys_socketpair :: "('u, 'h) platform \<Rightarrow> 'h net_host \<Rightarrow> ('u, 'h) sys_fn" where
  "sys_socketpair P N sctx vk =
     (let sv_addr = arg3 sctx in
      if sv_addr = 0 then (Ok (neg_errno EFAULT), vk)
      else case on_host (libc_socketpair N (ucast (arg0 sctx)) (ucast (arg1 sctx)) (ucast (arg2 sctx))) vk of
        ((rc, sv0, sv1), vk) \<Rightarrow>
          if rc <s 0 then (Ok (last_errno P vk), vk)
          else and_then (mem_write P sv_addr (to_le_bytes sv0) vk) (\<lambda>_ vk.
               and_then (mem_write P (sv_addr + 4) (to_le_bytes sv1) vk) (\<lambda>_ vk. (Ok 0, vk))))"

definition sys_connect :: "('u, 'h) platform \<Rightarrow> 'h net_host \<Rightarrow> ('u, 'h) sys_fn" where
  "sys_connect P N sctx vk =
     (let fd = ucast (arg0 sctx); addr_ptr = arg1 sctx; addr_len = (ucast (arg2 sctx) :: u32) in
      if addr_ptr = 0 then (Ok (neg_errno EFAULT), vk)
      else and_then (mem_read P addr_ptr (unat addr_len) vk) (\<lambda>addr vk.
        case on_host (libc_connect N fd addr addr_len) vk of (ret, vk) \<Rightarrow> errno_or P (ret <s 0) (scast ret) vk))"

definition sys_shutdown :: "('u, 'h) platform \<Rightarrow> 'h net_host \<Rightarrow> ('u, 'h) sys_fn" where
  "sys_shutdown P N sctx vk =
     (case on_host (libc_shutdown N (ucast (arg0 sctx)) (ucast (arg1 sctx))) vk of
        (rc, vk) \<Rightarrow> errno_or P (rc <s 0) (scast rc) vk)"

text \<open>The length the host reports is used to cut the buffer; one past the buffer panics.\<close>

definition sys_getsockopt :: "('u, 'h) platform \<Rightarrow> 'h net_host \<Rightarrow> ('u, 'h) sys_fn" where
  "sys_getsockopt P N sctx vk =
     (let fd = ucast (arg0 sctx); level = ucast (arg1 sctx); optname = ucast (arg2 sctx); optval_addr = arg3 sctx;
          optlen_addr = arg4 sctx in
      if optlen_addr = 0 then (Ok (neg_errno EFAULT), vk)
      else and_then (mem_read P optlen_addr 4 vk) (\<lambda>optlen_bytes vk.
        let len = (from_le optlen_bytes :: u32) in
        if 0 < len \<and> optval_addr = 0 then (Ok (neg_errno EFAULT), vk)
        else case on_host (libc_getsockopt N fd level optname len) vk of
          ((rc, optlen, optval), vk) \<Rightarrow>
            if rc <s 0 then (Ok (last_errno P vk), vk)
            else and_then (deliver P True optval_addr (unat len) (unat optlen) optval vk) (\<lambda>_ vk.
                 and_then (write_socklen P optlen_addr optlen vk) (\<lambda>_ vk. (Ok 0, vk)))))"

definition sys_sendto :: "('u, 'h) platform \<Rightarrow> 'h net_host \<Rightarrow> ('u, 'h) sys_fn" where
  "sys_sendto P N sctx vk =
     (let fd = ucast (arg0 sctx); buf_addr = arg1 sctx; len = unat (arg2 sctx); flags = ucast (arg3 sctx);
          dest_addr = arg4 sctx; addr_len = (ucast (arg5 sctx) :: u32) in
      and_then (mem_read P buf_addr len vk) (\<lambda>buffer vk.
      and_then
        (if dest_addr = 0 \<or> addr_len = 0 then (Ok None, vk)
         else and_then (mem_read P dest_addr (unat addr_len) vk) (\<lambda>bytes vk. (Ok (Some bytes), vk)))
        (\<lambda>dest vk.
         case on_host (libc_sendto N fd buffer flags dest) vk of (ret, vk) \<Rightarrow> errno_or P (ret <s 0) ret vk)))"

text \<open>The data, then the peer's address cut to the 128 bytes of its buffer, then its full length.\<close>

definition sys_recvfrom :: "('u, 'h) platform \<Rightarrow> 'h net_host \<Rightarrow> ('u, 'h) sys_fn" where
  "sys_recvfrom P N sctx vk =
     (let fd = ucast (arg0 sctx); buf_addr = arg1 sctx; len = unat (arg2 sctx); flags = ucast (arg3 sctx);
          src_addr = arg4 sctx; addrlen_ptr = arg5 sctx; peer = (src_addr \<noteq> 0 \<and> addrlen_ptr \<noteq> 0) in
      with_buffer len (\<lambda>vk.
        case on_host (libc_recvfrom N fd len flags peer) vk of
          (((ret, buf), peer_len, peer_addr), vk) \<Rightarrow>
            if ret <s 0 then (Ok (last_errno P vk), vk)
            else and_then (deliver P True buf_addr len (unat ret) buf vk) (\<lambda>ret vk.
              if peer
              then and_then (deliver P True src_addr 128 (min (unat peer_len) 128) peer_addr vk) (\<lambda>_ vk.
                   and_then (write_socklen P addrlen_ptr peer_len vk) (\<lambda>_ vk. (Ok ret, vk)))
              else (Ok ret, vk))) vk)"

section \<open>socketcall\<close>

text \<open>\<open>n\<close> arguments from the guest's array, the rest are 0.\<close>

fun call_args :: "('u, 'h) platform \<Rightarrow> u64 \<Rightarrow> nat \<Rightarrow> nat list \<Rightarrow> ('u, 'h, u64 list) vk_call" where
  "call_args P args_addr width [] vk = (Ok [], vk)"
| "call_args P args_addr width (i # is) vk =
     and_then (read_word P (args_addr + of_nat i * of_nat width) width vk) (\<lambda>a vk.
     and_then (call_args P args_addr width is vk) (\<lambda>as vk. (Ok (a # as), vk)))"

definition sys_socketcall :: "('u, 'h) platform \<Rightarrow> 'h net_host \<Rightarrow> ('u, 'h) sys_fn" where
  "sys_socketcall P N sctx vk =
     (let call = arg0 sctx; args_addr = arg1 sctx;
          go = (\<lambda>n f. and_then (call_args P args_addr (ptr_width vk) [0..<n] vk) (\<lambda>args vk.
                 f P N (subctx_new (args @ replicate (6 - n) 0)) vk)) in
      if call = 1 then go 3 sys_socket
      else if call = 3 then go 3 sys_connect
      else if call = 8 then go 4 sys_socketpair
      else if call = 11 then go 6 sys_sendto
      else if call = 12 then go 6 sys_recvfrom
      else if call = 15 then go 5 sys_getsockopt
      else (Ok (neg_errno ENOSYS), vk))"

section \<open>pselect6\<close>

definition read_fd_set :: "('u, 'h) platform \<Rightarrow> u64 \<Rightarrow> ('u, 'h, bytes option) vk_call" where
  "read_fd_set P addr vk =
     (if addr \<noteq> 0 then and_then (mem_read P addr FD_SET_SIZE vk) (\<lambda>bytes vk. (Ok (Some bytes), vk))
      else (Ok None, vk))"

definition write_fd_set :: "('u, 'h) platform \<Rightarrow> u64 \<Rightarrow> bytes option \<Rightarrow> (nat \<Rightarrow> u8) \<Rightarrow> ('u, 'h, unit) vk_call" where
  "write_fd_set P addr fd_set buf vk =
     (if fd_set \<noteq> None then mem_write P addr (map buf [0..<FD_SET_SIZE]) vk else (Ok (), vk))"

text \<open>The guest passes the address of a pair of the mask's address and size; a mask is padded with zeros.\<close>

definition read_pselect6_sigmask :: "('u, 'h) platform \<Rightarrow> u64 \<Rightarrow> ('u, 'h, bytes option) vk_call" where
  "read_pselect6_sigmask P addr vk =
     (let width = ptr_width vk in
      and_then (read_word P addr width vk) (\<lambda>sigmask_addr vk.
      and_then (read_word P (addr + of_nat width) width vk) (\<lambda>sigset_size vk.
      if sigmask_addr = 0 \<or> sigset_size = 0 then (Ok None, vk)
      else and_then (mem_read P sigmask_addr (min (unat sigset_size) SIGSET_SIZE) vk) (\<lambda>bytes vk.
        (Ok (Some (bytes @ replicate (SIGSET_SIZE - length bytes) 0)), vk)))))"

definition sys_pselect6 :: "('u, 'h) platform \<Rightarrow> 'h net_host \<Rightarrow> ('u, 'h) sys_fn" where
  "sys_pselect6 P N sctx vk =
     (let nfds = (ucast (arg0 sctx) :: i32); readfds_addr = arg1 sctx; writefds_addr = arg2 sctx;
          exceptfds_addr = arg3 sctx; timeout_addr = arg4 sctx; sigmask_addr = arg5 sctx in
      if nfds <s 0 then (Ok (neg_errno EINVAL), vk)
      else and_then (read_fd_set P readfds_addr vk) (\<lambda>readfds vk.
      and_then (read_fd_set P writefds_addr vk) (\<lambda>writefds vk.
      and_then (read_fd_set P exceptfds_addr vk) (\<lambda>exceptfds vk.
      and_then
        (if timeout_addr \<noteq> 0
         then and_then (read_guest_timespec P timeout_addr vk) (\<lambda>ts vk. (Ok (Some ts), vk))
         else (Ok None, vk)) (\<lambda>timeout vk.
      and_then (if sigmask_addr \<noteq> 0 then read_pselect6_sigmask P sigmask_addr vk else (Ok None, vk)) (\<lambda>sigmask vk.
      case on_host (libc_pselect N nfds readfds writefds exceptfds timeout sigmask) vk of
        ((rc, rbuf, wbuf, ebuf), vk) \<Rightarrow>
          if rc <s 0 then (Ok (last_errno P vk), vk)
          else and_then (write_fd_set P readfds_addr readfds rbuf vk) (\<lambda>_ vk.
               and_then (write_fd_set P writefds_addr writefds wbuf vk) (\<lambda>_ vk.
               and_then (write_fd_set P exceptfds_addr exceptfds ebuf vk) (\<lambda>_ vk. (Ok (scast rc), vk))))))))))"

end
