(* ===== verification/Vk_IoRun.thy ===== *)
theory Vk_IoRun
  imports Vk_IoMeta Vk_Net Vk_CoreRun
begin

text \<open>
  The handlers of \<open>io.rs\<close> and \<open>network.rs\<close> put together: the names of the dispatch table, the state they may
  change, and what they do. \<open>io_invariant\<close> is the interface of an invariant of the handlers: it is kept by the
  few state changes they are made of, and then by every handler.
\<close>

section \<open>The handlers by name\<close>

definition IO_HANDLERS ::
  "('u, 'h) platform \<Rightarrow> 'h io_host \<Rightarrow> 'h path_host \<Rightarrow> 'h net_host \<Rightarrow> (string \<times> ('u, 'h) sys_fn) list" where
  "IO_HANDLERS P H F N =
   [(''sys_read'', sys_read P H), (''sys_pread64'', sys_pread64 P H), (''sys_lseek'', sys_lseek P H),
    (''sys_llseek'', sys_llseek P H), (''sys_open'', sys_open P H), (''sys_write'', sys_write P H),
    (''sys_close'', sys_close P H), (''sys_access'', sys_access P F), (''sys_stat'', sys_stat P F),
    (''sys_fstat'', sys_fstat P F), (''sys_stat64'', sys_stat64 P F), (''sys_fstat64'', sys_fstat64 P F),
    (''sys_openat'', sys_openat P H), (''sys_poll'', sys_poll P N), (''sys_renameat2'', sys_renameat2 P F),
    (''sys_renameat'', sys_renameat P F), (''sys_statx'', sys_statx P F), (''sys_writev'', sys_writev P H),
    (''sys_readlink'', sys_readlink P F), (''sys_readlinkat'', sys_readlinkat P F),
    (''sys_newfstatat'', sys_newfstatat P F), (''sys_fstatat64'', sys_fstatat64 P F), (''sys_dup'', sys_dup P H),
    (''sys_fcntl'', sys_fcntl P H), (''sys_ioctl'', sys_ioctl P H), (''sys_getxattr'', sys_getxattr P F),
    (''sys_lgetxattr'', sys_lgetxattr P F), (''sys_fgetxattr'', sys_fgetxattr P F), (''sys_futex'', sys_futex P),
    (''sys_socket'', sys_socket P N), (''sys_socketcall'', sys_socketcall P N),
    (''sys_socketpair'', sys_socketpair P N), (''sys_connect'', sys_connect P N),
    (''sys_shutdown'', sys_shutdown P N), (''sys_getsockopt'', sys_getsockopt P N),
    (''sys_sendto'', sys_sendto P N), (''sys_recvfrom'', sys_recvfrom P N), (''sys_pselect6'', sys_pselect6 P N),
    (''sys_epoll_wait'', sys_epoll_wait P N), (''sys_epoll_ctl'', sys_epoll_ctl P N),
    (''sys_epoll_create1'', sys_epoll_create1 P N), (''sys_timerfd_create'', sys_timerfd_create P N),
    (''sys_timerfd_settime'', sys_timerfd_settime P N), (''sys_getdents64'', sys_getdents64 P F),
    (''sys_statfs'', sys_statfs P F), (''sys_statfs64'', sys_statfs64 P F), (''sys_fadvise64'', sys_fadvise64 P F),
    (''sys_rename'', sys_rename P F), (''sys_chmod'', sys_chmod P F), (''sys_unlink'', sys_unlink P F)]"

text \<open>The argument \<open>io\<close> of the dispatch, on the model's own handlers. A name outside the list is not one of the table.\<close>

definition host_handlers ::
  "('u, 'h) platform \<Rightarrow> 'h io_host \<Rightarrow> 'h path_host \<Rightarrow> 'h net_host \<Rightarrow> string \<Rightarrow> ('u, 'h) sys_fn" where
  "host_handlers P H F N name =
     (case map_of (IO_HANDLERS P H F N) name of Some f \<Rightarrow> f | None \<Rightarrow> (\<lambda>_ vk. (Err (UnknownSyscallName name), vk)))"

section \<open>Invariants of the handlers\<close>

locale io_invariant =
  fixes P :: "('u, 'h) platform" and I :: "('u, 'h) Valkyrie \<Rightarrow> bool"
  assumes wr: "I vk \<Longrightarrow> I (snd (mem_write P a d vk))"
    and host: "I vk \<Longrightarrow> I (vk\<lparr>host := h\<rparr>)"
    and stdin: "I vk \<Longrightarrow> I (vk\<lparr>stdin_offset := n\<rparr>)"
    and enter: "I vk \<Longrightarrow> I (vk\<lparr>fd_table := files_insert (scast (as_raw_fd (vf_file f))) f (fd_table vk)\<rparr>)"
    and flags: "I vk \<Longrightarrow> fd_files (fd_table vk) fd = Some f
      \<Longrightarrow> I (vk\<lparr>fd_table := files_insert fd (f\<lparr>vf_flags := x\<rparr>) (fd_table vk)\<rparr>)"
    and forget: "I vk \<Longrightarrow> I (vk\<lparr>fd_table := files_remove fd (fd_table vk)\<rparr>)"
begin

lemma rd [intro]: "I vk \<Longrightarrow> I (snd (mem_read P a n vk))"
  by (simp add: mem_read_same_state)

lemma seq: "I (snd r) \<Longrightarrow> (\<And>a s. I s \<Longrightarrow> I (snd (k a s))) \<Longrightarrow> I (snd (and_then r k))"
  by (rule and_then_keeps) auto

lemma read_wd: "I vk \<Longrightarrow> I (snd (read_word P a n vk))"
  unfolding read_word_def by (intro seq) auto

lemma write_wd: "I vk \<Longrightarrow> I (snd (write_word P a v n vk))"
  by (simp add: write_word_def wr)

lemma cstring: "I vk \<Longrightarrow> I (snd (cstring_loop P a offs bs vk))"
proof (induction offs arbitrary: bs vk)
  case (Cons offset offs)
  show ?case by (auto simp del: One_nat_def intro!: seq rd Cons)
qed simp

lemma gstring: "I vk \<Longrightarrow> I (snd (read_guest_string P a vk))"
  unfolding read_guest_string_def read_guest_cstring_def by (intro seq cstring) auto

lemma dlv: "I vk \<Longrightarrow> I (snd (deliver P w a c n buf vk))"
  by (auto simp: deliver_def intro!: seq wr)

lemmas keep = seq rd read_wd write_wd gstring dlv wr host stdin enter forget

lemma after: "I (snd r) \<Longrightarrow> (\<And>a v. I v \<Longrightarrow> I (snd (k a v))) \<Longrightarrow> I (snd (case r of (a, v) \<Rightarrow> k a v))"
  by (cases r) simp

lemma called: "I vk \<Longrightarrow> I (snd (on_host f vk))"
  by (auto simp: on_host_def host split: prod.split)

lemma dlv_filled: "I (snd r) \<Longrightarrow> I (snd (deliver_filled P w a c r))"
  by (auto simp: deliver_filled_def intro!: keep split: prod.split)

lemma dlv_std: "I (snd r) \<Longrightarrow> I (snd (deliver_std P a c r))"
  by (auto simp: deliver_std_def intro!: keep split: prod.split option.split)

lemma dropped: "I vk \<Longrightarrow> I (drop_file H f vk)"
  by (simp add: drop_file_def host)

lemma inserted: "I vk \<Longrightarrow> fd = scast (as_raw_fd (vf_file f)) \<Longrightarrow> I (table_insert H fd f vk)"
  by (auto simp: table_insert_def Let_def split: option.split intro!: keep)

lemma at_path:
  "I vk \<Longrightarrow> (\<And>c v. I v \<Longrightarrow> I (snd (k c v))) \<Longrightarrow> I (snd (with_host_path P d p k vk))"
  by (auto simp: with_host_path_def split: outcome.split option.split)

lemma buffered: "I vk \<Longrightarrow> (\<And>v. I v \<Longrightarrow> I (snd (k v))) \<Longrightarrow> I (snd (with_buffer n k vk))"
  by (simp add: with_buffer_def)

lemmas keep_io = keep called dlv_filled dlv_std dropped inserted at_path buffered

lemma reading: "I vk \<Longrightarrow> I (snd (sys_read P H s vk))" "I vk \<Longrightarrow> I (snd (sys_pread64 P H s vk))"
  by (auto simp: sys_read_def sys_pread64_def Let_def on_host_def
      split: prod.splits option.splits sum.splits Arch.splits if_splits intro!: keep_io)

lemma sought: "I vk \<Longrightarrow> I (snd (seek_fd P H fd x w vk))"
  by (auto simp: seek_fd_def host_seek_def on_host_def host
      split: prod.splits option.splits sum.splits if_splits)

lemma seeking: "I vk \<Longrightarrow> I (snd (sys_lseek P H s vk))" "I vk \<Longrightarrow> I (snd (sys_llseek P H s vk))"
  using sought [of vk H "arg0 s" "arg1 s" "ucast (arg2 s)"]
    sought [of vk H "arg0 s" "push_bit 32 (arg1 s) OR arg2 s" "ucast (arg4 s)"]
  by (auto simp: sys_lseek_def sys_llseek_def Let_def split: prod.splits sum.splits intro!: keep_io)

lemma table_calls: "I vk \<Longrightarrow> I (snd (sys_open P H s vk))" "I vk \<Longrightarrow> I (snd (sys_openat P H s vk))"
  "I vk \<Longrightarrow> I (snd (sys_close P H s vk))" "I vk \<Longrightarrow> I (snd (sys_dup P H s vk))" "I vk \<Longrightarrow> I (snd (sys_fcntl P H s vk))"
  by (auto simp: sys_open_def sys_openat_def sys_close_def sys_dup_def sys_fcntl_def enter_file_def errno_or_def on_host_def Let_def
      split: prod.splits option.splits if_splits intro!: keep_io flags)

lemma wrote: "I vk \<Longrightarrow> I (snd (write_fd H fd b vk))"
  by (auto simp: write_fd_def on_host_def host split: prod.splits option.splits)

lemma writev: "I vk \<Longrightarrow> I (snd (writev_loop P H fd iov w n i written vk))"
proof (induction "n - i" arbitrary: i written vk)
  case 0
  then show ?case by (simp add: writev_loop.simps)
next
  case (Suc m)
  then have "I vk \<Longrightarrow> I (snd (writev_loop P H fd iov w n (Suc i) x vk))" for x vk by simp
  with Suc.prems show ?case
    unfolding writev_loop.simps [of P H fd iov w n i written vk] Let_def
    by (auto intro!: keep_io after wrote split: option.split)
qed

lemma writing: "I vk \<Longrightarrow> I (snd (sys_write P H s vk))" "I vk \<Longrightarrow> I (snd (sys_writev P H s vk))"
  by (auto simp: sys_write_def sys_writev_def Let_def intro!: keep_io after wrote writev split: option.split)

lemma polling: "I vk \<Longrightarrow> I (snd (sys_poll P N s vk))"
  by (auto simp: sys_poll_def read_pollfds_def Let_def on_host_def split: prod.splits if_splits intro!: keep_io)

lemma controlling: "I vk \<Longrightarrow> I (snd (sys_ioctl P H s vk))"
proof -
  have "I vk \<Longrightarrow> I (snd (ioctl_int P H fd r a vk))" "I vk \<Longrightarrow> I (snd (ioctl_sized P H fd r a vk))" for fd r a vk
    by (auto simp: ioctl_int_def ioctl_sized_def errno_or_def Let_def on_host_def split: prod.splits if_splits intro!: keep_io)
  then show "I vk \<Longrightarrow> I (snd (sys_ioctl P H s vk))"
    by (auto simp: sys_ioctl_def Let_def on_host_def split: prod.splits option.splits if_splits intro!: keep_io)
qed

lemma timespecs: "I vk \<Longrightarrow> I (snd (read_guest_timespec P a vk))" "I vk \<Longrightarrow> I (snd (write_guest_timespec P a ts vk))"
  "I vk \<Longrightarrow> I (snd (read_guest_itimerspec P a vk))" "I vk \<Longrightarrow> I (snd (write_guest_itimerspec P a spec vk))"
  by (auto simp: read_guest_timespec_def write_guest_timespec_def read_guest_itimerspec_def write_guest_itimerspec_def
      Let_def intro!: keep_io)

lemma events: "I vk \<Longrightarrow> I (snd (sys_epoll_create1 P N s vk))" "I vk \<Longrightarrow> I (snd (sys_epoll_ctl P N s vk))"
  "I vk \<Longrightarrow> I (snd (sys_epoll_wait P N s vk))" "I vk \<Longrightarrow> I (snd (sys_timerfd_create P N s vk))"
  "I vk \<Longrightarrow> I (snd (sys_timerfd_settime P N s vk))" "I vk \<Longrightarrow> I (snd (sys_futex P s vk))"
  by (auto simp: sys_epoll_create1_def sys_epoll_ctl_def sys_epoll_wait_def sys_timerfd_create_def sys_timerfd_settime_def
      sys_futex_def errno_or_def Let_def on_host_def split: prod.splits if_splits intro!: keep_io timespecs)

lemma statted: "I vk \<Longrightarrow> I (snd (stat_at P F d n f vk))" "I vk \<Longrightarrow> I (snd (statfs_for_path P F p vk))"
  by (auto simp: stat_at_def statfs_for_path_def on_host_def split: prod.splits outcome.splits option.splits if_splits intro!: keep_io)

lemma or_errno: "I (snd r) \<Longrightarrow> (\<And>a v. I v \<Longrightarrow> I (snd (k a v))) \<Longrightarrow> I (snd (or_last_errno P r k))"
  by (auto simp: or_last_errno_def split: prod.splits outcome.splits)

lemma stats: "I vk \<Longrightarrow> I (snd (sys_stat P F s vk))" "I vk \<Longrightarrow> I (snd (sys_stat64 P F s vk))"
  "I vk \<Longrightarrow> I (snd (sys_fstat P F s vk))" "I vk \<Longrightarrow> I (snd (sys_fstat64 P F s vk))"
  "I vk \<Longrightarrow> I (snd (sys_newfstatat P F s vk))" "I vk \<Longrightarrow> I (snd (sys_fstatat64 P F s vk))"
  "I vk \<Longrightarrow> I (snd (sys_statfs P F s vk))" "I vk \<Longrightarrow> I (snd (sys_statfs64 P F s vk))"
  "I vk \<Longrightarrow> I (snd (sys_statx P F s vk))"
  by (auto simp: sys_stat_def sys_stat64_def sys_fstat_def sys_fstat64_def sys_newfstatat_def sys_fstatat64_def sys_statfs_def
      sys_statfs64_def sys_statx_def write_guest_stat_native_def write_guest_stat64_def Let_def on_host_def
      split: prod.splits if_splits intro!: keep_io statted or_errno)

lemma xattrs: "I vk \<Longrightarrow> I (snd (sys_path_getxattr P F b s vk))" "I vk \<Longrightarrow> I (snd (sys_fgetxattr P F s vk))"
  by (auto simp: sys_path_getxattr_def sys_fgetxattr_def Let_def split: option.splits intro!: keep_io)

lemma paths: "I vk \<Longrightarrow> I (snd (sys_access P F s vk))" "I vk \<Longrightarrow> I (snd (sys_unlink P F s vk))" "I vk \<Longrightarrow> I (snd (sys_chmod P F s vk))"
  "I vk \<Longrightarrow> I (snd (sys_getdents64 P F s vk))"
  by (auto simp: sys_access_def sys_unlink_def sys_chmod_def sys_getdents64_def errno_or_def Let_def
      split: option.split intro!: keep_io after)

lemma renamed: "I vk \<Longrightarrow> I (snd (sys_renameat2 P F s vk))"
  by (auto simp: sys_renameat2_def errno_or_def Let_def
      split: outcome.split option.split intro!: keep_io after)

lemma linked: "I vk \<Longrightarrow> I (snd (read_link_at P F d p b n vk))"
  by (auto simp: read_link_at_def Let_def split: outcome.split option.split intro!: keep_io after)

lemma advised: "I vk \<Longrightarrow> I (snd (sys_fadvise64 P F s vk))"
  by (auto simp: sys_fadvise64_def Let_def split: Arch.split option.split intro!: keep_io after)

lemma sockets: "I vk \<Longrightarrow> I (snd (sys_socket P N s vk))" "I vk \<Longrightarrow> I (snd (sys_socketpair P N s vk))"
  "I vk \<Longrightarrow> I (snd (sys_connect P N s vk))" "I vk \<Longrightarrow> I (snd (sys_shutdown P N s vk))"
  "I vk \<Longrightarrow> I (snd (sys_getsockopt P N s vk))" "I vk \<Longrightarrow> I (snd (sys_sendto P N s vk))"
  "I vk \<Longrightarrow> I (snd (sys_recvfrom P N s vk))"
  by (auto simp: sys_socket_def sys_socketpair_def sys_connect_def sys_shutdown_def sys_getsockopt_def sys_sendto_def
      sys_recvfrom_def write_socklen_def errno_or_def Let_def on_host_def split: prod.splits if_splits intro!: keep_io)

lemma call_arguments: "I vk \<Longrightarrow> I (snd (call_args P a w is vk))"
proof (induction "is" arbitrary: vk)
  case (Cons i "is")
  show ?case unfolding call_args.simps by (intro seq read_wd Cons) simp_all
qed simp

lemma socketcalls: "I vk \<Longrightarrow> I (snd (sys_socketcall P N s vk))"
  by (auto simp: sys_socketcall_def Let_def intro!: keep_io call_arguments sockets)

lemma fd_sets: "I vk \<Longrightarrow> I (snd (read_fd_set P a vk))" "I vk \<Longrightarrow> I (snd (write_fd_set P a f buf vk))"
  "I vk \<Longrightarrow> I (snd (read_pselect6_sigmask P a vk))"
  by (auto simp: read_fd_set_def write_fd_set_def read_pselect6_sigmask_def Let_def intro!: keep_io)

lemma selecting: "I vk \<Longrightarrow> I (snd (sys_pselect6 P N s vk))"
  by (auto simp: sys_pselect6_def Let_def on_host_def split: prod.splits if_splits intro!: keep_io fd_sets timespecs)

lemma handlers: "I vk \<Longrightarrow> I (snd (host_handlers P H F N name s vk))"
proof -
  assume I: "I vk"
  have "list_all (\<lambda>(n, f). I (snd (f s vk))) (IO_HANDLERS P H F N)"
    by (simp add: IO_HANDLERS_def sys_getxattr_def sys_lgetxattr_def sys_readlink_def sys_readlinkat_def sys_renameat_def
        sys_rename_def reading seeking table_calls writing polling controlling events stats xattrs paths renamed linked advised sockets
        socketcalls selecting I)
  then show ?thesis
    using I by (auto simp: host_handlers_def list_all_iff split: option.split dest!: map_of_SomeD)
qed

end

text \<open>
  Three invariants: the memory map is as it was; the table's keys are the host's own descriptors; nothing but the
  guest's memory, the host, the position in the standard input and the table changes.
\<close>

definition fd_mirror :: "('u, 'h) Valkyrie \<Rightarrow> bool" where
  "fd_mirror vk \<longleftrightarrow> (\<forall>fd f. fd_files (fd_table vk) fd = Some f \<longrightarrow> fd = scast (as_raw_fd (vf_file f)))"

definition io_frame :: "('u, 'h) Valkyrie \<Rightarrow> ('u, 'h) Valkyrie \<Rightarrow> bool" where
  "io_frame v0 vk \<longleftrightarrow> vk\<lparr>uc := uc v0, host := host v0, stdin_offset := stdin_offset v0, fd_table := fd_table v0\<rparr> = v0"

lemma io_frame_ex:
  assumes "io_frame v0 vk"
  shows "\<exists>h n t. vk = v0\<lparr>uc := uc vk, host := h, stdin_offset := n, fd_table := t\<rparr>"
proof -
  have "vk = vk\<lparr>uc := uc v0, host := host v0, stdin_offset := stdin_offset v0, fd_table := fd_table v0\<rparr>
      \<lparr>uc := uc vk, host := host vk, stdin_offset := stdin_offset vk, fd_table := fd_table vk\<rparr>" by simp
  then show ?thesis using assms unfolding io_frame_def by metis
qed

lemma ucast_scast_32: "ucast (scast (w :: i32) :: u64) = w"
  by (rule bit_word_eqI) (simp add: bit_simps)

lemma mem_write_uc: "\<exists>u. snd (mem_write P a d vk) = vk\<lparr>uc := u\<rparr>"
proof (cases "d = []")
  case True
  then have "snd (mem_write P a d vk) = vk\<lparr>uc := uc vk\<rparr>" by (simp add: mem_write_def)
  then show ?thesis by blast
qed (auto simp: mem_write_def uc_do_uc)

interpretation kept_map: io_invariant P "\<lambda>vk. engine_maps P view \<longrightarrow> keeps_map view v0 vk" for P view v0
  by unfold_locales (auto intro: mem_write_frame)

interpretation mirrored: io_invariant P fd_mirror for P
proof
  show "fd_mirror vk \<Longrightarrow> fd_mirror (snd (mem_write P a d vk))" for vk a d
    using mem_write_uc [of P a d vk] by (auto simp: fd_mirror_def)
qed (auto simp: fd_mirror_def fds.look_put fds.look_del split: if_splits)

interpretation framed: io_invariant P "io_frame v0" for P v0
proof
  show "io_frame v0 vk \<Longrightarrow> io_frame v0 (snd (mem_write P a d vk))" for vk a d
    using mem_write_uc [of P a d vk] by (auto simp: io_frame_def)
qed (auto simp: io_frame_def)

lemma host_handlers_keep_map: "engine_maps P view \<Longrightarrow> io_keeps_map view (host_handlers P H F N)"
  using kept_map.handlers [of P view] by (auto simp: io_keeps_map_def)

section \<open>Properties\<close>

text \<open>
  The whole emulator. With the handlers of \<open>io.rs\<close> and \<open>network.rs\<close> in place, along any run of
  instructions and of code events dispatched through the registry, in which every mapping call is clear of the
  flaws found in \<open>mmap\<close> and \<open>mprotect\<close>, the region list and the engine's memory map agree.
\<close>

theorem emulator_run_keeps_sync:
  assumes run: "install_syscall_hook P E (host_handlers P H F N) st = (Ok (), st1)" "hooked_run P view st1 st2"
    and os: "c_os (cfg (em_vk st)) = Linux" and none: "hooks_of (snd st) HT_CODE = []"
    and laws: "engine_maps P view" "hook_keeps E view" and sync: "in_sync view (em_vk st)"
  shows "in_sync view (em_vk st2)"
  using hooked_run_keeps_sync [OF run os none laws host_handlers_keep_map [OF laws(1)] sync] .

text \<open>
  C4: what a call of these files can change: the guest's memory (not its map), the host, the position in the
  standard input and the table of open files. And the table's keys stay the host's descriptors, so the calls that
  look a descriptor up in the table and those that pass the guest's number on reach the same host descriptor.
\<close>

theorem io_call_frame:
  assumes laws: "engine_maps P view" and mirror: "fd_mirror vk" and call: "host_handlers P H F N name sctx vk = (r, vk')"
  shows "(\<exists>u h n t. vk' = vk\<lparr>uc := u, host := h, stdin_offset := n, fd_table := t\<rparr> \<and> view u = view (uc vk))
    \<and> fd_mirror vk' \<and> (\<forall>fd n. host_fd_for_guest vk' fd = Some n \<longrightarrow> n = ucast fd)"
proof -
  have "io_frame vk vk" by (simp add: io_frame_def)
  from io_frame_ex [OF framed.handlers [OF this, of P H F N name sctx]]
  have f: "\<exists>h n t. vk' = vk\<lparr>uc := uc vk', host := h, stdin_offset := n, fd_table := t\<rparr>"
    by (simp add: call)
  have "view (uc vk') = view (uc vk)"
    using kept_map.handlers [of P view vk vk H F N name sctx] laws by (simp add: call keeps_map_def)
  moreover have m: "fd_mirror vk'"
    using mirrored.handlers [OF mirror, of P H F N name sctx] by (simp add: call)
  moreover have "n = ucast fd" if "host_fd_for_guest vk' fd = Some n" for fd n
    using m that by (auto simp: host_fd_for_guest_def fd_mirror_def split: if_splits) (metis ucast_scast_32)
  ultimately show ?thesis using f by blast
qed

section \<open>A host\<close>

text \<open>A host that refuses every call, for the calls a witness does not make.\<close>

definition idle_io :: "'h io_host" where
  "idle_io = \<lparr>stdin_read = (\<lambda>n h. (None, h)), stdout_write = (\<lambda>b h. (None, h)), stderr_write = (\<lambda>b h. (None, h)),
     file_write = (\<lambda>f b h. (None, h)), file_seek = (\<lambda>f p h. (Inl None, h)), file_drop = (\<lambda>f h. h),
     libc_read = (\<lambda>fd n h. ((- 1, \<lambda>i. 0), h)), libc_pread64 = (\<lambda>fd n p h. ((- 1, \<lambda>i. 0), h)),
     libc_write = (\<lambda>fd b h. (- 1, h)), libc_lseek = (\<lambda>fd p w h. (- 1, h)), libc_open = (\<lambda>p f m h. (- 1, h)),
     libc_openat = (\<lambda>d p f m h. (- 1, h)), libc_close = (\<lambda>fd h. (- 1, h)), libc_dup = (\<lambda>fd h. (- 1, h)),
     libc_fcntl = (\<lambda>fd c a h. (- 1, h)), libc_ioctl_int = (\<lambda>fd r v h. ((- 1, v), h)),
     libc_ioctl_buf = (\<lambda>fd r b h. ((- 1, \<lambda>i. 0), h)), libc_ioctl_val = (\<lambda>fd r v h. (- 1, h))\<rparr>"

definition zero_stat :: libc_stat where
  "zero_stat = \<lparr>st_dev = 0, st_ino = 0, st_nlink = 0, st_mode = 0, st_uid = 0, st_gid = 0, st_rdev = 0, st_size = 0,
     st_blksize = 0, st_blocks = 0, st_atime = 0, st_atime_nsec = 0, st_mtime = 0, st_mtime_nsec = 0, st_ctime = 0,
     st_ctime_nsec = 0, st_image = replicate 144 0\<rparr>"

definition zero_statfs :: libc_statfs64 where
  "zero_statfs = \<lparr>f_type = 0, f_bsize = 0, f_blocks = 0, f_bfree = 0, f_bavail = 0, f_files = 0, f_ffree = 0,
     f_fsid = 0, f_namelen = 0, f_frsize = 0, f_flags = 0, f_image = replicate 120 0\<rparr>"

definition zero_statx :: Statx where
  "zero_statx = (let ts = \<lparr>tv_sec = 0, tv_nsec = 0, tv_reserved = 0\<rparr> in
     \<lparr>stx_mask = 0, stx_blksize = 0, stx_attributes = 0, stx_nlink = 0, stx_uid = 0, stx_gid = 0, stx_mode = 0,
      stx_spare0 = 0, stx_ino = 0, stx_size = 0, stx_blocks = 0, stx_attributes_mask = 0, stx_atime = ts,
      stx_btime = ts, stx_ctime = ts, stx_mtime = ts, stx_rdev_major = 0, stx_rdev_minor = 0, stx_dev_major = 0,
      stx_dev_minor = 0, stx_mnt_id = 0, stx_spare2 = replicate 13 0\<rparr>)"

definition idle_path :: "'h path_host" where
  "idle_path = \<lparr>read_link = (\<lambda>p h. (None, h)), libc_access = (\<lambda>p m h. (- 1, h)),
     libc_fstat = (\<lambda>fd h. ((- 1, zero_stat), h)), libc_fstatat = (\<lambda>d p f h. ((- 1, zero_stat), h)),
     libc_statx = (\<lambda>d p f m h. ((- 1, zero_statx), h)), libc_statfs = (\<lambda>p h. ((- 1, zero_statfs), h)),
     libc_getdents64 = (\<lambda>fd n h. ((- 1, \<lambda>i. 0), h)), libc_getxattr = (\<lambda>p a n h. ((- 1, \<lambda>i. 0), h)),
     libc_lgetxattr = (\<lambda>p a n h. ((- 1, \<lambda>i. 0), h)), libc_fgetxattr = (\<lambda>fd a n h. ((- 1, \<lambda>i. 0), h)),
     libc_renameat2 = (\<lambda>d p e q f h. (- 1, h)), libc_posix_fadvise = (\<lambda>fd x n a h. (9, h)),
     libc_unlink = (\<lambda>p h. (- 1, h)), libc_chmod = (\<lambda>p m h. (- 1, h))\<rparr>"

definition idle_net :: "'h net_host" where
  "idle_net = \<lparr>libc_poll = (\<lambda>b n t h. ((- 1, \<lambda>i. 0), h)), libc_epoll_create1 = (\<lambda>f h. (- 1, h)),
     libc_epoll_ctl = (\<lambda>e c fd b h. (- 1, h)), libc_epoll_wait = (\<lambda>e n t h. ((- 1, \<lambda>i. 0), h)),
     libc_timerfd_create = (\<lambda>c f h. (- 1, h)), libc_timerfd_settime = (\<lambda>fd f n b h. ((- 1, n), h)),
     libc_socket = (\<lambda>d t p h. (- 1, h)), libc_socketpair = (\<lambda>d t p h. ((- 1, 0, 0), h)),
     libc_connect = (\<lambda>fd a n h. (- 1, h)), libc_shutdown = (\<lambda>fd w h. (- 1, h)),
     libc_getsockopt = (\<lambda>fd l n k h. ((- 1, k, \<lambda>i. 0), h)), libc_sendto = (\<lambda>fd b f d h. (- 1, h)),
     libc_recvfrom = (\<lambda>fd n f p h. (((- 1, \<lambda>i. 0), 0, \<lambda>i. 0), h)),
     libc_pselect = (\<lambda>n r w e t s h. ((- 1, \<lambda>i. 0, \<lambda>i. 0, \<lambda>i. 0), h))\<rparr>"

definition ref_io_handlers :: "string \<Rightarrow> (ref_state, unit) sys_fn" where
  "ref_io_handlers = host_handlers ref_engine idle_io idle_path idle_net"

theorem emulator_run_keeps_sync_witness:
  "\<exists>st st2. install_syscall_hook ref_engine ref_hooks ref_io_handlers (ref_machine (ref_trap X86 0xCD 0x80 (\<lambda>_. 45))) = (Ok (), st)
    \<and> hooked_run ref_engine ref_view st st2 \<and> in_sync ref_view (em_vk st2)
    \<and> em_vk st2 = snd (handle_x86_syscall ref_engine ref_io_handlers 0x400000 2 (ref_trap X86 0xCD 0x80 (\<lambda>_. 45)))"
proof -
  let ?vk = "ref_trap X86 0xCD 0x80 (\<lambda>_. 45)" and ?io = ref_io_handlers
  let ?st = "ref_machine ?vk"
  have os: "c_os (cfg (em_vk ?st)) = Linux" by (simp add: ref_trap_def ref_cfg_def)
  obtain st where i: "install_syscall_hook ref_engine ref_hooks ?io ?st = (Ok (), st)" and vk: "mc_vk (fst st) = ?vk"
    using ref_install [of ?vk ?io] os by auto
  have none: "hooks_of (snd ?st) HT_CODE = []" by simp
  have "(45, ''brk'') \<in> set SYSCALL_TABLE_X86"
    by (simp add: syscall_table_defs)
  then have "syscall_name_from_no 45 X86 = Ok ''brk''"
    by (simp add: syscall_name_from_no_member)
  then have clear: "trap_clear ref_engine 0x400000 ?vk"
    by (auto simp: ref_get_reg trap_clear_def x86_trap_def x86_64_trap_def call_clear_def)
  have h: "syscall_handler_for ref_engine ?io (c_arch (cfg (em_vk ?st))) = Ok (handle_x86_syscall ref_engine ?io)"
    by (simp add: syscall_handler_for_def)
  then have s: "serves (handle_x86_syscall ref_engine ?io) (snd st)"
    using serves_installed [OF i os none] by auto
  have idle: "mc_unwound (fst st) = Ok ()"
    using install_syscall_hook_frame [OF i ref_hook_keeps [of id]] by (auto simp: ref_machine_def)
  obtain hk' where d: "dispatch_common (snd st) (fst st) HT_CODE (Trace 0x400000 2) = (Ok (),
      fst (snd (syscall_callback (handle_x86_syscall ref_engine ?io) (fst st) 0x400000 2 NoData)), hk')"
    using serves_dispatch [OF s] by blast
  have "hooked_run ref_engine ref_view st (fst st, snd st)" by (simp add: hooked_run.start)
  from hooked_run.code [OF this _ d] clear vk
  have r: "hooked_run ref_engine ref_view st (fst (snd (syscall_callback (handle_x86_syscall ref_engine ?io) (fst st) 0x400000 2 NoData)), hk')"
    by simp
  have e: "mc_vk (fst (snd (syscall_callback (handle_x86_syscall ref_engine ?io) (fst st) 0x400000 2 NoData)))
      = snd (handle_x86_syscall ref_engine ?io 0x400000 2 ?vk)"
    using idle vk by (simp add: syscall_callback_def split: prod.split)
  have sy: "in_sync ref_view (em_vk ?st)" using ref_trap_sync by simp
  from emulator_run_keeps_sync [OF i [unfolded ref_io_handlers_def] r os none ref_engine_maps ref_hook_keeps sy] i r e
  show ?thesis by auto
qed


theorem io_call_frame_witness:
  "fd_mirror (snd (host_handlers ref_engine idle_io idle_path idle_net ''sys_open''
     (subctx_new [0x400000, 0, 0, 0, 0, 0]) (ref_vk X86)))"
proof -
  have "fd_mirror (ref_vk X86)" by (simp add: fd_mirror_def ref_vk_def)
  from io_call_frame [OF ref_engine_maps this prod.collapse [symmetric]] show ?thesis by blast
qed

end
