(* ===== verification/Vk_IoSpec.thy ===== *)
theory Vk_IoSpec
  imports Vk_IoRun
begin

text \<open>
  What the calls of \<open>io.rs\<close> and \<open>network.rs\<close> promise: the configured standard input is delivered in order,
  once; what is written to a file is read back; a gathering write sends the bytes of its buffers in order; the
  structures of a 32-bit guest decode to the host's values; and the inputs on which the code panics.
\<close>

section \<open>The configured standard input\<close>

lemma deliver_Ok:
  assumes "engine_bytes P content" and "deliver P True addr cap n buf vk = (Ok k, vk')" and "n < 18446744073709551616"
  shows "unat k = n \<and> guest_bytes content addr n vk' = map buf [0..<n] \<and> (\<exists>u. vk' = vk\<lparr>uc := u\<rparr>)"
proof (cases "n = 0")
  case True
  have "vk = vk\<lparr>uc := uc vk\<rparr>" by simp
  then have "\<exists>u. vk = vk\<lparr>uc := u\<rparr>" by blast
  with True assms(2) show ?thesis by (auto simp: deliver_def guest_bytes_def)
next
  case False
  then obtain s where w: "mem_write P addr (map buf [0..<n]) vk = (Ok (), s)" "s = vk'" "k = of_nat n"
    using assms(2) by (auto simp: deliver_def outcome_elim split: if_splits)
  with mem_write_uc [of P addr "map buf [0..<n]" vk] have "\<exists>u. vk' = vk\<lparr>uc := u\<rparr>" by auto
  moreover have "guest_bytes content addr n vk' = map buf [0..<n]"
    using guest_bytes_write [OF assms(1) w(1)] w(2) by simp
  ultimately show ?thesis using w(3) assms(3) by (simp add: unat_of_nat)
qed

text \<open>Reading the standard input into buffers, one call after another; the result is what arrived in them.\<close>

fun stdin_reads :: "('u, 'h) platform \<Rightarrow> 'h io_host \<Rightarrow> ('u \<Rightarrow> nat \<Rightarrow> u8) \<Rightarrow> (u64 \<times> u64) list \<Rightarrow> ('u, 'h, bytes) vk_call" where
  "stdin_reads P H content [] vk = (Ok [], vk)"
| "stdin_reads P H content ((addr, count) # rs) vk =
     and_then (sys_read P H (subctx_new [0, addr, count, 0, 0, 0]) vk) (\<lambda>n vk1.
     and_then (stdin_reads P H content rs vk1) (\<lambda>rest vk2.
       (Ok (guest_bytes content addr (unat n) vk1 @ rest), vk2)))"

lemma sys_read_stdin:
  assumes "engine_bytes P content" and "c_stdin_data (cfg vk) \<noteq> []"
    and "sys_read P H (subctx_new [0, addr, count, 0, 0, 0]) vk = (Ok n, vk')"
  shows "guest_bytes content addr (unat n) vk' = take (unat count) (drop (stdin_offset vk) (c_stdin_data (cfg vk)))
    \<and> cfg vk' = cfg vk \<and> host vk' = host vk
    \<and> stdin_offset vk' = stdin_offset vk + unat n
    \<and> unat n = min (unat count) (length (c_stdin_data (cfg vk)) - stdin_offset vk)"
proof -
  let ?d = "drop (stdin_offset vk) (c_stdin_data (cfg vk))" and ?c = "unat count"
  let ?n = "min (length ?d) ?c"
  consider "count = 0" | "count \<noteq> 0" "length (c_stdin_data (cfg vk)) \<le> stdin_offset vk"
    | "count \<noteq> 0" "stdin_offset vk < length (c_stdin_data (cfg vk))" by linarith
  then show ?thesis
  proof cases
    case 3
    then have d: "deliver P True addr ?c ?n ((!) ?d) (vk\<lparr>stdin_offset := stdin_offset vk + ?n\<rparr>) = (Ok n, vk')"
      using assms(3) by (simp add: sys_read_def with_buffer_def Let_def unat_eq_zero split: if_splits)
    have "map ((!) ?d) [0..<?n] = take ?c ?d"
      by (rule nth_equalityI) auto
    moreover have "?n < 18446744073709551616"
      using unat_bound [of count] by linarith
    ultimately show ?thesis
      using deliver_Ok [OF assms(1) d] by (auto simp: min.commute)
  qed (use assms in \<open>auto simp: sys_read_def with_buffer_def Let_def unat_eq_zero guest_bytes_def split: if_splits\<close>)
qed

text \<open>
  C12: the configured standard input is a stream. Whatever buffers the guest reads it into, one call after
  another, the bytes that arrive are the next ones of the configured data, in order, none twice and none skipped,
  and the position ends after them; the host's own standard input is never read.
\<close>

theorem stdin_delivered_in_order:
  assumes "engine_bytes P content" and "c_stdin_data (cfg vk) \<noteq> []" and "stdin_offset vk \<le> length (c_stdin_data (cfg vk))"
    and "stdin_reads P H content rs vk = (Ok out, vk')"
  shows "out = take (\<Sum>(addr, count) \<leftarrow> rs. unat count) (drop (stdin_offset vk) (c_stdin_data (cfg vk)))
    \<and> stdin_offset vk' = stdin_offset vk + length out \<and> host vk' = host vk"
  using assms(2-4)
proof (induction rs arbitrary: vk out)
  case (Cons r rs)
  obtain addr count where r: "r = (addr, count)" by (rule prod.exhaust)
  obtain n vk1 rest where s: "sys_read P H (subctx_new [0, addr, count, 0, 0, 0]) vk = (Ok n, vk1)"
    "stdin_reads P H content rs vk1 = (Ok rest, vk')" "out = guest_bytes content addr (unat n) vk1 @ rest"
    using Cons.prems(3) by (auto simp: r outcome_elim)
  let ?d = "drop (stdin_offset vk) (c_stdin_data (cfg vk))"
  note f = sys_read_stdin [OF assms(1) Cons.prems(1) s(1)]
  then have n: "unat n = min (unat count) (length ?d)" and c: "cfg vk1 = cfg vk" and o: "stdin_offset vk1 = stdin_offset vk + unat n"
    by auto
  have "rest = take (\<Sum>(addr, count) \<leftarrow> rs. unat count) (drop (unat n) ?d) \<and> stdin_offset vk' = stdin_offset vk1 + length rest
      \<and> host vk' = host vk1"
    using Cons.IH [OF _ _ s(2)] Cons.prems(1,2) n by (auto simp: c o add.commute)
  moreover have "take (unat n) ?d = take (unat count) ?d"
    using n by (auto simp: min_def)
  moreover have "guest_bytes content addr (unat n) vk1 = take (unat count) ?d"
    using f by blast
  then have "out = take (unat count) ?d @ rest"
    by (simp only: s(3))
  moreover have "take (unat count) ?d @ take m (drop (unat count) ?d) = take (unat count + m) ?d" for m
    by (simp add: take_add)
  ultimately show ?case
    using f n by (auto simp: r min_def split: if_splits)
qed simp

section \<open>Gathering writes\<close>

text \<open>
  Where the bytes of a write go, by descriptor: the host's streams, a file of the table, else the host's descriptor
  itself, and nowhere from descriptor 0.
\<close>

definition fd_sink :: "'h io_host \<Rightarrow> ('u, 'h) Valkyrie \<Rightarrow> u64 \<Rightarrow> bytes \<Rightarrow> 'h \<Rightarrow> nat option \<times> 'h" where
  "fd_sink H vk fd bs h =
     (if fd = 0 then (None, h)
      else if fd = 1 then stdout_write H bs h
      else if fd = 2 then stderr_write H bs h
      else case fd_files (fd_table vk) fd of
        Some vkf \<Rightarrow> file_write H (vf_file vkf) bs h
      | None \<Rightarrow> (case libc_write H (ucast fd) bs h of (n, h') \<Rightarrow> (if n <s 0 then None else Some (unat n), h')))"

lemma write_fd_sink: "fd \<noteq> 0 \<Longrightarrow> write_fd H fd bs vk = on_host (fd_sink H vk fd bs) vk"
  by (simp add: write_fd_def fd_sink_def on_host_def split: option.split prod.split)

lemma fd_sink_host [simp]: "fd_sink H (vk\<lparr>host := h\<rparr>) = fd_sink H vk"
  by (intro ext) (simp add: fd_sink_def split: option.split)

text \<open>
  What the code relies on of a destination. \<open>seen\<close> is what can be observed of it (all that was sent on a stream, the
  contents and position of a file) and \<open>effect bs\<close> what sending \<open>bs\<close> does to that, where sending one list after
  another is sending both joined. A write takes a prefix of its buffer and returns its length; one that fails
  takes nothing.
\<close>

definition byte_sink ::
  "(bytes \<Rightarrow> 'h \<Rightarrow> nat option \<times> 'h) \<Rightarrow> ('h \<Rightarrow> 's) \<Rightarrow> (bytes \<Rightarrow> 's \<Rightarrow> 's) \<Rightarrow> bool" where
  "byte_sink send seen effect \<longleftrightarrow>
     (\<forall>x. effect [] x = x) \<and> (\<forall>as bs x. effect (as @ bs) x = effect bs (effect as x))
   \<and> (\<forall>bs h n h'. send bs h = (Some n, h') \<longrightarrow> n \<le> length bs \<and> seen h' = effect (take n bs) (seen h))
   \<and> (\<forall>bs h h'. send bs h = (None, h') \<longrightarrow> seen h' = seen h)"

lemma byte_sinkD:
  assumes "byte_sink send seen effect"
  shows "effect [] x = x" "effect (as @ bs) x = effect bs (effect as x)"
    and "send bs h = (Some n, h') \<Longrightarrow> n \<le> length bs \<and> seen h' = effect (take n bs) (seen h)"
    and "send bs h = (None, h') \<Longrightarrow> seen h' = seen h"
  using assms by (auto simp: byte_sink_def)

definition takes_all :: "(bytes \<Rightarrow> 'h \<Rightarrow> nat option \<times> 'h) \<Rightarrow> bool" where
  "takes_all send \<longleftrightarrow> (\<forall>bs h. fst (send bs h) = Some (length bs))"

lemma takes_allD: "takes_all send \<Longrightarrow> send bs h = (c, h') \<Longrightarrow> c = Some (length bs)"
  unfolding takes_all_def by (metis fst_conv)

text \<open>The buffers of a vector of \<open>n\<close> entries, in order.\<close>

definition guest_word :: "('u \<Rightarrow> nat \<Rightarrow> u8) \<Rightarrow> u64 \<Rightarrow> nat \<Rightarrow> ('u, 'h) Valkyrie \<Rightarrow> u64" where
  "guest_word content a w vk = from_le (guest_bytes content a w vk @ replicate (8 - w) 0)"

definition iov_buffer :: "('u \<Rightarrow> nat \<Rightarrow> u8) \<Rightarrow> u64 \<Rightarrow> nat \<Rightarrow> ('u, 'h) Valkyrie \<Rightarrow> nat \<Rightarrow> bytes" where
  "iov_buffer content iov w vk i =
     (let base = iov + of_nat (i * (w * 2)) in
      guest_bytes content (guest_word content base w vk) (unat (guest_word content (base + of_nat w) w vk)) vk)"

definition gathered :: "('u \<Rightarrow> nat \<Rightarrow> u8) \<Rightarrow> u64 \<Rightarrow> nat \<Rightarrow> ('u, 'h) Valkyrie \<Rightarrow> nat \<Rightarrow> nat \<Rightarrow> bytes" where
  "gathered content iov w vk i n = concat (map (iov_buffer content iov w vk) [i..<n])"

definition joined :: "('u \<Rightarrow> nat \<Rightarrow> u8) \<Rightarrow> u64 \<Rightarrow> u64 \<Rightarrow> ('u, 'h) Valkyrie \<Rightarrow> bytes" where
  "joined content iov cnt vk = gathered content iov (ptr_width vk) vk 0 (unat cnt)"

lemma read_word_Ok:
  assumes "engine_bytes P content" and "read_word P a w vk = (Ok v, vk')"
  shows "vk' = vk \<and> v = guest_word content a w vk"
  using assms(2) mem_read_Ok [OF assms(1)] by (fastforce simp: read_word_def guest_word_def outcome_elim split: if_splits)

lemma gathered_step: "i < n \<Longrightarrow> gathered content iov w vk i n = iov_buffer content iov w vk i @ gathered content iov w vk (Suc i) n"
  by (simp add: gathered_def upt_conv_Cons)

lemma iov_buffer_host [simp]: "iov_buffer content iov w (vk\<lparr>host := h\<rparr>) = iov_buffer content iov w vk"
  by (rule ext) (simp add: iov_buffer_def guest_word_def guest_bytes_def)

lemma gathered_host [simp]: "gathered content iov w (vk\<lparr>host := h\<rparr>) i n = gathered content iov w vk i n"
  by (simp add: gathered_def)

text \<open>
  One turn of the loop that ends well: the entry is empty, or its bytes are sent, which fails, is short or is complete.
\<close>

lemma writev_step:
  assumes laws: "engine_bytes P content" and i: "i < n" and run: "writev_loop P H fd iov w n i written vk = (Ok r, vk')"
  obtains (empty) "iov_buffer content iov w vk i = []" "writev_loop P H fd iov w n (Suc i) written vk = (Ok r, vk')"
  | (wrote) c h where "iov_buffer content iov w vk i \<noteq> []"
      "fd_sink H vk fd (iov_buffer content iov w vk i) (host vk) = (c, h)"
      "(case c of
          None \<Rightarrow> vk' = vk\<lparr>host := h\<rparr> \<and> r = (if fd = 0 then neg_errno EBADF else if 0 < written then written else last_errno P vk')
        | Some count \<Rightarrow>
            if count < length (iov_buffer content iov w vk i) then vk' = vk\<lparr>host := h\<rparr> \<and> r = written + of_nat count
            else writev_loop P H fd iov w n (Suc i) (written + of_nat count) (vk\<lparr>host := h\<rparr>) = (Ok r, vk'))"
proof -
  let ?base = "iov + of_nat (i * (w * 2))"
  define addr len where "addr = guest_word content ?base w vk" and "len = guest_word content (?base + of_nat w) w vk"
  have buf: "iov_buffer content iov w vk i = guest_bytes content addr (unat len) vk"
    by (simp add: iov_buffer_def addr_def len_def Let_def)
  obtain a v1 l v2 where w1: "read_word P ?base w vk = (Ok a, v1)" and w2: "read_word P (?base + of_nat w) w v1 = (Ok l, v2)"
    and rest: "(if l = 0 then writev_loop P H fd iov w n (Suc i) written v2
        else and_then (mem_read P a (unat l) v2) (\<lambda>buffer vk.
          if fd = 0 then (Ok (neg_errno EBADF), vk)
          else case write_fd H fd buffer vk of
            (Some count, vk) \<Rightarrow>
              if count < unat l then (Ok (written + of_nat count), vk)
              else writev_loop P H fd iov w n (Suc i) (written + of_nat count) vk
          | (None, vk) \<Rightarrow> if 0 < written then (Ok written, vk) else (Ok (last_errno P vk), vk))) = (Ok r, vk')"
    using run i unfolding writev_loop.simps [of P H fd iov w n i written vk]
    by (auto simp: Let_def outcome_elim)
  have e: "v2 = vk" "a = addr" "l = len"
    using read_word_Ok [OF laws w1] read_word_Ok [OF laws w2] by (auto simp: addr_def len_def)
  show thesis
  proof (cases "len = 0")
    case True
    then show ?thesis using empty rest e by (simp add: buf guest_bytes_def)
  next
    case False
    obtain buffer where rd: "mem_read P addr (unat len) vk = (Ok buffer, vk)" "buffer = iov_buffer content iov w vk i"
      using rest False e mem_read_Ok [OF laws, of addr "unat len" vk] by (fastforce simp: outcome_elim buf)
    obtain c h where s: "fd_sink H vk fd buffer (host vk) = (c, h)" by (rule prod.exhaust)
    have len: "length buffer = unat len" "buffer \<noteq> []" using False by (auto simp: rd(2) buf guest_bytes_def unat_eq_0)
    show ?thesis
    proof (cases "fd = 0")
      case True
      with rest False rd e s len show ?thesis
        by (intro wrote [of c h]) (auto simp: fd_sink_def)
    next
      case fd: False
      with rest False rd e s len show ?thesis
        by (intro wrote [of c h]) (auto simp: write_fd_sink [OF fd] on_host_def split: option.splits if_splits)
    qed
  qed
qed

lemma writev_loop_gathers:
  assumes laws: "engine_bytes P content" "byte_sink (fd_sink H vk0 fd) seen effect" and fd: "fd \<noteq> 0"
    and "writev_loop P H fd iov w n i written vk = (Ok r, vk')" "fd_table vk = fd_table vk0"
    and "unat written + length (gathered content iov w vk i n) < 2 ^ 64"
  shows "\<exists>k \<le> length (gathered content iov w vk i n). seen (host vk') = effect (take k (gathered content iov w vk i n)) (seen (host vk))
    \<and> vk' = vk\<lparr>host := host vk'\<rparr> \<and> (r = written + of_nat k \<or> written = 0 \<and> k = 0 \<and> r = last_errno P vk')
    \<and> (takes_all (fd_sink H vk0 fd) \<longrightarrow> k = length (gathered content iov w vk i n))"
  using assms(4-6)
proof (induction "n - i" arbitrary: i written vk)
  case 0
  then show ?case by (auto simp: writev_loop.simps gathered_def byte_sinkD [OF laws(2)])
next
  case (Suc m)
  then have i: "i < n" and m: "m = n - Suc i" by simp_all
  note g = gathered_step [OF i, of content iov w vk]
  have same: "fd_sink H vk fd = fd_sink H vk0 fd"
    using Suc.prems(2) by (intro ext) (simp add: fd_sink_def)
  from laws(1) i Suc.prems(1) show ?case
  proof (cases rule: writev_step)
    case empty
    from Suc.hyps(1) [OF m empty(2) Suc.prems(2)] Suc.prems(3) show ?thesis by (simp add: g empty(1))
  next
    case (wrote c h)
    note send = wrote(2) [unfolded same]
    show ?thesis
    proof (cases c)
      case None
      then have "\<not> takes_all (fd_sink H vk0 fd)" using send by (auto dest: takes_allD)
      moreover have "seen h = seen (host vk)" using byte_sinkD(4) [OF laws(2)] send None by blast
      ultimately show ?thesis
        using None wrote(3) fd by (intro exI [of _ 0]) (auto simp: byte_sinkD(1) [OF laws(2)] word_gt_0)
    next
      case (Some count)
      let ?buf = "iov_buffer content iov w vk i"
      have sent: "count \<le> length ?buf" "seen h = effect (take count ?buf) (seen (host vk))"
        using byte_sinkD(3) [OF laws(2)] send Some by blast+
      show ?thesis
      proof (cases "count < length ?buf")
        case True
        then have "\<not> takes_all (fd_sink H vk0 fd)" using send Some by (auto dest: takes_allD)
        with True show ?thesis using wrote(3) Some sent by (intro exI [of _ count]) (auto simp: g)
      next
        case False
        then have c: "count = length ?buf" using sent by simp
        have loop: "writev_loop P H fd iov w n (Suc i) (written + of_nat count) (vk\<lparr>host := h\<rparr>) = (Ok r, vk')"
          using wrote(3) Some False by simp
        have un: "unat (written + of_nat count) = unat written + count"
          using Suc.prems(3) by (simp add: g c unat_word_ariths unat_of_nat)
        moreover from this have "written + of_nat count \<noteq> 0" using wrote(1) c by (auto simp: unat_eq_0)
        ultimately obtain k where "k \<le> length (gathered content iov w vk (Suc i) n)"
          "seen (host vk') = effect (take k (gathered content iov w vk (Suc i) n)) (seen h)" "vk' = vk\<lparr>host := host vk'\<rparr>"
          "r = written + of_nat count + of_nat k"
          "takes_all (fd_sink H vk0 fd) \<longrightarrow> k = length (gathered content iov w vk (Suc i) n)"
          using Suc.hyps(1) [OF m loop] Suc.prems(2,3) by (auto simp: g c)
        then show ?thesis using sent c by (intro exI [of _ "count + k"]) (auto simp: g byte_sinkD(2) [OF laws(2)])
      qed
    qed
  qed
qed

lemma writev_loop_closed:
  assumes "engine_bytes P content" "writev_loop P H 0 iov w n i 0 vk = (Ok r, vk')"
  shows "vk' = vk \<and> r = (if gathered content iov w vk i n = [] then 0 else neg_errno EBADF)"
  using assms(2)
proof (induction "n - i" arbitrary: i)
  case 0
  then show ?case by (simp add: writev_loop.simps gathered_def)
next
  case (Suc m)
  then have i: "i < n" and m: "m = n - Suc i" by simp_all
  from assms(1) i Suc.prems show ?case
  proof (cases rule: writev_step)
    case empty
    from Suc.hyps(1) [OF m empty(2)] show ?thesis by (simp add: gathered_step [OF i] empty(1))
  next
    case (wrote c h)
    then show ?thesis by (auto simp: gathered_step [OF i] fd_sink_def)
  qed
qed

text \<open>
  C13: \<open>writev\<close> to any descriptor is one write of its buffers joined. When it returns, what can be observed of the
  destination (the standard output or error, a file of the table, or the host's descriptor) is what sending the
  first \<open>k\<close> bytes of the buffers, in order, makes of it: never a byte of a later buffer before one of an
  earlier. The result is \<open>k\<close>, or nothing was sent and it is the error; a destination that never takes less than
  it is given gets all of them; nothing but the host changes. From descriptor 0 nothing is sent and the result is
  \<open>EBADF\<close>, or 0 when the buffers are empty.
\<close>

theorem writev_gathers:
  assumes laws: "engine_bytes P content" "fd \<noteq> 0 \<longrightarrow> byte_sink (fd_sink H vk fd) seen effect"
    and run: "sys_writev P H (subctx_new [fd, iov, cnt, 0, 0, 0]) vk = (Ok r, vk')"
    and small: "length (joined content iov cnt vk) < 2 ^ 64"
  shows "if fd = 0 then vk' = vk \<and> r = (if joined content iov cnt vk = [] then 0 else neg_errno EBADF)
    else \<exists>k \<le> length (joined content iov cnt vk). seen (host vk') = effect (take k (joined content iov cnt vk)) (seen (host vk))
      \<and> vk' = vk\<lparr>host := host vk'\<rparr> \<and> (r = of_nat k \<or> k = 0 \<and> r = last_errno P vk')
      \<and> (takes_all (fd_sink H vk fd) \<longrightarrow> k = length (joined content iov cnt vk))"
proof (cases "cnt = 0")
  case True
  then have "r = 0" "vk' = vk" "joined content iov cnt vk = []"
    using run by (simp_all add: sys_writev_def joined_def gathered_def)
  then show ?thesis using byte_sinkD(1) laws(2) by fastforce
next
  case False
  then have loop: "writev_loop P H fd iov (ptr_width vk) (unat cnt) 0 0 vk = (Ok r, vk')"
    using run by (simp add: sys_writev_def unat_eq_zero)
  show ?thesis
  proof (cases "fd = 0")
    case True
    with writev_loop_closed [OF laws(1)] loop show ?thesis by (simp add: joined_def)
  next
    case fd: False
    from writev_loop_gathers [OF laws(1) laws(2) [THEN mp, OF fd] fd loop refl] small fd show ?thesis
      by (simp add: joined_def)
  qed
qed

text \<open>The law of a stream, of which everything sent is observed.\<close>

definition stdout_log :: "'h io_host \<Rightarrow> ('h \<Rightarrow> bytes) \<Rightarrow> bool" where
  "stdout_log H sent \<longleftrightarrow>
     (\<forall>bs h n h'. stdout_write H bs h = (Some n, h') \<longrightarrow> n \<le> length bs \<and> sent h' = sent h @ take n bs)
   \<and> (\<forall>bs h h'. stdout_write H bs h = (None, h') \<longrightarrow> sent h' = sent h)"

lemma stdout_sink: "stdout_log H sent \<Longrightarrow> byte_sink (fd_sink H vk 1) sent (\<lambda>bs x. x @ bs)"
  by (auto simp: byte_sink_def stdout_log_def fd_sink_def)

section \<open>Files\<close>

text \<open>
  The abstract file: its contents and a position. \<open>host_files\<close> states what the code relies on of the host's
  \<open>File\<close>, in terms of a view \<open>at\<close> of the open files; a call that fails leaves the view open. An errno is positive.
\<close>

definition overwrite :: "bytes \<Rightarrow> nat \<Rightarrow> bytes \<Rightarrow> bytes" where
  "overwrite c p bs = (if bs = [] then c else take p (c @ replicate (p - length c) 0) @ bs @ drop (p + length bs) c)"

lemma overwrite_Nil [simp]: "overwrite c p [] = c"
  by (simp add: overwrite_def)

lemma overwrite_read_back: "take (length bs) (drop p (overwrite c p bs)) = bs"
  by (auto simp: overwrite_def)

definition host_files :: "('u, 'h) platform \<Rightarrow> 'h io_host \<Rightarrow> ('h \<Rightarrow> nat \<Rightarrow> bytes \<times> nat) \<Rightarrow> bool" where
  "host_files P H at \<longleftrightarrow>
     (\<forall>f bs h n h'. file_write H f bs h = (Some n, h') \<longrightarrow>
        n \<le> length bs \<and> at h' f = (case at h f of (c, p) \<Rightarrow> (overwrite c p (take n bs), p + n)))
   \<and> (\<forall>f p h q h'. file_seek H f (SeekStart p) h = (Inr q, h') \<longrightarrow> q = p \<and> at h' f = (fst (at h f), unat p))
   \<and> (\<forall>f m h n buf h'. file_read P f m h = (Some (n, buf), h') \<longrightarrow>
        n \<le> m \<and> at h' f = (case at h f of (c, p) \<Rightarrow> (c, p + n))
        \<and> map buf [0..<n] = (case at h f of (c, p) \<Rightarrow> take n (drop p c)))
   \<and> (\<forall>f p h e h'. file_seek H f p h = (Inl (Some e), h') \<longrightarrow> 0 <s e)
   \<and> (\<forall>h. 0 <s libc_errno P h)"

lemma host_filesD:
  assumes "host_files P H at"
  shows "file_write H f bs h = (Some n, h') \<Longrightarrow>
      n \<le> length bs \<and> at h' f = (case at h f of (c, p) \<Rightarrow> (overwrite c p (take n bs), p + n))"
    and "file_seek H f (SeekStart p) h = (Inr q, h') \<Longrightarrow> q = p \<and> at h' f = (fst (at h f), unat p)"
    and "file_read P f m h = (Some (n, buf), h') \<Longrightarrow> n \<le> m \<and> at h' f = (case at h f of (c, p) \<Rightarrow> (c, p + n))
      \<and> map buf [0..<n] = (case at h f of (c, p) \<Rightarrow> take n (drop p c))"
    and "file_seek H f s h = (Inl (Some e), h') \<Longrightarrow> 0 <s e"
    and "0 <s libc_errno P h"
  using assms unfolding host_files_def by - (elim conjE, meson)+

definition open_file :: "('u, 'h) Valkyrie \<Rightarrow> u64 \<Rightarrow> nat \<Rightarrow> bool" where
  "open_file vk fd f \<longleftrightarrow> 2 < fd \<and> (\<exists>e. fd_files (fd_table vk) fd = Some e \<and> vf_file e = f)"

lemma open_file_only: "open_file vk fd f \<Longrightarrow> \<not> fd \<le> 2 \<and> fd \<noteq> 0 \<and> fd \<noteq> 1 \<and> fd \<noteq> 2 \<and> (\<exists>e. fd_files (fd_table vk) fd = Some e \<and> vf_file e = f)"
  by (auto simp: open_file_def)

lemma neg_errno_negative:
  assumes "0 <s e"
  shows "neg_errno e <s 0"
proof -
  have e: "0 < sint e" "sint e < 2 ^ 31"
    using assms sint_lt [of e] by (simp_all add: word_sless_alt)
  have eq: "neg_errno e = word_of_int (- sint e)" by (simp add: neg_errno_def)
  have "sint (neg_errno e) = signed_take_bit 63 (- sint e)"
    unfolding eq by (subst signed_of_int) simp
  also have "\<dots> = - sint e" by (rule signed_take_bit_int_eq_self) (use e in simp_all)
  finally show ?thesis using e by (simp add: word_sless_alt)
qed

lemma last_errno_negative: "host_files P H at \<Longrightarrow> last_errno P vk <s 0"
  by (simp add: last_errno_def host_filesD(5) neg_errno_negative)

text \<open>A file of the table as a destination: what is sent overwrites it from its position, which moves on.\<close>

lemma overwrite_append: "overwrite c p (as @ bs) = overwrite (overwrite c p as) (p + length as) bs"
proof -
  have "min (length c) p + (p - length c) = p" by simp
  then show ?thesis by (auto simp: overwrite_def add.assoc add.commute [of "length bs"])
qed

lemma file_sink:
  assumes "host_files P H at" "open_file vk fd f" "\<forall>bs h h'. file_write H f bs h = (None, h') \<longrightarrow> at h' f = at h f"
  shows "byte_sink (fd_sink H vk fd) (\<lambda>h. at h f) (\<lambda>bs (c, p). (overwrite c p bs, p + length bs))"
proof -
  have s: "fd_sink H vk fd = file_write H f"
    using open_file_only [OF assms(2)] by (intro ext) (auto simp: fd_sink_def)
  show ?thesis
    unfolding byte_sink_def s using host_filesD(1) [OF assms(1)] assms(3)
    by (auto simp: overwrite_append min_absorb2 split: prod.split)
qed

text \<open>The three calls on an open file, when they do not report an error.\<close>

lemma sys_write_file:
  assumes laws: "engine_bytes P content" "host_files P H at" and fd: "open_file vk fd f"
    and run: "sys_write P H (subctx_new [fd, a, m, 0, 0, 0]) vk = (Ok n, vk')" and ok: "\<not> n <s 0"
  shows "\<exists>h. vk' = vk\<lparr>host := h\<rparr> \<and> unat n \<le> unat m
    \<and> at h f = (case at (host vk) f of (c, p) \<Rightarrow> (overwrite c p (take (unat n) (guest_bytes content a (unat m) vk)), p + unat n))"
proof (cases "m = 0")
  case True
  then have "n = 0" "vk' = vk\<lparr>host := host vk\<rparr>" using run by (simp_all add: sys_write_def)
  then show ?thesis by (intro exI [of _ "host vk"]) (auto split: prod.split)
next
  case False
  then obtain bs s where rd0: "mem_read P a (unat m) vk = (Ok bs, s)"
    and w0: "(case write_fd H fd bs s of (None, vk) \<Rightarrow> (Ok (last_errno P vk), vk) | (Some n, vk) \<Rightarrow> (Ok (of_nat n), vk)) = (Ok n :: u64 vk_outcome, vk')"
    using run by (auto simp: sys_write_def and_then_Ok unat_eq_zero)
  have rd: "s = vk" "bs = guest_bytes content a (unat m) vk"
    using mem_read_Ok [OF laws(1) rd0] by simp_all
  note w = w0 [unfolded rd(1)]
  obtain r h where fw: "file_write H f bs (host vk) = (r, h)" by (rule prod.exhaust)
  then have wf: "write_fd H fd bs vk = (r, vk\<lparr>host := h\<rparr>)"
    using open_file_only [OF fd] by (auto simp: write_fd_def on_host_def)
  then obtain k where k: "r = Some k" "n = of_nat k" "vk' = vk\<lparr>host := h\<rparr>"
    using w ok last_errno_negative [OF laws(2)] by (cases r) auto
  have "k \<le> length bs" "at h f = (case at (host vk) f of (c, p) \<Rightarrow> (overwrite c p (take k bs), p + k))"
    using host_filesD(1) [OF laws(2)] fw k(1) by blast+
  moreover have "unat (of_nat k :: u64) = k"
    using calculation(1) unat_bound [of m] by (simp add: rd(2) unat_of_nat mod_less order_le_less_trans)
  ultimately show ?thesis using k rd(2) by auto
qed

lemma sys_lseek_file:
  assumes laws: "host_files P H at" and fd: "open_file vk fd f"
    and run: "sys_lseek P H (subctx_new [fd, pos, 0, 0, 0, 0]) vk = (Ok q, vk')" and ok: "\<not> q <s 0"
  shows "\<exists>h. vk' = vk\<lparr>host := h\<rparr> \<and> q = pos \<and> at h f = (fst (at (host vk) f), unat pos)"
proof -
  obtain r h where fs: "file_seek H f (SeekStart pos) (host vk) = (r, h)" by (rule prod.exhaust)
  show ?thesis
    using run fs open_file_only [OF fd] ok host_filesD(2,4) [OF laws] neg_errno_negative
      neg_errno_negative [of EIO, unfolded EIO_def]
    by (auto simp: sys_lseek_def seek_fd_def seek_from_def SEEK_SET_def EIO_def on_host_def word_sless_alt
        split: sum.splits option.splits)
qed

lemma sys_read_file:
  assumes laws: "engine_bytes P content" "host_files P H at" and fd: "open_file vk fd f"
    and run: "sys_read P H (subctx_new [fd, a, m, 0, 0, 0]) vk = (Ok n, vk')" and ok: "\<not> n <s 0"
  shows "unat n \<le> unat m \<and> at (host vk') f = (case at (host vk) f of (c, p) \<Rightarrow> (c, p + unat n))
    \<and> guest_bytes content a (unat n) vk' = (case at (host vk) f of (c, p) \<Rightarrow> take (unat n) (drop p c))"
proof (cases "m = 0")
  case True
  then have "n = 0" "vk' = vk" using run by (simp_all add: sys_read_def)
  then show ?thesis by (auto simp: guest_bytes_def split: prod.split)
next
  case False
  obtain r h where fr: "file_read P f (unat m) (host vk) = (r, h)" by (rule prod.exhaust)
  then have d: "deliver_std P a (unat m) (r, vk\<lparr>host := h\<rparr>) = (Ok n, vk')"
    using run False open_file_only [OF fd]
    by (auto simp: sys_read_def with_buffer_def unat_eq_zero on_host_def Let_def split: if_splits)
  then obtain k buf where k: "r = Some (k, buf)" "deliver P True a (unat m) k buf (vk\<lparr>host := h\<rparr>) = (Ok n, vk')"
    using ok last_errno_negative [OF laws(2)] by (cases r) (auto simp: deliver_std_def)
  have f: "k \<le> unat m" "at h f = (case at (host vk) f of (c, p) \<Rightarrow> (c, p + k))"
    "map buf [0..<k] = (case at (host vk) f of (c, p) \<Rightarrow> take k (drop p c))"
    using host_filesD(3) [OF laws(2)] fr k(1) by blast+
  then have "k < 18446744073709551616" using unat_bound [of m] by linarith
  from deliver_Ok [OF laws(1) k(2) this] f show ?thesis by auto
qed

text \<open>
  C14: what is written to a file is read back. A write, a seek back to where it began and a read into any other
  buffer, none of them reporting an error: the bytes that arrive are the first ones of those written, the file is
  the old one overwritten at the position by the bytes the write took, and the position is after what was read.
\<close>

theorem file_write_seek_read:
  assumes laws: "engine_bytes P content" "host_files P H at" and fd: "open_file vk fd f"
    and w: "sys_write P H (subctx_new [fd, a, m, 0, 0, 0]) vk = (Ok n, vk1)" "\<not> n <s 0"
    and s: "sys_lseek P H (subctx_new [fd, of_nat (snd (at (host vk) f)), 0, 0, 0, 0]) vk1 = (Ok q, vk2)" "\<not> q <s 0"
    and r: "sys_read P H (subctx_new [fd, b, k, 0, 0, 0]) vk2 = (Ok l, vk3)" "\<not> l <s 0"
    and fits: "snd (at (host vk) f) < 2 ^ 63" "k \<le> n"
  shows "guest_bytes content b (unat l) vk3 = take (unat l) (guest_bytes content a (unat m) vk)
    \<and> at (host vk3) f = (overwrite (fst (at (host vk) f)) (snd (at (host vk) f)) (take (unat n) (guest_bytes content a (unat m) vk)),
         snd (at (host vk) f) + unat l) \<and> unat l \<le> unat k"
proof -
  obtain c p where cp: "at (host vk) f = (c, p)" by (rule prod.exhaust)
  let ?bs = "take (unat n) (guest_bytes content a (unat m) vk)"
  obtain h1 where v1: "vk1 = vk\<lparr>host := h1\<rparr>" and nm: "unat n \<le> unat m" and at1: "at h1 f = (overwrite c p ?bs, p + unat n)"
    using sys_write_file [OF laws fd w] by (auto simp: cp)
  have fd1: "open_file vk1 fd f" using fd by (simp add: v1 open_file_def)
  have p: "unat (of_nat p :: u64) = p" using fits(1) by (simp add: cp unat_of_nat)
  obtain h2 where v2: "vk2 = vk1\<lparr>host := h2\<rparr>" and at2: "at h2 f = (overwrite c p ?bs, p)"
    using sys_lseek_file [OF laws(2) fd1 s] p by (auto simp: v1 at1 cp)
  have fd2: "open_file vk2 fd f" using fd1 by (simp add: v2 open_file_def)
  have rd: "unat l \<le> unat k" "at (host vk3) f = (overwrite c p ?bs, p + unat l)"
    "guest_bytes content b (unat l) vk3 = take (unat l) (drop p (overwrite c p ?bs))"
    using sys_read_file [OF laws fd2 r] by (simp_all add: v2 at2)
  have len: "length ?bs = unat n" using nm by simp
  have "unat l \<le> unat n" using rd(1) fits(2) by (simp add: word_le_nat_alt)
  then have "take (unat l) (drop p (overwrite c p ?bs)) = take (unat l) (take (length ?bs) (drop p (overwrite c p ?bs)))"
    by (simp only: len take_take min_absorb1)
  also have "\<dots> = take (unat l) (guest_bytes content a (unat m) vk)"
    using \<open>unat l \<le> unat n\<close> by (simp only: overwrite_read_back take_take min_absorb1)
  finally show ?thesis using rd by (simp add: cp)
qed

section \<open>Structures of a 32-bit guest\<close>

text \<open>
  The kernel's \<open>struct stat64\<close> for i386, from its definition: the offset and width of every field, padding included,
  and the values a host's \<open>stat\<close> gives them. The guest reads a field as a little-endian word of its memory.
\<close>

definition stat64_layout :: "(nat \<times> nat) list" where
  "stat64_layout =
     [(0, 8), (8, 4), (12, 4), (16, 4), (20, 4), (24, 4), (28, 4), (32, 8), (40, 4), (44, 8), (52, 4), (56, 8),
      (64, 4), (68, 4), (72, 4), (76, 4), (80, 4), (84, 4), (88, 8)]"

definition stat64_values :: "libc_stat \<Rightarrow> u64 list" where
  "stat64_values st =
     [st_dev st, 0, take_bit 32 (st_ino st), ucast (st_mode st), take_bit 32 (st_nlink st), ucast (st_uid st),
      ucast (st_gid st), st_rdev st, 0, st_size st, take_bit 32 (st_blksize st), st_blocks st,
      take_bit 32 (st_atime st), take_bit 32 (st_atime_nsec st), take_bit 32 (st_mtime st),
      take_bit 32 (st_mtime_nsec st), take_bit 32 (st_ctime st), take_bit 32 (st_ctime_nsec st), st_ino st]"

text \<open>The guest's memory holds the structure at \<open>buf\<close>; only the engine differs from \<open>vk\<close>, and only in those bytes.\<close>

definition stat64_at :: "('u \<Rightarrow> nat \<Rightarrow> u8) \<Rightarrow> u64 \<Rightarrow> libc_stat \<Rightarrow> ('u, 'h) Valkyrie \<Rightarrow> ('u, 'h) Valkyrie \<Rightarrow> bool" where
  "stat64_at content buf st vk vk' \<longleftrightarrow>
     map (\<lambda>(off, w). guest_word content (buf + of_nat off) w vk') stat64_layout = stat64_values st
   \<and> vk' = vk\<lparr>uc := uc vk'\<rparr>
   \<and> (\<forall>x. \<not> in_range buf 96 x \<longrightarrow> content (uc vk') x = content (uc vk) x)"

lemma guest_word_written:
  assumes "engine_bytes P content" "mem_write P a d vk = (Ok x, vk')" "off + w \<le> length d"
  shows "guest_word content (a + of_nat off) w vk' = from_le (take w (drop off d))"
proof (cases "w = 0")
  case False
  note m = mem_write_Ok [OF assms(1,2)]
  have "unat (a + of_nat off) = unat a + off"
    using m assms(3) False by (simp add: unat_word_ariths unat_of_nat)
  then have "guest_bytes content (a + of_nat off) w vk' = take w (drop off d)"
    using m assms(3) by (intro nth_equalityI) (auto simp: guest_bytes_def)
  then show ?thesis by (simp add: guest_word_def from_le_append_zeros)
qed (simp add: guest_word_def guest_bytes_def from_le_append_zeros [of "[]", simplified])

lemma from_le_to_le_wide:
  "from_le (to_le_bytes (x :: u32)) = (ucast x :: u64)" "from_le (to_le_bytes (y :: u64)) = y"
  by (simp_all add: to_le_bytes_def from_le_le_bytes take_bit_word_eq_self)

lemma ucast_cut: "(ucast (ucast (x :: u64) :: u32) :: u64) = take_bit 32 x"
  by (rule bit_word_eqI) (auto simp: bit_ucast_iff bit_take_bit_iff dest: bit_imp_le_length)

lemma pack_x86_stat64_fields:
  "length (pack_linux_x86_stat64_le st) = 96"
  "map (\<lambda>(off, w). from_le (take w (drop off (pack_linux_x86_stat64_le st)))) stat64_layout = stat64_values st"
  by (simp_all add: pack_linux_x86_stat64_le_def stat64_layout_def stat64_values_def from_le_to_le_wide ucast_cut)

lemma write_guest_stat64_holds:
  assumes laws: "engine_bytes P content" and run: "write_guest_stat64 P buf st vk = (Ok r, vk')"
  shows "r = 0 \<and> stat64_at content buf st vk vk'"
proof -
  let ?d = "pack_linux_x86_stat64_le st"
  obtain u where w: "mem_write P buf ?d vk = (Ok u, vk')" "r = 0"
    using run by (auto simp: write_guest_stat64_def outcome_elim)
  have "\<forall>(off, n) \<in> set stat64_layout. off + n \<le> length ?d"
    by (simp add: pack_x86_stat64_fields(1) stat64_layout_def)
  then have "map (\<lambda>(off, n). guest_word content (buf + of_nat off) n vk') stat64_layout
      = map (\<lambda>(off, n). from_le (take n (drop off ?d))) stat64_layout"
    using guest_word_written [OF laws w(1)] by (intro map_cong refl) auto
  with mem_write_Ok [OF laws w(1)] w(2) show ?thesis
    by (simp add: stat64_at_def pack_x86_stat64_fields)
qed

text \<open>
  C15: what a 32-bit guest reads after \<open>fstat64\<close>, \<open>stat64\<close> or \<open>fstatat64\<close>. When the host answers and the call
  returns, the result is 0 and the guest's buffer holds the kernel's structure: at each of its 19 offsets the value
  of the host, device, size, number of blocks and inode in full, the 32-bit fields cut to their width, the padding
  zero; no other byte of guest memory and nothing else of the emulator changes. When the host refuses \<open>fstat\<close>, the
  result is its errno and only the host changes.
\<close>

theorem stat64_reaches_guest:
  assumes laws: "engine_bytes P content"
  shows "(\<forall>ret st h r vk'. libc_fstat F (ucast fd) (host vk) = ((ret, st), h)
      \<and> sys_fstat64 P F (subctx_new [fd, buf, 0, 0, 0, 0]) vk = (Ok r, vk') \<longrightarrow>
        (if ret = - 1 then r = last_errno P vk' \<and> vk' = vk\<lparr>host := h\<rparr>
         else r = 0 \<and> stat64_at content buf st (vk\<lparr>host := h\<rparr>) vk'))
    \<and> (\<forall>name vk1 st vk2 r vk'. read_guest_string P path vk = (Ok name, vk1) \<and> stat_at P F AT_FDCWD name 0 vk1 = (Ok st, vk2)
      \<and> sys_stat64 P F (subctx_new [path, buf, 0, 0, 0, 0]) vk = (Ok r, vk') \<longrightarrow> r = 0 \<and> stat64_at content buf st vk2 vk')
    \<and> (\<forall>name vk1 st vk2 r vk'. read_guest_string P path vk = (Ok name, vk1)
      \<and> stat_at P F (ucast dirfd) name (ucast flags) vk1 = (Ok st, vk2)
      \<and> sys_fstatat64 P F (subctx_new [dirfd, path, buf, flags, 0, 0]) vk = (Ok r, vk') \<longrightarrow> r = 0 \<and> stat64_at content buf st vk2 vk')"
proof (intro conjI allI impI)
  fix ret st h r vk'
  assume a: "libc_fstat F (ucast fd) (host vk) = ((ret, st), h) \<and> sys_fstat64 P F (subctx_new [fd, buf, 0, 0, 0, 0]) vk = (Ok r, vk')"
  show "if ret = - 1 then r = last_errno P vk' \<and> vk' = vk\<lparr>host := h\<rparr> else r = 0 \<and> stat64_at content buf st (vk\<lparr>host := h\<rparr>) vk'"
    using a write_guest_stat64_holds [OF laws] by (auto simp: sys_fstat64_def on_host_def split: if_splits)
next
  fix name vk1 st vk2 r vk'
  assume a: "read_guest_string P path vk = (Ok name, vk1) \<and> stat_at P F AT_FDCWD name 0 vk1 = (Ok st, vk2)
      \<and> sys_stat64 P F (subctx_new [path, buf, 0, 0, 0, 0]) vk = (Ok r, vk')"
  then have "write_guest_stat64 P buf st vk2 = (Ok r, vk')" by (clarsimp simp: sys_stat64_def or_last_errno_def)
  with write_guest_stat64_holds [OF laws] show "r = 0" "stat64_at content buf st vk2 vk'" by blast+
next
  fix name vk1 st vk2 r vk'
  assume a: "read_guest_string P path vk = (Ok name, vk1) \<and> stat_at P F (ucast dirfd) name (ucast flags) vk1 = (Ok st, vk2)
      \<and> sys_fstatat64 P F (subctx_new [dirfd, path, buf, flags, 0, 0]) vk = (Ok r, vk')"
  then have "write_guest_stat64 P buf st vk2 = (Ok r, vk')" by (clarsimp simp: sys_fstatat64_def or_last_errno_def)
  with write_guest_stat64_holds [OF laws] show "r = 0" "stat64_at content buf st vk2 vk'" by blast+
qed

text \<open>The structures of \<open>statfs\<close> have the kernel's sizes.\<close>

lemma length_pack_x86_statfs: "length (pack_linux_x86_statfs_le st) = 64" "length (pack_linux_x86_statfs64_le st) = 84"
  by (simp_all add: pack_linux_x86_statfs_le_def pack_linux_x86_statfs64_le_def push_u32_le_def fsid_bytes_def Let_def
      length_concat sum_list_replicate)

section \<open>Inputs that crash the emulator\<close>

text \<open>
  C16: asking for the size of an attribute. The kernel takes a size of 0 as the question for the attribute's size
  and ignores the buffer; here the handler slices its empty buffer by that size, so a call with size 0 and a buffer
  address panics whenever the file has the attribute.
\<close>

theorem getxattr_size_query_panics:
  assumes path: "read_guest_string P path_ptr vk = (Ok path, vk)" "guest_path_at P vk AT_FDCWD path = Ok host_path"
      "CHR 0x00 \<notin> set host_path"
    and name: "read_guest_string P name_ptr vk = (Ok name, vk)" "CHR 0x00 \<notin> set name"
    and attribute: "libc_getxattr F host_path name 0 (host vk) = ((n, buf), h)" "0 <s n" and buffer: "value_ptr \<noteq> 0"
  shows "sys_getxattr P F (subctx_new [path_ptr, name_ptr, value_ptr, 0, 0, 0]) vk = (Panic, vk\<lparr>host := h\<rparr>)"
proof -
  have "\<not> n <s 0" "unat n \<noteq> 0" using attribute(2) by (auto simp: word_sless_alt unat_eq_0)
  then show ?thesis
    using assms by (simp add: sys_getxattr_def sys_path_getxattr_def with_host_path_def cstring_new_def with_buffer_def
        on_host_def deliver_filled_def deliver_def)
qed

text \<open>
  C17: closing with bits above the descriptor. The guest's register is compared in full with the table's keys but
  passed on as 32 bits: \<open>close\<close> of a tracked descriptor with a higher bit set closes the host's descriptor and
  leaves the entry, which then names a closed descriptor, or the next file the host opens under that number.
\<close>

theorem close_high_bits_keeps_entry:
  assumes mirror: "fd_mirror vk" and entry: "open_file vk fd f" and high: "fd' \<noteq> fd" "2 < fd'" "ucast fd' = (ucast fd :: i32)"
  shows "sys_close P H (subctx_new [fd', 0, 0, 0, 0, 0]) vk
      = (let (ret, h) = libc_close H (as_raw_fd f) (host vk)
         in (Ok (if ret = - 1 then last_errno P (vk\<lparr>host := h\<rparr>) else 0), vk\<lparr>host := h\<rparr>))
    \<and> open_file (snd (sys_close P H (subctx_new [fd', 0, 0, 0, 0, 0]) vk)) fd f"
proof -
  obtain e where e: "fd_files (fd_table vk) fd = Some e" "vf_file e = f" "2 < fd" using entry by (auto simp: open_file_def)
  have fd: "fd = scast (as_raw_fd f)" using mirror e by (auto simp: fd_mirror_def)
  then have raw: "ucast fd = as_raw_fd f" by (simp add: ucast_scast_32)
  have "fd_files (fd_table vk) fd' = None"
  proof (rule ccontr)
    assume "fd_files (fd_table vk) fd' \<noteq> None"
    then obtain g where "fd_files (fd_table vk) fd' = Some g" by blast
    then have "fd' = scast (as_raw_fd (vf_file g))" using mirror by (simp add: fd_mirror_def)
    then show False using high(1,3) fd by (simp add: ucast_scast_32)
  qed
  then show ?thesis
    using high e raw by (auto simp: sys_close_def on_host_def errno_or_def open_file_def split: prod.split)
qed

section \<open>On a reference host\<close>

text \<open>A host with one open file, number 5, an attribute on every path, and a record of its standard output.\<close>

record ref_host =
  rh_file :: "bytes \<times> nat"
  rh_out :: bytes

definition ref_files :: "(ref_state, ref_host) platform" where
  "ref_files = \<lparr>
     uc_mem_map = uc_mem_map ref_engine, uc_mem_unmap = uc_mem_unmap ref_engine, uc_mem_protect = uc_mem_protect ref_engine,
     uc_mem_write = uc_mem_write ref_engine, uc_mem_read = uc_mem_read ref_engine, uc_reg_read = uc_reg_read ref_engine,
     uc_reg_write = uc_reg_write ref_engine, uc_write_gdtr = uc_write_gdtr ref_engine, uc_emu_stop = uc_emu_stop ref_engine,
     libc_errno = (\<lambda>h. 5), libc_uname = (\<lambda>h. (None, h)), libc_clock_gettime = (\<lambda>c h. (None, h)),
     libc_getrandom = (\<lambda>n f h. (None, h)), libc_getrlimit = (\<lambda>r h. (None, h)), libc_prctl_capbset_read = (\<lambda>a h. (1, h)),
     libc_getpid = (\<lambda>h. 100), libc_gettid = (\<lambda>h. 100), system_time = (\<lambda>h. (None, h)), current_dir = (\<lambda>h. Some ''/''),
     file_try_clone = (\<lambda>f h. (None, h)), file_seek_start = (\<lambda>f n h. (False, h)),
     file_read = (\<lambda>f m h. case rh_file h of (c, p) \<Rightarrow> let bs = take m (drop p c)
       in (Some (length bs, (!) bs), h\<lparr>rh_file := (c, p + length bs)\<rparr>))\<rparr>"

definition ref_io :: "ref_host io_host" where
  "ref_io = idle_io\<lparr>stdout_write := (\<lambda>bs h. (Some (length bs), h\<lparr>rh_out := rh_out h @ bs\<rparr>)),
     file_write := (\<lambda>f bs h. case rh_file h of (c, p) \<Rightarrow>
       (Some (length bs), h\<lparr>rh_file := (overwrite c p bs, p + length bs)\<rparr>)),
     file_seek := (\<lambda>f s h. case s of
       SeekStart p \<Rightarrow> (Inr p, h\<lparr>rh_file := (fst (rh_file h), unat p)\<rparr>) | _ \<Rightarrow> (Inl (Some 22), h)),
     libc_close := (\<lambda>fd h. (0, h))\<rparr>"

definition ref_stat :: libc_stat where
  "ref_stat = \<lparr>st_dev = 0x100000002, st_ino = 0x300000004, st_nlink = 5, st_mode = 0x81A4, st_uid = 6, st_gid = 7, st_rdev = 8,
     st_size = 0x900000001, st_blksize = 4096, st_blocks = 10, st_atime = 11, st_atime_nsec = 12, st_mtime = 13,
     st_mtime_nsec = 14, st_ctime = 15, st_ctime_nsec = 16, st_image = []\<rparr>"

definition ref_path :: "'h path_host" where
  "ref_path = idle_path\<lparr>libc_getxattr := (\<lambda>p a n h. ((7, \<lambda>i. 0), h)), libc_fstat := (\<lambda>fd h. ((0, ref_stat), h))\<rparr>"

definition ref_guest :: "(ref_state, ref_host) Valkyrie" where
  "ref_guest = fresh ((ref_cfg X86)\<lparr>c_stdin_data := [1, 2, 3]\<rparr>) (vstruct (ref_vk X86)) (uc (ref_vk X86)) (vmem (ref_vk X86))
     (vos (ref_vk X86)) (linux_creds (ref_vk X86))
     \<lparr>next_fd = 3, fd_files = [5 \<mapsto> \<lparr>vf_file = 5, vf_path = ''/x'', vf_flags = 0, vf_mode = 0\<rparr>]\<rparr>
     \<lparr>rh_file = ([9, 9, 9, 9], 1), rh_out = []\<rparr>"

lemma ref_files_bytes: "engine_bytes ref_files ref_content"
  using ref_engine_bytes unfolding engine_bytes_def by (simp add: ref_files_def)

lemma ref_files_host: "host_files ref_files ref_io (\<lambda>h f. rh_file h)"
  by (auto simp: host_files_def ref_files_def ref_io_def Let_def word_sless_alt split: prod.splits SeekFrom.splits
      intro: nth_equalityI)

lemma ref_io_log: "stdout_log ref_io rh_out" "takes_all (fd_sink ref_io vk 1)"
  by (auto simp: stdout_log_def takes_all_def fd_sink_def ref_io_def)

lemma ref_files_read: "mem_read ref_files a n vk = (if n = 0 then (Err (BadConfig ''mem.read size must be > 0''), vk)
    else if 2 ^ 63 \<le> n then (Panic, vk) else (Ok (guest_bytes ref_content a n vk), vk))"
  by (auto simp: mem_read_def ref_files_def ref_engine_def guest_bytes_def)

lemma ref_files_write:
  assumes "d \<noteq> []" "unat a + length d \<le> 2 ^ 64"
  shows "\<exists>u. mem_write ref_files a d vk = (Ok (), vk\<lparr>uc := u\<rparr>)"
  using assms by (intro exI [of _ "snd (uc_mem_write ref_engine a d (uc vk))"])
    (simp add: mem_write_def uc_do_def ref_files_def ref_engine_def)

lemma ref_guest_sel [simp]:
  "c_stdin_data (cfg ref_guest) = [1, 2, 3]" "stdin_offset ref_guest = 0" "c_archsize (cfg ref_guest) = 32"
  "open_file ref_guest 5 5" "fd_mirror ref_guest" "rh_file (host ref_guest) = ([9, 9, 9, 9], 1)" "rh_out (host ref_guest) = []"
  by (auto simp: ref_guest_def fresh_def open_file_def fd_mirror_def as_raw_fd_def ref_cfg_def defaults_for_arch_def split: if_splits)

lemma ref_read_stdin:
  assumes "cfg vk = cfg ref_guest" "count \<noteq> 0" "stdin_offset vk < 3" "unat a + 3 \<le> 2 ^ 64" "unat count < 2 ^ 63"
  shows "\<exists>vk1. sys_read ref_files ref_io (subctx_new [0, a, count, 0, 0, 0]) vk = (Ok (of_nat (min (3 - stdin_offset vk) (unat count))), vk1)
    \<and> cfg vk1 = cfg vk \<and> stdin_offset vk1 = stdin_offset vk + min (3 - stdin_offset vk) (unat count)"
proof -
  define n where "n = min (3 - stdin_offset vk) (unat count)"
  define d where "d = map ((!) (drop (stdin_offset vk) [1, 2, 3 :: u8])) [0..<n]"
  have n: "0 < n" "n \<le> 3" using assms by (auto simp: n_def unat_gt_0)
  then have d: "d \<noteq> []" "unat a + length d \<le> 2 ^ 64" using assms(4) by (auto simp: d_def)
  obtain u where w: "mem_write ref_files a d (vk\<lparr>stdin_offset := stdin_offset vk + n\<rparr>) = (Ok (), vk\<lparr>stdin_offset := stdin_offset vk + n, uc := u\<rparr>)"
    using ref_files_write [OF d] by blast
  have "n \<le> unat count" by (simp add: n_def)
  then show ?thesis
    using assms n w by (simp add: sys_read_def with_buffer_def Let_def deliver_def numeral_3_eq_3 [symmetric] n_def [symmetric] d_def [symmetric])
qed

theorem stdin_delivered_in_order_witness:
  "\<exists>vk'. stdin_reads ref_files ref_io ref_content [(0x400000, 2), (0x400010, 5)] ref_guest = (Ok [1, 2, 3], vk')
    \<and> stdin_offset vk' = 3"
proof -
  obtain vk1 where 1: "sys_read ref_files ref_io (subctx_new [0, 0x400000, 2, 0, 0, 0]) ref_guest = (Ok 2, vk1)"
    "cfg vk1 = cfg ref_guest" "stdin_offset vk1 = 2"
    using ref_read_stdin [of ref_guest 2 "0x400000"] by auto
  obtain vk2 where 2: "sys_read ref_files ref_io (subctx_new [0, 0x400010, 5, 0, 0, 0]) vk1 = (Ok 1, vk2)"
    using ref_read_stdin [OF 1(2), of 5 "0x400010"] 1(3) by auto
  obtain out where r: "stdin_reads ref_files ref_io ref_content [(0x400000, 2), (0x400010, 5)] ref_guest = (Ok out, vk2)"
    using 1(1) 2 by simp
  from stdin_delivered_in_order [OF ref_files_bytes _ _ r] have "out = [1, 2, 3]" "stdin_offset vk2 = length out" by simp_all
  with r show ?thesis by simp
qed

text \<open>A vector of one buffer, the byte 0x41 behind it.\<close>

definition ref_vector :: "(ref_state, ref_host) Valkyrie" where
  "ref_vector = ref_guest\<lparr>uc := (uc ref_guest)\<lparr>ref_content := (\<lambda>x. if x = 0x400000 then 8 else if x = 0x400002 then 0x40
     else if x = 0x400004 then 1 else if x = 0x400008 then 0x41 else 0)\<rparr>\<rparr>"

lemma ref_vector_words:
  "guest_word ref_content 0x400000 4 ref_vector = 0x400008" "guest_word ref_content 0x400004 4 ref_vector = 1"
  "guest_bytes ref_content 0x400008 (Suc 0) ref_vector = [0x41]"
proof -
  have "replicate 4 (0 :: u8) = [0, 0, 0, 0]" "[0..<4] = [0, 1, 2, 3]" by (simp_all add: eval_nat_numeral upt_conv_Cons)
  then show "guest_word ref_content 0x400000 4 ref_vector = 0x400008" "guest_word ref_content 0x400004 4 ref_vector = 1"
      "guest_bytes ref_content 0x400008 (Suc 0) ref_vector = [0x41]"
    by (simp_all add: guest_word_def guest_bytes_def ref_vector_def)
qed

lemma ref_vector_sel [simp]:
  "c_stdin_data (cfg ref_vector) = [1, 2, 3]" "stdin_offset ref_vector = 0" "c_archsize (cfg ref_vector) = 32"
  "open_file ref_vector 5 5" "rh_file (host ref_vector) = ([9, 9, 9, 9], 1)" "rh_out (host ref_vector) = []"
  using ref_guest_sel by (simp_all add: ref_vector_def open_file_def)

text \<open>The same vector written to the standard output, to the file at its position 1, and to descriptor 0.\<close>

lemma ref_file_sink: "byte_sink (fd_sink ref_io ref_vector 5) rh_file (\<lambda>bs (c, p). (overwrite c p bs, p + length bs))"
proof -
  have "\<forall>bs h h'. file_write ref_io 5 bs h = (None, h') \<longrightarrow> rh_file h' = rh_file h"
    by (simp add: ref_io_def split: prod.split)
  from file_sink [OF ref_files_host ref_vector_sel(4) this] show ?thesis .
qed

lemma ref_file_sink_all: "takes_all (fd_sink ref_io ref_vector 5)"
  using ref_vector_sel(4) by (auto simp: takes_all_def fd_sink_def open_file_def ref_io_def split: prod.split)

theorem writev_gathers_witness:
  "(\<exists>vk'. sys_writev ref_files ref_io (subctx_new [1, 0x400000, 1, 0, 0, 0]) ref_vector = (Ok 1, vk') \<and> rh_out (host vk') = [0x41])
   \<and> (\<exists>vk'. sys_writev ref_files ref_io (subctx_new [5, 0x400000, 1, 0, 0, 0]) ref_vector = (Ok 1, vk')
        \<and> rh_file (host vk') = ([9, 0x41, 9, 9], 2))
   \<and> sys_writev ref_files ref_io (subctx_new [0, 0x400000, 1, 0, 0, 0]) ref_vector = (Ok (neg_errno EBADF), ref_vector)"
proof -
  have w: "ptr_width ref_vector = 4" by (simp add: ref_vector_def)
  have j: "joined ref_content 0x400000 1 ref_vector = [0x41]"
    by (simp add: joined_def gathered_def iov_buffer_def Let_def w ref_vector_words)
  have wd: "read_word ref_files a 4 ref_vector = (Ok (guest_word ref_content a 4 ref_vector), ref_vector)" for a
    by (simp add: read_word_def ref_files_read guest_word_def)
  obtain e where e: "fd_files (fd_table ref_vector) 5 = Some e" "vf_file e = 5"
    using open_file_only [of ref_vector 5 5] by auto
  obtain v1 v2 v3 r where run: "sys_writev ref_files ref_io (subctx_new [1, 0x400000, 1, 0, 0, 0]) ref_vector = (Ok 1, v1)"
    "sys_writev ref_files ref_io (subctx_new [5, 0x400000, 1, 0, 0, 0]) ref_vector = (Ok 1, v2)"
    "sys_writev ref_files ref_io (subctx_new [0, 0x400000, 1, 0, 0, 0]) ref_vector = (Ok r, v3)"
    by (simp add: sys_writev_def w writev_loop.simps wd ref_vector_words ref_files_read write_fd_def on_host_def e ref_io_def)
  have overwritten: "overwrite [9, 9, 9, 9] 1 [0x41] = [9, 0x41 :: u8, 9, 9]"
    by (simp add: overwrite_def)
  note one = writev_gathers [OF ref_files_bytes impI [OF stdout_sink [OF ref_io_log(1)]] run(1), unfolded j]
    and two = writev_gathers [OF ref_files_bytes impI [OF ref_file_sink] run(2), unfolded j]
  have "rh_out (host v1) = [0x41]"
    using one ref_io_log(2) by auto
  moreover have "rh_file (host v2) = ([9, 0x41, 9, 9], 2)"
    using two ref_file_sink_all overwritten by (auto simp del: One_nat_def)
  moreover have "v3 = ref_vector \<and> r = neg_errno EBADF"
    using writev_gathers [OF ref_files_bytes _ run(3)] j by simp
  ultimately show ?thesis using run by blast
qed

theorem file_write_seek_read_witness:
  "\<exists>vk1 vk2 vk3. sys_write ref_files ref_io (subctx_new [5, 0x400008, 2, 0, 0, 0]) ref_vector = (Ok 2, vk1)
    \<and> sys_lseek ref_files ref_io (subctx_new [5, 1, 0, 0, 0, 0]) vk1 = (Ok 1, vk2)
    \<and> sys_read ref_files ref_io (subctx_new [5, 0x400010, 2, 0, 0, 0]) vk2 = (Ok 2, vk3)
    \<and> guest_bytes ref_content 0x400010 2 vk3 = guest_bytes ref_content 0x400008 2 ref_vector
    \<and> rh_file (host vk3) = ([9, 0x41, 0, 9], 3)"
proof -
  have b: "guest_bytes ref_content 0x400008 2 ref_vector = [0x41, 0]"
  proof -
    have "[0..<2] = [0, 1]" by (simp add: numeral_2_eq_2)
    then show ?thesis by (simp add: guest_bytes_def ref_vector_def)
  qed
  obtain e where e: "fd_files (fd_table ref_vector) 5 = Some e" "vf_file e = 5"
    using open_file_only [of ref_vector 5 5] by auto
  let ?vk1 = "ref_vector\<lparr>host := \<lparr>rh_file = ([9, 0x41, 0, 9], 3), rh_out = []\<rparr>\<rparr>"
  let ?vk2 = "ref_vector\<lparr>host := \<lparr>rh_file = ([9, 0x41, 0, 9], 1), rh_out = []\<rparr>\<rparr>"
  have w: "sys_write ref_files ref_io (subctx_new [5, 0x400008, 2, 0, 0, 0]) ref_vector = (Ok 2, ?vk1)"
    by (simp add: sys_write_def ref_files_read b write_fd_def on_host_def ref_io_def overwrite_def e)
  have s: "sys_lseek ref_files ref_io (subctx_new [5, 1, 0, 0, 0, 0]) ?vk1 = (Ok 1, ?vk2)"
    by (simp add: sys_lseek_def seek_fd_def e seek_from_def SEEK_SET_def SEEK_CUR_def SEEK_END_def on_host_def ref_io_def)
  have d: "map ((!) [0x41, 0 :: u8]) [0..<2] = [0x41, 0]" by (simp add: numeral_2_eq_2)
  obtain u where "mem_write ref_files 0x400010 [0x41, 0] (?vk1\<lparr>uc := uc ref_vector\<rparr>) = (Ok (), ?vk1\<lparr>uc := u\<rparr>)"
    using ref_files_write [of "[0x41, 0]" "0x400010" "?vk1\<lparr>uc := uc ref_vector\<rparr>"] by auto
  moreover have "file_read ref_files 5 2 (host ?vk2) = (Some (2, (!) [0x41, 0]), host ?vk1)"
    by (simp add: ref_files_def)
  ultimately obtain vk3 where r: "sys_read ref_files ref_io (subctx_new [5, 0x400010, 2, 0, 0, 0]) ?vk2 = (Ok 2, vk3)"
    by (simp add: sys_read_def e with_buffer_def on_host_def deliver_std_def deliver_def d)
  have "open_file ref_vector 5 5" by simp
  from file_write_seek_read [OF ref_files_bytes ref_files_host this w _ _ _ r] s b have
    "guest_bytes ref_content 0x400010 2 vk3 = [0x41, 0]" "rh_file (host vk3) = ([9, 0x41, 0, 9], 3)"
    by (simp_all add: overwrite_def word_sless_alt numeral_3_eq_3)
  with w s r b show ?thesis by metis
qed

theorem stat64_reaches_guest_witness:
  "\<exists>vk'. sys_fstat64 ref_files ref_path (subctx_new [5, 0x400000, 0, 0, 0, 0]) ref_guest = (Ok 0, vk')
    \<and> map (\<lambda>(off, w). guest_word ref_content (0x400000 + of_nat off) w vk') stat64_layout
      = [0x100000002, 0, 4, 0x81A4, 5, 6, 7, 8, 0, 0x900000001, 4096, 10, 11, 12, 13, 14, 15, 16, 0x300000004]"
proof -
  let ?d = "pack_linux_x86_stat64_le ref_stat"
  have "?d \<noteq> []" "unat (0x400000 :: u64) + length ?d \<le> 2 ^ 64"
    using pack_x86_stat64_fields(1) [of ref_stat] by (auto simp del: length_0_conv simp flip: length_0_conv)
  from ref_files_write [OF this] obtain u where
    "mem_write ref_files 0x400000 ?d ref_guest = (Ok (), ref_guest\<lparr>uc := u\<rparr>)" by blast
  then have run: "sys_fstat64 ref_files ref_path (subctx_new [5, 0x400000, 0, 0, 0, 0]) ref_guest = (Ok 0, ref_guest\<lparr>uc := u\<rparr>)"
    by (simp add: sys_fstat64_def write_guest_stat64_def on_host_def ref_path_def)
  have f: "libc_fstat ref_path (ucast 5) (host ref_guest) = ((0, ref_stat), host ref_guest)" by (simp add: ref_path_def)
  have "stat64_at ref_content 0x400000 ref_stat (ref_guest\<lparr>host := host ref_guest\<rparr>) (ref_guest\<lparr>uc := u\<rparr>)"
    using stat64_reaches_guest [OF ref_files_bytes, THEN conjunct1, of ref_path 5 ref_guest "0x400000"] f run by fastforce
  moreover have "stat64_values ref_stat
      = [0x100000002, 0, 4, 0x81A4, 5, 6, 7, 8, 0, 0x900000001, 4096, 10, 11, 12, 13, 14, 15, 16, 0x300000004]"
    by (simp add: stat64_values_def ref_stat_def)
  ultimately show ?thesis using run by (auto simp: stat64_at_def)
qed

lemma ref_empty_string: "a \<in> {0x400000, 0x400010} \<Longrightarrow> read_guest_string ref_files a ref_guest = (Ok '''', ref_guest)"
  by (auto simp: read_guest_string_def read_guest_cstring_def MAX_PATH_LEN_def upt_conv_Cons [of 0 4096] ref_files_read
      guest_bytes_def ref_guest_def fresh_def ref_vk_def utf8_lossy.simps chars_def)

theorem getxattr_size_query_panics_witness:
  "sys_getxattr ref_files ref_path (subctx_new [0x400000, 0x400010, 0x400020, 0, 0, 0]) ref_guest = (Panic, ref_guest)"
proof -
  have p: "guest_path_at ref_files ref_guest AT_FDCWD '''' = Ok ''/srv/''"
    by (simp add: guest_path_at_def get_path_at_def Let_def str_trim_def trim_slashes_def trim_prefixes.simps
        get_cwd_path_def path_push_def ref_files_def ref_guest_def fresh_def ref_cfg_def)
  have g: "libc_getxattr ref_path ''/srv/'' '''' 0 (host ref_guest) = ((7, \<lambda>i. 0), host ref_guest)"
    by (simp add: ref_path_def)
  show ?thesis
    using getxattr_size_query_panics [OF ref_empty_string p _ ref_empty_string _ g, of "0x400000" "0x400010" "0x400020"]
    by (simp add: word_sless_alt)
qed

theorem close_high_bits_keeps_entry_witness:
  "open_file (snd (sys_close ref_files ref_io (subctx_new [0x100000005, 0, 0, 0, 0, 0]) ref_guest)) 5 5"
proof -
  have "open_file ref_guest 5 5" "fd_mirror ref_guest" "(0x100000005 :: u64) \<noteq> 5" "(2 :: u64) < 0x100000005"
    "(ucast (0x100000005 :: u64) :: i32) = ucast (5 :: u64)" by simp_all
  from close_high_bits_keeps_entry [OF this(2,1,3,4,5)] show ?thesis ..
qed

end
