(* ===== verification/Vk_Report.thy ===== *)
theory Vk_Report
  imports Vk_Core
begin

text \<open>
  What the emulator prints: the log lines of \<open>src/src/logger.rs\<close>, the messages of \<open>src/src/error.rs\<close>, the
  dumps of \<open>src/src/memory.rs\<close> and the crash report of \<open>src/src/lib.rs\<close>. Output is a value: the lines in the
  order they are printed. The \<open>Debug\<close> and \<open>Display\<close> texts of other crates are arguments.
\<close>

section \<open>Formatting\<close>

definition digit :: "nat \<Rightarrow> char" where
  "digit d = (if d < 10 then char_of (48 + d) else char_of (87 + d))"

fun digits :: "nat \<Rightarrow> nat \<Rightarrow> string" where
  "digits b n = (if b < 2 \<or> n < b then [digit n] else digits b (n div b) @ [digit (n mod b)])"

declare digits.simps [simp del]

text \<open>\<open>{:>w}\<close> and \<open>{:<w}\<close>; \<open>{:#x}\<close> and \<open>{:#0wx}\<close>, whose width counts the prefix.\<close>

definition pad_left :: "nat \<Rightarrow> char \<Rightarrow> string \<Rightarrow> string" where
  "pad_left w c s = replicate (w - length s) c @ s"

definition pad_right :: "nat \<Rightarrow> char \<Rightarrow> string \<Rightarrow> string" where
  "pad_right w c s = s @ replicate (w - length s) c"

definition hex :: "u64 \<Rightarrow> string" where
  "hex v = ''0x'' @ digits 16 (unat v)"

definition hex_wide :: "nat \<Rightarrow> u64 \<Rightarrow> string" where
  "hex_wide w v = ''0x'' @ pad_left (w - 2) (CHR ''0'') (digits 16 (unat v))"

definition decimal :: "nat \<Rightarrow> string" where
  "decimal n = digits 10 n"

definition newline :: string where "newline = [CHR 0x0A]"
definition escape :: string where "escape = [CHR 0x1B]"

definition writeln :: "string \<Rightarrow> string \<Rightarrow> string" where
  "writeln report s = report @ s @ newline"

text \<open>\<open>str::lines\<close>: the parts between line feeds, without a last empty one; a carriage return at an end is dropped.\<close>

definition chomp :: "string \<Rightarrow> string" where
  "chomp s = (if s \<noteq> [] \<and> last s = CHR 0x0D then butlast s else s)"

fun lines_of :: "string \<Rightarrow> string \<Rightarrow> string list" where
  "lines_of part [] = (if part = [] then [] else [chomp part])"
| "lines_of part (c # cs) = (if c = CHR 0x0A then chomp part # lines_of [] cs else lines_of (part @ [c]) cs)"

section \<open>logger.rs\<close>

datatype LogLevel = Info | Success | Warning | Error | Debug1 | Debug2

definition color :: "LogLevel \<Rightarrow> string" where
  "color level = escape @
     (case level of Info \<Rightarrow> ''[97m'' | Success \<Rightarrow> ''[32m'' | Warning \<Rightarrow> ''[33m'' | Error \<Rightarrow> ''[31m''
      | Debug1 \<Rightarrow> ''[1;40m'' | Debug2 \<Rightarrow> ''[37;2m'')"

definition label :: "LogLevel \<Rightarrow> string" where
  "label level =
     (case level of Info \<Rightarrow> ''INFO'' | Success \<Rightarrow> ''SUCCESS'' | Warning \<Rightarrow> ''WARNING'' | Error \<Rightarrow> ''ERROR''
      | Debug1 \<Rightarrow> ''DEBUG1'' | Debug2 \<Rightarrow> ''DEBUG2'')"

definition log_reset :: string where
  "log_reset = escape @ ''[0m''"

text \<open>A line on standard error; a message of level \<open>Error\<close> then panics.\<close>

definition log_line :: "LogLevel \<Rightarrow> string \<Rightarrow> string" where
  "log_line level msg = color level @ ''['' @ label level @ ''] '' @ msg @ log_reset"

definition log_at :: "LogLevel \<Rightarrow> string \<Rightarrow> string list \<times> unit vk_outcome" where
  "log_at level msg = ([log_line level msg], if level = Error then Panic else Ok ())"

definition log_info :: "string \<Rightarrow> string list \<times> unit vk_outcome" where "log_info msg = log_at Info msg"
definition log_success :: "string \<Rightarrow> string list \<times> unit vk_outcome" where "log_success msg = log_at Success msg"
definition log_warning :: "string \<Rightarrow> string list \<times> unit vk_outcome" where "log_warning msg = log_at Warning msg"
definition log_error :: "string \<Rightarrow> string list \<times> unit vk_outcome" where "log_error msg = log_at Error msg"

definition log_debug :: "string \<Rightarrow> bool \<Rightarrow> string list \<times> unit vk_outcome" where
  "log_debug msg verbose = (if verbose then log_at Debug1 msg else ([], Ok ()))"

definition log_debug_cgrey :: "string \<Rightarrow> bool \<Rightarrow> string list \<times> unit vk_outcome" where
  "log_debug_cgrey msg verbose = (if verbose then log_at Debug2 msg else ([], Ok ()))"

lemma log_panics_iff: "snd (log_at level msg) = Panic \<longleftrightarrow> level = Error"
  by (simp add: log_at_def)

section \<open>Messages of the errors\<close>

text \<open>
  \<open>Display\<close> of \<open>ValkyrieError\<close>. \<open>io\<close>, \<open>uc\<close> and \<open>dbg\<close> are the texts of \<open>std::io::Error\<close>, of \<open>uc_error\<close> and
  the quoted form of a string.
\<close>

record texts =
  io_text :: "errno \<Rightarrow> string"
  uc_text :: "uc_error \<Rightarrow> string"
  str_text :: "string \<Rightarrow> string"
  prot_text :: "Prot \<Rightarrow> string"

definition fs_error_text :: "FsError \<Rightarrow> string" where
  "fs_error_text e =
     (case e of
        FileAlreadyHasFd fd \<Rightarrow> ''file already exists at fd '' @ decimal (unat fd)
      | SocketAlreadyHasFd fd \<Rightarrow> ''socket already exists at fd '' @ decimal (unat fd)
      | NoFileAtFd fd \<Rightarrow> ''no file at fd '' @ decimal (unat fd)
      | PoisonedFdTable \<Rightarrow> ''fd table mutex is poisoned''
      | CurrentDirError \<Rightarrow> ''failed to get current directory'')"

definition arch_text :: "Arch \<Rightarrow> string" where
  "arch_text a = (case a of X86 \<Rightarrow> ''X86'' | X86_64 \<Rightarrow> ''X86_64'')"

definition error_text :: "texts \<Rightarrow> ValkyrieError \<Rightarrow> string" where
  "error_text T e =
     (case e of
        BadConfig m \<Rightarrow> ''bad config: '' @ m
      | Io n \<Rightarrow> ''io: '' @ io_text T n
      | NotImplemented m \<Rightarrow> ''not implemented: '' @ m
      | StructConversion m \<Rightarrow> ''struct conversion error: '' @ m
      | UnsupportedArch a \<Rightarrow> ''unsupported arch: '' @ arch_text a
      | UnicornGeneralError m \<Rightarrow> ''UnicornGeneralError: '' @ str_text T m
      | UnicornErr u \<Rightarrow> ''unicorn: '' @ uc_text T u
      | HookErr m \<Rightarrow> ''hook error: '' @ m
      | HookNotHandled m \<Rightarrow> ''hook not handled: '' @ m
      | LoaderErr m \<Rightarrow> ''loader error: '' @ m
      | Disassembler m \<Rightarrow> ''disassembler error: '' @ m
      | UnknownSyscall n \<Rightarrow> ''unknown syscall number: '' @ decimal (unat n)
      | UnknownSyscallName m \<Rightarrow> ''unknown syscall name: '' @ m
      | FsErr f \<Rightarrow> ''file system error: '' @ fs_error_text f)"

section \<open>Dumps of memory.rs\<close>

text \<open>\<open>match r { Ok(a) => good(a), Err(e) => bad(e) }\<close>\<close>

definition on_result ::
  "'a vk_outcome \<times> 's \<Rightarrow> ('a \<Rightarrow> 's \<Rightarrow> 'b vk_outcome \<times> 's) \<Rightarrow> (ValkyrieError \<Rightarrow> 's \<Rightarrow> 'b vk_outcome \<times> 's) \<Rightarrow> 'b vk_outcome \<times> 's" where
  "on_result r good bad =
     (case r of
        (Ok a, s) \<Rightarrow> good a s
      | (Err e, s) \<Rightarrow> bad e s
      | (Panic, s) \<Rightarrow> (Panic, s)
      | (Diverges, s) \<Rightarrow> (Diverges, s))"

definition mapping_line :: "texts \<Rightarrow> nat \<Rightarrow> VMemRegion \<Rightarrow> string" where
  "mapping_line T i r =
     ''#'' @ decimal i @ '': '' @ hex (r_start r) @ '' - '' @ hex (r_start r + r_size r) @ '' (size='' @ hex (r_size r)
     @ '') prot='' @ prot_text T (r_prot r) @ '' info='' @ r_info r"

definition show_mappings :: "texts \<Rightarrow> VMemRegion list \<Rightarrow> string list" where
  "show_mappings T rs =
     (if rs = [] then [log_line Warning ''show_mappings() Memory regions mappings is empty'']
      else let sorted_regions = sort_key r_start rs in
        log_line Info ''== Memory regions mappings  =='' #
        map (\<lambda>(i, r). log_line Info (mapping_line T i r)) (enumerate 0 sorted_regions))"

fun chunks :: "nat \<Rightarrow> 'a list \<Rightarrow> 'a list list" where
  "chunks n xs = (if n = 0 \<or> xs = [] then [] else take n xs # chunks n (drop n xs))"

declare chunks.simps [simp del]

text \<open>\<open>slice::chunks\<close> panics on a chunk size of 0.\<close>

definition ascii_char :: "u8 \<Rightarrow> char" where
  "ascii_char b = (if 0x20 \<le> b \<and> b \<le> 0x7E then char_of (unat b) else CHR ''.'')"

fun join :: "string \<Rightarrow> string list \<Rightarrow> string" where
  "join sep [] = []"
| "join sep [s] = s"
| "join sep (s # t # ss) = s @ sep @ join sep (t # ss)"

definition stack_row :: "u64 \<Rightarrow> nat \<Rightarrow> bytes \<Rightarrow> string" where
  "stack_row start i chunk =
     hex_wide 18 (start + of_nat (i * 16)) @ '': ''
     @ pad_right 47 (CHR '' '') (join '' '' (map (\<lambda>b. pad_left 2 (CHR ''0'') (digits 16 (unat b))) chunk))
     @ '' |'' @ map ascii_char chunk @ ''|''"

definition dump_stacks :: "('u, 'h) platform \<Rightarrow> texts \<Rightarrow> ('u, 'h, string list) vk_call" where
  "dump_stacks P T vk =
     (let title = log_line Info ''== Stack memory dump =='' in
      on_result (get_sp P vk)
        (\<lambda>sp vk.
          if sp = 0 then (Ok [title, log_line Warning ''dump_stacks(): SP is 0''], vk)
          else let start = sat_sub sp 16; stop = sat_add sp 16; len = unat (stop - start) in
          on_result (mem_read P start len vk)
            (\<lambda>buf vk.
              (Ok (title # (''SP: '' @ hex sp @ '' | dumping ['' @ hex start @ ''..'' @ hex stop @ '']'')
                 # map (\<lambda>(i, chunk). stack_row start i chunk) (enumerate 0 (chunks 16 buf))), vk))
            (\<lambda>e vk. (Ok [title, log_line Warning
               (''dump_stacks(): mem.read failed at '' @ hex start @ '': '' @ error_text T e)], vk)))
        (\<lambda>e vk. (Ok [title, log_line Warning (''dump_stacks(): failed to read SP: '' @ error_text T e)], vk)))"

section \<open>The crash report of lib.rs\<close>

definition registers_x86 :: "(string \<times> RegX86) list" where
  "registers_x86 =
     [(''EAX'', RegX86.EAX), (''EBX'', RegX86.EBX), (''ECX'', RegX86.ECX), (''EDX'', RegX86.EDX),
      (''ESI'', RegX86.ESI), (''EDI'', RegX86.EDI), (''EBP'', RegX86.EBP), (''ESP'', RegX86.ESP),
      (''EIP'', RegX86.EIP), (''GsBase'', RegX86.GsBase), (''GS'', RegX86.GS), (''EFLAGS'', RegX86.EFLAGS)]"

definition registers_x86_64 :: "(string \<times> RegX86_64) list" where
  "registers_x86_64 =
     [(''RAX'', RegX86_64.RAX), (''RBX'', RegX86_64.RBX), (''RCX'', RegX86_64.RCX), (''RDX'', RegX86_64.RDX),
      (''RSI'', RegX86_64.RSI), (''RDI'', RegX86_64.RDI), (''RBP'', RegX86_64.RBP), (''RSP'', RegX86_64.RSP),
      (''R8'', RegX86_64.R8), (''R9'', RegX86_64.R9), (''R10'', RegX86_64.R10), (''R11'', RegX86_64.R11),
      (''R12'', RegX86_64.R12), (''R13'', RegX86_64.R13), (''R14'', RegX86_64.R14), (''R15'', RegX86_64.R15),
      (''RIP'', RegX86_64.RIP), (''EFLAGS'', RegX86_64.EFLAGS), (''FSBASE'', RegX86_64.FsBase)]"

fun register_lines :: "('u, 'h) platform \<Rightarrow> texts \<Rightarrow> nat \<Rightarrow> (string \<times> VRegister) list \<Rightarrow> string \<Rightarrow> ('u, 'h, string) vk_call" where
  "register_lines P T width [] report vk = (Ok report, vk)"
| "register_lines P T width ((name, reg) # rs) report vk =
     on_result (get_reg P reg vk)
       (\<lambda>val. register_lines P T width rs
          (writeln report (pad_left 6 (CHR '' '') name @ '' = '' @ hex_wide width val)))
       (\<lambda>err. register_lines P T width rs
          (writeln report (pad_left 6 (CHR '' '') name @ '' = <err '' @ error_text T err @ ''>'')))"

definition append_register_dump :: "('u, 'h) platform \<Rightarrow> texts \<Rightarrow> string \<Rightarrow> ('u, 'h, string) vk_call" where
  "append_register_dump P T report vk =
     (case c_arch (cfg vk) of
        X86 \<Rightarrow> register_lines P T 10 (map (\<lambda>(n, r). (n, VR_X86 r)) registers_x86) report vk
      | X86_64 \<Rightarrow> register_lines P T 18 (map (\<lambda>(n, r). (n, VR_X86_64 r)) registers_x86_64) report vk)"

text \<open>The window shown around the program counter, and the bytes of stack shown.\<close>

definition insn_window :: "VMemRegion list \<Rightarrow> u64 \<Rightarrow> u64 \<times> nat" where
  "insn_window rs pc =
     (case region_for rs pc of
        Some region \<Rightarrow>
          let base = max (sat_sub pc 0x10) (r_start region); region_end = r_start region + r_size region in
          (base, min 0x20 (unat (sat_sub region_end base)))
      | None \<Rightarrow> (sat_sub pc 0x10, 0x20))"

definition stack_window :: "VMemRegion list \<Rightarrow> u64 \<Rightarrow> nat" where
  "stack_window rs sp =
     (case region_for rs sp of
        Some region \<Rightarrow> min 0x40 (unat (sat_sub (r_start region + r_size region) sp))
      | None \<Rightarrow> 0x40)"

definition append_instruction_dump ::
  "('u, 'h) platform \<Rightarrow> (bytes \<Rightarrow> u64 \<Rightarrow> string list option) \<Rightarrow> texts \<Rightarrow> string \<Rightarrow> u64 \<Rightarrow> ('u, 'h, string) vk_call" where
  "append_instruction_dump P dis T report pc vk =
     (case insn_window (regions vk) pc of (insn_base, insn_size) \<Rightarrow>
        on_result (disassemble P dis insn_base insn_size vk)
          (\<lambda>insns vk. (Ok (foldl (\<lambda>r insn. writeln r (CHR 0x09 # insn)) report insns), vk))
          (\<lambda>err vk. (Ok (writeln report (''disassembly failed: '' @ error_text T err)), vk)))"

definition chunk_value :: "bytes \<Rightarrow> u64" where
  "chunk_value chunk = foldl (\<lambda>v (shift, b). v OR push_bit (shift * 8) (ucast b)) 0 (enumerate 0 chunk)"

definition stack_line :: "u64 \<Rightarrow> nat \<Rightarrow> nat \<times> bytes \<Rightarrow> string" where
  "stack_line sp ptr_size = (\<lambda>(i, chunk).
     CHR 0x09 # hex (sp + of_nat (i * ptr_size)) @ '': '' @ hex (chunk_value chunk))"

definition append_stack_dump :: "('u, 'h) platform \<Rightarrow> texts \<Rightarrow> string \<Rightarrow> u64 \<Rightarrow> ('u, 'h, string) vk_call" where
  "append_stack_dump P T report sp vk =
     (let stack_dump_size = stack_window (regions vk) sp in
      if stack_dump_size = 0 then (Ok (writeln report ''stack dump skipped: empty range''), vk)
      else on_result (mem_read P sp stack_dump_size vk)
        (\<lambda>bytes vk.
          let ptr_size = ptr_width vk in
          if ptr_size = 0 then (Panic, vk)
          else (Ok (foldl writeln report (map (stack_line sp ptr_size) (enumerate 0 (chunks ptr_size bytes)))), vk))
        (\<lambda>err vk. (Ok (writeln report (''stack read failed: '' @ error_text T err)), vk)))"

definition reg_or_zero :: "('u, 'h) platform \<Rightarrow> VRegister \<Rightarrow> ('u, 'h, u64) vk_call" where
  "reg_or_zero P r vk = on_result (get_reg P r vk) (\<lambda>v vk. (Ok v, vk)) (\<lambda>_ vk. (Ok 0, vk))"

definition format_runtime_debug_table ::
  "('u, 'h) platform \<Rightarrow> (bytes \<Rightarrow> u64 \<Rightarrow> string list option) \<Rightarrow> texts \<Rightarrow> string \<Rightarrow> ('u, 'h, string) vk_call" where
  "format_runtime_debug_table P dis T title vk =
     (let color_cyan = escape @ ''[1;36m''; color_reset = escape @ ''[0m'';
          heading = (\<lambda>report s. writeln report (color_cyan @ ''== '' @ s @ '' =='' @ color_reset)) in
      and_then (reg_or_zero P (rg_pc (vregs vk)) vk) (\<lambda>pc vk.
      and_then (reg_or_zero P (rg_sp (vregs vk)) vk) (\<lambda>sp vk.
      let report = heading (writeln [] (title @ '' at pc='' @ hex pc @ '' sp='' @ hex sp)) ''Registers'' in
      and_then (append_register_dump P T report vk) (\<lambda>report vk.
      and_then (append_instruction_dump P dis T (heading report ''Instructions around PC'') pc vk) (\<lambda>report vk.
      append_stack_dump P T (heading report ''Stack dump'') sp vk)))))"

definition log_runtime_debug_table ::
  "('u, 'h) platform \<Rightarrow> (bytes \<Rightarrow> u64 \<Rightarrow> string list option) \<Rightarrow> texts \<Rightarrow> string \<Rightarrow> ('u, 'h, string list) vk_call" where
  "log_runtime_debug_table P dis T title vk =
     and_then (format_runtime_debug_table P dis T title vk) (\<lambda>report vk.
       (Ok (map (log_line Info) (lines_of [] report)), vk))"

text \<open>The report is the message of the panic.\<close>

definition panic_with_unicorn_context ::
  "('u, 'h) platform \<Rightarrow> (bytes \<Rightarrow> u64 \<Rightarrow> string list option) \<Rightarrow> texts \<Rightarrow> uc_error \<Rightarrow> ('u, 'h) Valkyrie
     \<Rightarrow> string vk_outcome \<times> ('u, 'h) Valkyrie" where
  "panic_with_unicorn_context P dis T err vk =
     format_runtime_debug_table P dis T
       (escape @ ''[1;31mValkyrie panic:'' @ escape @ ''[0m unicorn error '' @ uc_text T err) (vk\<lparr>crashed := True\<rparr>)"

section \<open>The report is always made\<close>

lemma get_reg_total: "(\<exists>v. get_reg P r vk = (Ok v, vk)) \<or> (\<exists>e. get_reg P r vk = (Err e, vk))"
  by (auto simp: get_reg_def get_reg_x86_def get_reg_x86_64_def split: Arch.split VRegister.split sum.split)

lemma reg_or_zero_total: "\<exists>v. reg_or_zero P r vk = (Ok v, vk)"
  using get_reg_total [of P r vk] by (auto simp: reg_or_zero_def on_result_def)

lemma register_lines_total: "\<exists>report'. register_lines P T w rs report vk = (Ok report', vk)"
proof (induction rs arbitrary: report)
  case (Cons r rs)
  obtain name reg where "r = (name, reg)" by (rule prod.exhaust)
  then show ?case using get_reg_total [of P reg vk] Cons by (auto simp: on_result_def)
qed simp

lemma register_dump_total: "\<exists>report'. append_register_dump P T report vk = (Ok report', vk)"
  by (simp add: append_register_dump_def register_lines_total split: Arch.split)

lemma instruction_dump_total: "\<exists>report'. append_instruction_dump P dis T report pc vk = (Ok report', vk)"
  by (auto simp: append_instruction_dump_def on_result_def disassemble_def split: prod.split sum.split option.split)

lemma stack_window_le: "stack_window rs sp \<le> 64"
  by (simp add: stack_window_def split: option.split)

lemma region_for_bounds:
  assumes "region_for rs a = Some r"
  shows "r_start r \<le> a \<and> a < r_start r + r_size r \<and> unat (r_start r + r_size r) = unat (r_start r) + unat (r_size r)"
proof -
  have r: "r_start r \<le> a" "a < r_start r + r_size r"
    using assms by (auto simp: region_for_def find_Some_iff)
  then have "r_start r \<le> r_start r + r_size r" by simp
  with r show ?thesis using unat_plus_simple by blast
qed

text \<open>The window of the dump lies in the region of the stack pointer.\<close>

lemma stack_window_inside:
  assumes "region_for rs sp = Some r"
  shows "0 < stack_window rs sp \<and> unat sp + stack_window rs sp \<le> unat (r_start r) + unat (r_size r)"
proof -
  note b = region_for_bounds [OF assms]
  then have "unat sp < unat (r_start r + r_size r)" by (simp add: word_less_nat_alt)
  moreover have "unat (sat_sub (r_start r + r_size r) sp) = unat (r_start r + r_size r) - unat sp"
    using b by (simp add: sat_sub_def unat_sub less_imp_le)
  ultimately show ?thesis using b by (auto simp: stack_window_def assms)
qed

section \<open>What the stack dump shows\<close>

lemma chunk_value_shift:
  "foldl (\<lambda>v (shift, b). v OR push_bit (shift * 8) (ucast b)) acc (enumerate k bs) = (acc OR push_bit (k * 8) (from_le bs) :: u64)"
proof (induction bs arbitrary: acc k)
  case (Cons b bs)
  then show ?case by (simp add: push_bit_or push_bit_push_bit add.commute or.assoc)
qed simp

lemma chunk_value_from_le: "chunk_value chunk = from_le chunk"
  by (simp add: chunk_value_def chunk_value_shift)

lemma chunks_groups:
  "0 < w \<Longrightarrow> chunks w xs = map (\<lambda>i. take w (drop (i * w) xs)) [0..<(length xs + w - 1) div w]"
proof (induction w xs rule: chunks.induct)
  case (1 w xs)
  show ?case
  proof (cases "xs = []")
    case False
    have n: "(length xs + w - 1) div w = Suc ((length (drop w xs) + w - 1) div w)"
    proof (cases "length xs \<le> w")
      case True
      then have "(length xs + w - 1) div w = 1"
        using False 1(2) by (intro div_nat_eqI) (cases xs; simp)+
      with True 1(2) show ?thesis by simp
    next
      case False
      then have "length xs + w - 1 = (length xs - w + w - 1) + w" using 1(2) by simp
      then show ?thesis using 1(2) by (simp only: div_add_self2 length_drop)
    qed
    have "chunks w (drop w xs) = map (\<lambda>i. take w (drop (i * w) (drop w xs))) [0..<(length (drop w xs) + w - 1) div w]"
      using 1 False by simp
    then show ?thesis
      using False 1(2) unfolding n by (simp add: chunks.simps [of w xs] upt_conv_Cons map_Suc_upt [symmetric] add.commute del: upt_Suc)
  qed (use 1(2) in \<open>simp add: chunks.simps\<close>)
qed

lemma foldl_writeln: "foldl writeln report ls = report @ concat (map (writeln []) ls)"
  by (induction ls arbitrary: report) (simp_all add: writeln_def)

text \<open>One line per word of the bytes: its address and its little-endian value.\<close>

definition word_lines :: "u64 \<Rightarrow> nat \<Rightarrow> bytes \<Rightarrow> string" where
  "word_lines sp w bs = concat (map (\<lambda>i. CHR 0x09 # hex (sp + of_nat (i * w)) @ '': ''
     @ hex (from_le (take w (drop (i * w) bs)) :: u64) @ newline) [0..<(length bs + w - 1) div w])"

lemma stack_dump_total:
  assumes "ptr_width vk \<noteq> 0"
  shows "\<exists>shown. append_stack_dump P T report sp vk = (Ok (report @ shown), vk)
    \<and> (\<forall>bs. mem_read P sp (stack_window (regions vk) sp) vk = (Ok bs, vk) \<longrightarrow> shown = word_lines sp (ptr_width vk) bs)"
proof -
  have e: "enumerate 0 (chunks (ptr_width vk) bs) =
      map (\<lambda>i. (i, take (ptr_width vk) (drop (i * ptr_width vk) bs))) [0..<(length bs + ptr_width vk - 1) div ptr_width vk]" for bs :: bytes
    using assms by (simp add: chunks_groups enumerate_map_upt)
  have l: "concat (map (writeln []) (map (stack_line sp (ptr_width vk)) (enumerate 0 (chunks (ptr_width vk) bs))))
      = word_lines sp (ptr_width vk) bs" for bs
    unfolding e by (simp add: word_lines_def stack_line_def writeln_def chunk_value_from_le comp_def)
  let ?n = "stack_window (regions vk) sp"
  have "fst (mem_read P sp ?n vk) \<noteq> Panic" "fst (mem_read P sp ?n vk) \<noteq> Diverges"
    using stack_window_le [of "regions vk" sp] by (auto simp: mem_read_def split: sum.split)
  then show ?thesis
    using assms mem_read_same_state [of P sp ?n vk]
    by (cases "mem_read P sp ?n vk"; cases "fst (mem_read P sp ?n vk)")
      (auto simp: append_stack_dump_def on_result_def foldl_writeln l [unfolded map_map] writeln_def [of report] mem_read_def Let_def)
qed

text \<open>
  C18: reporting a crash never fails. In every configuration an emulator can be built with, the report is made
  whatever the registers and the engine answer, and making it changes nothing; a hard error leaves the emulator
  as the model of \<open>handle_unicorn_error\<close> says. When the stack can be read the report ends with its words, one
  line each, and the bytes shown do not reach past the region of the stack pointer.
\<close>

theorem crash_report_total:
  assumes "vmemory_new (cfg vk) = Ok mem"
  shows "\<exists>heading sp shown. format_runtime_debug_table P dis T title vk = (Ok (heading @ shown), vk)
    \<and> reg_or_zero P (rg_sp (vregs vk)) vk = (Ok sp, vk)
    \<and> (\<forall>bs. mem_read P sp (stack_window (regions vk) sp) vk = (Ok bs, vk) \<longrightarrow> shown = word_lines sp (ptr_width vk) bs)
    \<and> (\<forall>r. region_for (regions vk) sp = Some r \<longrightarrow> 0 < stack_window (regions vk) sp
         \<and> unat sp + stack_window (regions vk) sp \<le> unat (r_start r) + unat (r_size r))
    \<and> (\<not> soft_unicorn_errors vk \<longrightarrow>
         handle_unicorn_error err vk = (Panic, snd (panic_with_unicorn_context P dis T err vk)))"
proof -
  have total: "\<exists>heading sp shown. format_runtime_debug_table P dis T title v = (Ok (heading @ shown), v)
      \<and> reg_or_zero P (rg_sp (vregs v)) v = (Ok sp, v)
      \<and> (\<forall>bs. mem_read P sp (stack_window (regions v) sp) v = (Ok bs, v) \<longrightarrow> shown = word_lines sp (ptr_width v) bs)"
    if "vmemory_new (cfg v) = Ok mem" for v and title
  proof -
    have w: "ptr_width v \<noteq> 0" using that by (auto simp: vmemory_new_def split: if_splits)
    obtain pc sp where r: "reg_or_zero P (rg_pc (vregs v)) v = (Ok pc, v)" "reg_or_zero P (rg_sp (vregs v)) v = (Ok sp, v)"
      using reg_or_zero_total by metis
    obtain shown where shown: "\<And>report. append_stack_dump P T report sp v = (Ok (report @ shown report), v)"
      "\<And>report bs. mem_read P sp (stack_window (regions v) sp) v = (Ok bs, v) \<Longrightarrow> shown report = word_lines sp (ptr_width v) bs"
      using stack_dump_total [OF w, of P T _ sp] by metis
    obtain regs insns where d: "\<And>report. append_register_dump P T report v = (Ok (regs report), v)"
      "\<And>report. append_instruction_dump P dis T report pc v = (Ok (insns report), v)"
      using register_dump_total [of P T _ v] instruction_dump_total [of P dis T _ pc v] by metis
    show ?thesis
      using r shown by (simp add: format_runtime_debug_table_def Let_def d) blast
  qed
  have "vmemory_new (cfg (vk\<lparr>crashed := True\<rparr>)) = Ok mem" using assms by simp
  from total [OF this] have "snd (panic_with_unicorn_context P dis T err vk) = vk\<lparr>crashed := True\<rparr>"
    unfolding panic_with_unicorn_context_def by (metis snd_conv)
  then have "\<not> soft_unicorn_errors vk \<longrightarrow> handle_unicorn_error err vk = (Panic, snd (panic_with_unicorn_context P dis T err vk))"
    by (simp add: handle_unicorn_error_def)
  with total [OF assms, of title] stack_window_inside show ?thesis by metis
qed

definition ref_texts :: texts where
  "ref_texts = \<lparr>io_text = (\<lambda>_. []), uc_text = (\<lambda>_. ''ERR''), str_text = (\<lambda>s. s), prot_text = (\<lambda>_. ''ALL'')\<rparr>"

theorem crash_report_total_witness:
  "\<exists>heading. format_runtime_debug_table ref_engine (\<lambda>_ _. None) ref_texts ''Crash'' (ref_trap X86 0 0 (\<lambda>_. 0x601FFC))
     = (Ok (heading @ CHR 0x09 # ''0x601ffc: 0x0'' @ newline), ref_trap X86 0 0 (\<lambda>_. 0x601FFC))"
proof -
  let ?vk = "ref_trap X86 0 0 (\<lambda>_. 0x601FFC)"
  obtain mem where m: "vmemory_new (cfg ?vk) = Ok mem"
    by (simp add: vmemory_new_def ref_cfg_def defaults_for_arch_def)
  obtain heading sp shown where r: "format_runtime_debug_table ref_engine (\<lambda>_ _. None) ref_texts ''Crash'' ?vk = (Ok (heading @ shown), ?vk)"
      "reg_or_zero ref_engine (rg_sp (vregs ?vk)) ?vk = (Ok sp, ?vk)"
      "\<And>bs. mem_read ref_engine sp (stack_window (regions ?vk) sp) ?vk = (Ok bs, ?vk) \<Longrightarrow> shown = word_lines sp (ptr_width ?vk) bs"
    using crash_report_total [OF m, of ref_engine "\<lambda>_ _. None" ref_texts "''Crash''"] by metis
  have sp: "sp = 0x601FFC"
    using r(2) by (simp add: reg_or_zero_def on_result_def varch_new_def vregs_new_def get_reg_def get_reg_x86_def
        ref_engine_def ref_trap_def)
  have w: "stack_window ref_regions sp = 4"
    by (simp add: sp stack_window_def region_for_def ref_regions_def sat_sub_def)
  have "mem_read ref_engine sp 4 ?vk = (Ok [0, 0, 0, 0], ?vk)"
    by (simp add: mem_read_def ref_engine_def sp ref_trap_def ref_vk_def upt_conv_Cons)
  with r(3) have "shown = word_lines sp 4 [0, 0, 0, 0]"
    by (simp add: w ref_cfg_def defaults_for_arch_def)
  then have "shown = CHR 0x09 # ''0x601ffc: 0x0'' @ newline"
    by (simp add: word_lines_def sp hex_def digits.simps digit_def char_of_def bit_0)
  with r(1) show ?thesis by auto
qed

end
