(* ===== verification/Vk_Life.thy ===== *)
theory Vk_Life
  imports Vk_IoRun
begin

text \<open>
  The life of a Linux emulator: what \<open>Valkyrie::new\<close> hands to \<open>Valkyrie::run\<close>, what the engine may do once it is
  started (\<open>engine_steps\<close>), and that preparing, running a guest whose mapping calls are clear and ending keep the
  region list in step with the engine, whichever way the run ends.
\<close>

section \<open>The engine under the registry\<close>

text \<open>
  What the engine does between its start and its return, with the code events it reports as a list of addresses and
  the emulators they find: guest instructions change registers and contents, never the memory map; an
  instruction reached is a code event and any other event (a block, an access, an interrupt, a hooked address) is
  one too, all dispatched to the registered hooks. Nothing is asked of the guest here.
\<close>

type_synonym ('u, 'h) code_events = "(u64 \<times> ('u, 'h) Valkyrie) list"

inductive engine_steps ::
  "('u \<Rightarrow> nat \<Rightarrow> Prot option) \<Rightarrow> ('u, 'h) emulator \<Rightarrow> ('u, 'h) code_events \<Rightarrow> ('u, 'h) emulator \<Rightarrow> bool"
  for view where
  start: "engine_steps view st [] st"
| exec: "engine_steps view st evs (m, hk) \<Longrightarrow> view u = view (uc (mc_vk m)) \<Longrightarrow>
     engine_steps view st evs (m\<lparr>mc_vk := (mc_vk m)\<lparr>uc := u\<rparr>\<rparr>, hk)"
| code: "engine_steps view st evs (m, hk) \<Longrightarrow> dispatch_common hk m HT_CODE (Trace addr sz) = (r, m', hk') \<Longrightarrow>
     engine_steps view st (evs @ [(addr, mc_vk m)]) (m', hk')"
| other: "engine_steps view st evs (m, hk) \<Longrightarrow> t \<noteq> HT_CODE \<Longrightarrow> dispatch_common hk m t args = (r, m', hk') \<Longrightarrow>
     engine_steps view st evs (m', hk')"
| address: "engine_steps view st evs (m, hk) \<Longrightarrow> dispatch_addr hk m addr = (r, m', hk') \<Longrightarrow>
     engine_steps view st evs (m', hk')"

text \<open>The law of the engine: from every state its execution is such a sequence of steps, with the code events \<open>events\<close>.\<close>

type_synonym ('u, 'h) event_log = "u64 \<Rightarrow> u64 \<Rightarrow> u64 \<Rightarrow> u64 \<Rightarrow> ('u, 'h) emulator \<Rightarrow> ('u, 'h) code_events"

definition engine_runs ::
  "('u \<Rightarrow> nat \<Rightarrow> Prot option) \<Rightarrow> ('u, 'h) engine_run \<Rightarrow> ('u, 'h) event_log \<Rightarrow> bool" where
  "engine_runs view emu events \<longleftrightarrow>
     (\<forall>start stop timeout count st. engine_steps view st (events start stop timeout count st) (snd (emu start stop timeout count st)))"

text \<open>Where \<open>run\<close> starts the engine, if it does: the two bounds and the state.\<close>

definition engine_start ::
  "('u, 'h) platform \<Rightarrow> 'u hook_engine \<Rightarrow> (string \<Rightarrow> ('u, 'h) sys_fn) \<Rightarrow> ('u, 'h) emulator
     \<Rightarrow> (u64 \<times> u64 \<times> ('u, 'h) emulator) option" where
  "engine_start P E io st =
     (case prepare_initial_run P E io st of
        (Ok _, st) \<Rightarrow>
          (let st' = set_vk ((em_vk st)\<lparr>vstate := Running\<rparr>) st in
           case (prepared_start (em_vk st), prepared_end (em_vk st)) of
             (Some start, Some stop) \<Rightarrow> Some (start, stop, st')
           | _ \<Rightarrow>
               (case on_vk (vos_prepare_execution P (vos (em_vk st))) st' of
                  (Ok (start, stop), st) \<Rightarrow> Some (start, stop, st)
                | _ \<Rightarrow> None))
      | _ \<Rightarrow> None)"

text \<open>The guest's program: the calls it makes in this run are clear of the flaws of \<open>mmap\<close> and \<open>mprotect\<close>.\<close>

definition guest_clear ::
  "('u, 'h) platform \<Rightarrow> 'u hook_engine \<Rightarrow> (string \<Rightarrow> ('u, 'h) sys_fn) \<Rightarrow> ('u, 'h) event_log \<Rightarrow> ('u, 'h) emulator \<Rightarrow> bool" where
  "guest_clear P E io events st \<longleftrightarrow>
     (\<forall>start stop s. engine_start P E io st = Some (start, stop, s) \<longrightarrow>
        list_all (\<lambda>(addr, vk). trap_clear P addr vk) (events start stop (c_timeout (cfg (em_vk s))) (c_count (cfg (em_vk s))) s))"

text \<open>The system call hook is the only hook.\<close>

definition only_serves ::
  "(u64 \<Rightarrow> u32 \<Rightarrow> ('u, 'h, unit) vk_call) \<Rightarrow> ('u, 'h) registry \<Rightarrow> bool" where
  "only_serves handler hk \<longleftrightarrow> serves handler hk \<and> (\<forall>t. t \<noteq> HT_CODE \<longrightarrow> hooks_of hk t = []) \<and> addr_hooks hk = []"

lemma no_hooks_dispatch:
  assumes "hooks_of hk t = []"
  shows "\<exists>r hk'. dispatch_common hk m t args = (r, m, hk') \<and> addr_hooks hk' = addr_hooks hk \<and> (\<forall>x. hooks_of hk' x = hooks_of hk x)"
proof (cases "map_of (hooks hk) t")
  case None
  then show ?thesis by (auto simp: dispatch_common_def)
next
  case (Some hs)
  then have "hs = []" using assms by simp
  with Some show ?thesis by (auto simp: dispatch_common_def maps.look_put)
qed

lemma dispatch_code_others:
  assumes "dispatch_common hk m HT_CODE args = (r, m', hk')"
  shows "addr_hooks hk' = addr_hooks hk" "t \<noteq> HT_CODE \<Longrightarrow> hooks_of hk' t = hooks_of hk t"
  using assms by (auto simp: dispatch_common_def maps.look_put split: option.splits prod.splits if_splits)

lemma serves_cong: "serves handler hk \<Longrightarrow> hooks_of hk' HT_CODE = hooks_of hk HT_CODE \<Longrightarrow> serves handler hk'"
  unfolding serves_def by (elim exE) (metis (no_types, lifting))

text \<open>
  The invariant along the steps: the registry stays as it was and the emulator in step, before every code event and at
  the end.
\<close>

lemma engine_steps_sync:
  assumes "engine_steps view st evs st'" "only_serves handler (snd st)" "syscall_handler_for P io a = Ok handler"
    "engine_maps P view" "io_keeps_map view io" "in_sync view (em_vk st)"
    and "list_all (\<lambda>(addr, vk). trap_clear P addr vk) evs"
  shows "only_serves handler (snd st') \<and> in_sync view (em_vk st') \<and> list_all (\<lambda>(addr, vk). in_sync view vk) evs"
  using assms
proof (induction rule: engine_steps.induct)
  case (exec st evs m hk u)
  then show ?case by (auto intro: in_sync_cong)
next
  case (code st evs m hk addr sz r m' hk')
  then have s: "only_serves handler hk" and sync: "in_sync view (mc_vk m)" and past: "list_all (\<lambda>(addr, vk). in_sync view vk) evs"
    and clear: "trap_clear P addr (mc_vk m)" by simp_all
  then have "serves handler hk" by (simp add: only_serves_def)
  from serves_dispatch [OF this, of m addr sz] code.hyps(2)
  have "serves handler hk'" "m' = fst (snd (syscall_callback handler m addr sz NoData))" by auto
  with s sync past dispatch_code_others [OF code.hyps(2)] callback_sync [OF code.prems(3,4,2) sync clear] show ?case
    by (simp add: only_serves_def)
next
  case (other st evs m hk t args r m' hk')
  then have s: "only_serves handler hk" by simp
  with other.hyps(2) have "hooks_of hk t = []" by (simp add: only_serves_def)
  from no_hooks_dispatch [OF this, of m args] other.hyps(3)
  have "m' = m" "addr_hooks hk' = addr_hooks hk" "\<forall>x. hooks_of hk' x = hooks_of hk x" by auto
  with s have "only_serves handler hk'"
    unfolding only_serves_def using serves_cong [of handler hk hk'] by metis
  with other \<open>m' = m\<close> show ?case by simp
next
  case (address st evs m hk addr r m' hk')
  then have "only_serves handler hk" by simp
  then have "m' = m" "hk' = hk" using address.hyps(2) by (auto simp: only_serves_def dispatch_addr_def)
  with address show ?case by simp
qed simp

section \<open>Preparing, running, ending\<close>

text \<open>What a run needs and keeps until the engine starts: agreement, a thread-local range, a Linux layer.\<close>

definition ready :: "('u \<Rightarrow> nat \<Rightarrow> Prot option) \<Rightarrow> ('u, 'h) Valkyrie \<Rightarrow> bool" where
  "ready view vk \<longleftrightarrow> in_sync view vk \<and> tls_addr_exit (vmem vk) \<noteq> 0 \<and> vos_skip_exit_trap (vos vk)"

lemma ready_cong:
  "ready view vk \<Longrightarrow> vmem vk' = vmem vk \<Longrightarrow> vos vk' = vos vk \<Longrightarrow> view (uc vk') = view (uc vk) \<Longrightarrow> ready view vk'"
  by (auto simp: ready_def intro: in_sync_cong)

lemma no_trap: "vos_skip_exit_trap (vos vk) \<Longrightarrow> setup_trap P E vk = (Ok (), vk) \<and> write_exit_trap P vk = (Ok (), vk)"
  by (simp add: setup_trap_def write_exit_trap_def)

text \<open>No hook at all, as after construction.\<close>

definition no_hooks :: "('u, 'h) registry \<Rightarrow> bool" where
  "no_hooks hk \<longleftrightarrow> (\<forall>t. hooks_of hk t = []) \<and> addr_hooks hk = []"

lemma hook_code_others:
  assumes "hook_code E cb ud lo hi (hk, u) = (r, hk', u')"
  shows "addr_hooks hk' = addr_hooks hk" "t \<noteq> HT_CODE \<Longrightarrow> hooks_of hk' t = hooks_of hk t"
  using assms
  by (auto simp: hook_code_def ensure_code_dispatcher_def ensure_dispatcher_def alloc_id_def push_entry_def maps.look_put Let_def
      outcome_elim split: if_splits prod.splits sum.splits)

lemma only_serves_installed:
  assumes run: "install_syscall_hook P E io st = (Ok (), st')" and os: "c_os (cfg (em_vk st)) = Linux"
    and none: "no_hooks (snd st)"
  shows "\<exists>handler. syscall_handler_for P io (c_arch (cfg (em_vk st))) = Ok handler \<and> only_serves handler (snd st')"
proof -
  obtain handler where h: "syscall_handler_for P io (c_arch (cfg (em_vk st))) = Ok handler" "serves handler (snd st')"
    using serves_installed [OF run os] none by (auto simp: no_hooks_def)
  obtain ret where c: "on_hooks (hook_code E (syscall_callback handler) NoData 1 0) st = (Ok ret, st')"
    using run os h(1) by (auto simp: install_syscall_hook_def outcome_elim)
  then obtain u' where "hook_code E (syscall_callback handler) NoData 1 0 (snd st, uc (em_vk st)) = (Ok ret, snd st', u')"
    by (auto simp: on_hooks_def split: prod.splits)
  from hook_code_others [OF this] h none show ?thesis
    by (auto simp: only_serves_def no_hooks_def)
qed

lemma prepared:
  assumes laws: "hook_keeps E view" and os: "c_os (cfg (em_vk st)) = Linux" and none: "no_hooks (snd st)"
    and ready: "ready view (em_vk st)" and run: "prepare_initial_run P E io st = (r, st')"
  shows "ready view (em_vk st') \<and> (r = Ok () \<longrightarrow>
    (\<exists>handler. syscall_handler_for P io (c_arch (cfg (em_vk st))) = Ok handler \<and> only_serves handler (snd st')))"
proof -
  let ?s = "set_vk (reset_execution_state (em_vk st)) st"
  obtain q s where q: "install_syscall_hook P E io ?s = (q, s)" by (rule prod.exhaust)
  obtain u where u: "view u = view (uc (em_vk st))" "fst s = (fst ?s)\<lparr>mc_vk := (em_vk ?s)\<lparr>uc := u\<rparr>\<rparr>"
    using install_syscall_hook_frame [OF q laws] by (auto simp: reset_execution_state_def)
  have rs: "ready view (em_vk s)"
    by (rule ready_cong [OF ready]) (simp_all add: u reset_execution_state_def)
  then have "vos_skip_exit_trap (vos (em_vk s))" by (simp add: ready_def)
  then have "st' = s \<and> (r = Ok () \<longrightarrow> q = Ok ())"
    using run q by (cases q) (auto simp: prepare_initial_run_def on_vk_def no_trap)
  moreover have "\<exists>handler. syscall_handler_for P io (c_arch (cfg (em_vk st))) = Ok handler \<and> only_serves handler (snd s)" if "q = Ok ()"
    using only_serves_installed [OF q [unfolded that]] os none by (auto simp: reset_execution_state_def)
  ultimately show ?thesis using rs by blast
qed

lemma vos_prepare_sync:
  assumes "engine_maps P view" "in_sync view vk" "tls_addr_exit (vmem vk) \<noteq> 0"
  shows "in_sync view (snd (vos_prepare_execution P os vk))"
  using linux.prep_sync [OF assms] blob.prep_sync [OF assms] by (simp add: vos_prepare_execution_def split: VCoreOs.split)

text \<open>Up to the engine's start: agreement, and the system call hook alone.\<close>

lemma engine_start_sync:
  assumes laws: "engine_maps P view" "hook_keeps E view"
    and os: "c_os (cfg (em_vk st)) = Linux" and none: "no_hooks (snd st)" and ready: "ready view (em_vk st)"
  shows "case engine_start P E io st of
      None \<Rightarrow> in_sync view (em_vk (snd (run P E io emu st)))
    | Some (start, stop, s) \<Rightarrow> run P E io emu st = start_engine emu start stop s \<and> in_sync view (em_vk s)
        \<and> (\<exists>handler. syscall_handler_for P io (c_arch (cfg (em_vk st))) = Ok handler \<and> only_serves handler (snd s))"
proof -
  obtain r s where p: "prepare_initial_run P E io st = (r, s)" by (rule prod.exhaust)
  have rs: "ready view (em_vk s)" using prepared [OF laws(2) os none ready p] by blast
  show ?thesis
  proof (cases "r = Ok ()")
    case True
    then obtain handler where h: "syscall_handler_for P io (c_arch (cfg (em_vk st))) = Ok handler" "only_serves handler (snd s)"
      using prepared [OF laws(2) os none ready p] by blast
    let ?v = "(em_vk s)\<lparr>vstate := Running\<rparr>"
    have v: "in_sync view ?v" "tls_addr_exit (vmem ?v) \<noteq> 0" using rs by (auto simp: ready_def in_sync_def)
    obtain q w where w: "vos_prepare_execution P (vos (em_vk s)) ?v = (q, w)" by (rule prod.exhaust)
    have "in_sync view w" using vos_prepare_sync [OF laws(1) v, of "vos (em_vk s)"] by (simp add: w)
    with v h True p w show ?thesis
      by (cases q) (auto simp: engine_start_def run_def run_prepared_def on_vk_def Let_def split: option.split)
  next
    case False
    with p rs show ?thesis by (cases r) (auto simp: engine_start_def run_def ready_def)
  qed
qed

lemma start_engine_sync:
  assumes exec: "engine_runs view emu events" and laws: "engine_maps P view" "io_keeps_map view io"
    and h: "syscall_handler_for P io a = Ok handler" "only_serves handler (snd st)" and sync: "in_sync view (em_vk st)"
    and clear: "list_all (\<lambda>(addr, vk). trap_clear P addr vk)
      (events start stop (c_timeout (cfg (em_vk st))) (c_count (cfg (em_vk st))) st)"
  shows "in_sync view (em_vk (snd (start_engine emu start stop st)))
    \<and> list_all (\<lambda>(addr, vk). in_sync view vk) (events start stop (c_timeout (cfg (em_vk st))) (c_count (cfg (em_vk st))) st)"
proof -
  let ?t = "c_timeout (cfg (em_vk st))" and ?n = "c_count (cfg (em_vk st))"
  obtain r s where e: "emu start stop ?t ?n st = (r, s)" by (rule prod.exhaust)
  then have "engine_steps view st (events start stop ?t ?n st) s"
    using exec unfolding engine_runs_def by (metis snd_conv)
  then have "in_sync view (em_vk s)" "list_all (\<lambda>(addr, vk). in_sync view vk) (events start stop ?t ?n st)"
    using engine_steps_sync [OF _ h(2,1) laws sync clear] by blast+
  then show ?thesis
    by (auto simp: start_engine_def e on_vk_def handle_unicorn_error_def in_sync_def split: sum.split)
qed

lemma run_sync:
  assumes exec: "engine_runs view emu events" and laws: "engine_maps P view" "io_keeps_map view io" "hook_keeps E view"
    and os: "c_os (cfg (em_vk st)) = Linux" and none: "no_hooks (snd st)" and ready: "ready view (em_vk st)"
    and clear: "guest_clear P E io events st"
  shows "in_sync view (em_vk (snd (run P E io emu st)))
    \<and> (\<forall>start stop s. engine_start P E io st = Some (start, stop, s) \<longrightarrow>
        list_all (\<lambda>(addr, vk). in_sync view vk) (events start stop (c_timeout (cfg (em_vk s))) (c_count (cfg (em_vk s))) s))"
proof (cases "engine_start P E io st")
  case None
  with engine_start_sync [OF laws(1,3) os none ready, of io emu] show ?thesis by simp
next
  case (Some r)
  obtain start stop s where r: "r = (start, stop, s)" by (metis prod_cases3)
  have run: "run P E io emu st = start_engine emu start stop s" and sync: "in_sync view (em_vk s)"
    using engine_start_sync [OF laws(1,3) os none ready, of io emu] by (simp_all add: Some r)
  obtain handler where h: "syscall_handler_for P io (c_arch (cfg (em_vk st))) = Ok handler" "only_serves handler (snd s)"
    using engine_start_sync [OF laws(1,3) os none ready, of io emu] by (auto simp: Some r)
  have "list_all (\<lambda>(addr, vk). trap_clear P addr vk) (events start stop (c_timeout (cfg (em_vk s))) (c_count (cfg (em_vk s))) s)"
    using clear Some unfolding r guest_clear_def by blast
  from start_engine_sync [OF exec laws(1,2) h sync this] show ?thesis
    unfolding run Some r by blast
qed

lemma constructed:
  assumes run: "valkyrie_new P E parse dis engine_new udbserver creds table h c = Ok st" and "\<not> c_disassemble (cfg (em_vk st))"
  shows "no_hooks (snd st)"
proof -
  obtain a vk where f: "after_load P E dis udbserver a vk = (Ok (), st)"
    using valkyrie_new_steps [OF run] by metis
  then have "cfg (em_vk st) = cfg vk"
    using after_load_frame [OF f, of "\<lambda>_. ()"] by (auto simp: hook_keeps_def)
  with f assms(2) show ?thesis
    by (auto simp: after_load_def install_trace_if_def hooks_new_def no_hooks_def split: if_splits prod.splits)
qed

end
