(* ===== verification/Spec2Isabelle.thy ===== *)
theory Spec2Isabelle
  imports Vk_Vstruct Vk_Intervals Vk_Registers Vk_Hooks Vk_Fs Vk_Run Vk_LoadRun Vk_CoreRun Vk_FuzzRun Vk_IoSpec Vk_Report Vk_Life
begin

text \<open>
  A verification development for valkyrie-rs, an emulator of user programs in Rust on top of the Unicorn
  CPU engine.

  \<^bold>\<open>The program.\<close> A configuration (\<open>config.rs\<close>) names the architecture (i386 or x86_64), the OS layer
  (bare metal or Linux), the loader (raw code or ELF) and the sizes of the address space.
  \<open>Valkyrie::new\<close> (\<open>lib.rs\<close>) opens an engine, runs the loader (\<open>loader/\<close>), which maps the program, a stack
  and a heap, and hands the load address to the OS layer (\<open>os/\<close>). \<open>Valkyrie::run\<close> installs a code hook that
  recognises system call instructions (\<open>arch/x86.rs\<close>, \<open>arch/x86_64.rs\<close>, \<open>os/register_syscall.rs\<close>), sets an
  exit trap for bare-metal programs, lets the OS layer prepare the guest (thread-local page, descriptors,
  initial stack) and starts the engine. A trapped call is looked up by number and name and served by a
  handler of \<open>os/syscall/\<close>, which works on the guest's memory (\<open>memory.rs\<close>), its registers
  (\<open>arch/regs.rs\<close>), the table of open files (\<open>fs.rs\<close>) and the host. Hooks of all kinds go through the
  registry of \<open>hook.rs\<close>. \<open>fuzzing.rs\<close> runs a prepared emulator again and again from a snapshot.

  \<^bold>\<open>How it is modelled.\<close> The whole emulator is the record \<open>Valkyrie\<close> of \<open>Vk_Machine\<close>; a function of type
  \<open>Result<T>\<close> is a \<open>vk_call\<close>, from a state to an outcome and a state. The outcome is \<open>Ok\<close>, \<open>Err\<close>, \<open>Panic\<close>
  (an out-of-range slice, an \<open>unwrap\<close>, an allocation of 2 to the 63 bytes or more) or \<open>Diverges\<close> (a loop of the
  source that does not end); \<open>and_then\<close> is the operator \<open>?\<close>. What was mutated before an error stays mutated.
  Integers are words of their width, and the plain operators wrap as they do in a release build.

  \<^bold>\<open>Outside the repository.\<close> The Unicorn engine and the host are the parameter \<open>platform\<close>, one field per
  call the code makes; the further calls of \<open>io.rs\<close> and \<open>network.rs\<close> on streams and descriptors, on
  paths and on sockets are \<open>io_host\<close>, \<open>path_host\<close> and \<open>net_host\<close>; hook registration is \<open>hook_engine\<close>, the
  engine's execution \<open>emu_start\<close>, the ELF parser an argument \<open>parse\<close>. The documented behaviour the properties need is stated as named hypotheses:
  \<open>engine_maps\<close> (mapping, unmapping and protecting whole pages), \<open>engine_bytes\<close> and \<open>engine_map_bytes\<close>
  (contents), \<open>engine_regs\<close> (registers), \<open>io_keeps_map\<close> and \<open>emu_keeps_map\<close> (handlers and execution that are
  arguments leave the memory map in step), \<open>hook_keeps\<close>, \<open>protect_keeps\<close> and \<open>context_keeps\<close> (adding a hook,
  changing protections, saving and restoring the CPU leave memory alone), \<open>registers_stay\<close> (mapping and hooking leave the registers), \<open>engine_runs\<close> (an execution changes
  registers and contents and reports events to the hooks), \<open>byte_sink\<close> and \<open>host_files\<close> (a write takes a prefix
  of its buffer, a file is its contents and a position). \<open>ref_engine\<close> of \<open>Vk_Engine\<close> and
  \<open>ref_files\<close> of \<open>Vk_IoSpec\<close> satisfy them, and the witnesses evaluate the properties on these.

  \<^bold>\<open>Theories.\<close>
  \<^item> \<open>Vk_Prelude\<close>: Rust's integers and saturating operations, outcomes, \<open>and_then\<close>, shared lemmas.
    \<open>Vk_Types\<close>: \<open>vtype.rs\<close>, \<open>error.rs\<close>, \<open>arch/mod.rs\<close>.
  \<^item> \<open>Vk_Bytes\<close>, \<open>Vk_Vstruct\<close>: byte order and \<open>vstruct.rs\<close>; the locale \<open>fixed_codec\<close> is a fixed-width codec,
    and packing then unpacking gives the value back.
  \<^item> \<open>Vk_Align\<close>: rounding to pages (\<open>common.rs\<close>), with the wrap-around at the top of the address space.
  \<^item> \<open>Vk_Regions\<close>, \<open>Vk_Intervals\<close>: the region list of \<open>memory.rs\<close> and the interval arithmetic of
    \<open>fuzzing.rs\<close>, against sets of addresses; the locale \<open>address_book\<close> is what the memory calls rely on.
  \<^item> \<open>Vk_Registers\<close>: register names of both guests (\<open>arch/x86.rs\<close>, \<open>arch/x86_64.rs\<close>).
    \<open>Vk_Machine\<close>: the state and the operations on guest memory and registers. \<open>Vk_Engine\<close>: the laws
    of the engine, the invariant \<open>in_sync\<close> (the region list agrees with the engine's map on every address),
    reading back what was written.
  \<^item> \<open>Vk_SysMemory\<close>, \<open>Vk_SysProcess\<close>, \<open>Vk_SysThread\<close>: the handlers of \<open>os/syscall/memory.rs\<close>,
    \<open>common.rs\<close> and \<open>thread.rs\<close>. \<open>Vk_Fs\<close>: \<open>fs.rs\<close>, the descriptor table (locale \<open>keyed_table\<close>) and guest
    paths.
  \<^item> \<open>Vk_IoHost\<close>, \<open>Vk_Io\<close>, \<open>Vk_IoMeta\<close>, \<open>Vk_Net\<close>: the handlers of \<open>os/syscall/io.rs\<close> (descriptors; paths and
    metadata) and \<open>network.rs\<close>. \<open>Vk_IoRun\<close>: their table, which instantiates the argument \<open>io\<close> of the dispatch;
    the locale \<open>io_invariant\<close> is an invariant of all of them, interpreted three times (the memory map, the
    keys of the descriptor table, what a handler may change). \<open>Vk_IoSpec\<close>: what the calls promise.
  \<^item> \<open>Vk_Hooks\<close>: \<open>hook.rs\<close>, dispatch in the order of registration and the registry's invariant.
  \<^item> \<open>Vk_Dispatch\<close>: the number tables, their binary search and the two trap handlers; \<open>Vk_Run\<close>: guest
    instructions interleaved with traps as the step relation \<open>guest_run\<close>, which keeps \<open>in_sync\<close>.
  \<^item> \<open>Vk_Os\<close>, \<open>Vk_OsRun\<close>: \<open>os/linux.rs\<close>, \<open>os/blob.rs\<close>; the initial stack, the descriptor table, the entry
    stub; the locale \<open>os_layer\<close> is the contract of both layers.
  \<^item> \<open>Vk_Loader\<close>, \<open>Vk_ElfImage\<close>, \<open>Vk_LoadRun\<close>: \<open>loader/\<close>; the image of a segment, the address space
    laid out, with the locale \<open>loader\<close> for the contract of both loaders.
  \<^item> \<open>Vk_Config\<close>: \<open>config.rs\<close>. \<open>Vk_Core\<close>, \<open>Vk_CoreRun\<close>: \<open>lib.rs\<close> and the installation of the system call
    hook, over the emulator beside its hook registry: construction, the exit trap, every code event served
    by the handler (\<open>hooked_run\<close> is the engine's execution with the hook).
  \<^item> \<open>Vk_Life\<close>: construction, preparation and run of a Linux emulator put together; the property itself,
    \<open>linux_life_keeps_sync\<close>, is below. Its hypothesis on the engine, \<open>engine_runs\<close>, says what an execution is made
    of (\<open>engine_steps\<close>) and asks nothing of the guest; its hypothesis on the guest, \<open>guest_clear\<close>, is about the code
    events of the run in question, from the state where \<open>run\<close> starts the engine (\<open>engine_start\<close>). \<open>Vk_Report\<close>: what is printed (\<open>logger.rs\<close>, the messages of \<open>error.rs\<close>, the
    dumps of \<open>memory.rs\<close>, the crash report of \<open>lib.rs\<close>), as values.
  \<^item> \<open>Vk_Fuzz\<close>, \<open>Vk_FuzzRun\<close>: \<open>fuzzing.rs\<close>: coverage against a reference trace, snapshots and what a restore
    brings back, the verdict on an input.

  \<^bold>\<open>Loops and fuel.\<close> Recursion on lists and decreasing sizes is total. \<open>mmap_search\<close> (the address search of
  \<open>mmap\<close>) and \<open>map_pages\<close> (the page loop of the ELF loader) can run forever in the source and are partial
  functions, whose \<open>None\<close> becomes \<open>Diverges\<close>. No definition uses fuel.

  \<^bold>\<open>Not modelled.\<close> The log lines inside the operations (their format and the panic of an error line are in
  \<open>Vk_Report\<close>); the listing of traced instructions; locks and their poisoning, since the emulator is
  single-threaded; branches for hosts other than Linux; the examples and tests, which only call the library.
\<close>

section \<open>Across the components\<close>

text \<open>
  C1: the life of a Linux emulator. Build one on a fresh engine and run it, with the handlers of the model
  installed as the engine's hook. The engine may do whatever \<open>engine_runs\<close> allows; of the guest it is required that
  the \<open>mmap\<close> and \<open>mprotect\<close> calls it makes in this run are clear (\<open>guest_clear\<close>): no fixed mapping over a partly
  mapped range, no mapping that ends at the top of the address space, no protection of part of a region. Then the
  region list the emulator keeps and the memory map of the engine agree on every address after construction, at
  every instruction the engine reports, and at the end, whether the run ends in success, in an error, in a panic or
  in a callback that does not return.
\<close>

theorem linux_life_keeps_sync:
  assumes laws: "engine_maps P view" "hook_keeps E view" "engine_runs view emu events"
    and outside: "\<forall>m u. engine_new m = Inr u \<longrightarrow> view u = (\<lambda>_. None)" "\<forall>p b u. view (snd (udbserver p b u)) = view u"
    and new: "valkyrie_new P E parse dis engine_new udbserver creds table h c = Ok st"
    and linux: "c_os (cfg (em_vk st)) = Linux" "\<not> c_disassemble (cfg (em_vk st))"
    and top: "below_end (em_vk st)" "tls_addr_exit (vmem (em_vk st)) \<noteq> 0"
    and guest: "guest_clear P E (host_handlers P H F N) events st"
  shows "in_sync view (em_vk st)
    \<and> (\<forall>start stop s. engine_start P E (host_handlers P H F N) st = Some (start, stop, s) \<longrightarrow>
        list_all (\<lambda>(addr, vk). in_sync view vk) (events start stop (c_timeout (cfg (em_vk s))) (c_count (cfg (em_vk s))) s))
    \<and> in_sync view (em_vk (snd (run P E (host_handlers P H F N) emu st)))"
proof -
  have "ready view (em_vk st)"
    using valkyrie_new_loaded [OF laws(1,2) outside new top(1)] linux(1) top(2) by (simp add: ready_def)
  from run_sync [OF laws(3,1) host_handlers_keep_map [OF laws(1)] laws(2) linux(1) constructed [OF new linux(2)] this guest] this
  show ?thesis by (simp add: ready_def)
qed

text \<open>
  An execution of the reference engine: the guest loads the number of \<open>brk\<close> and an address, and reaches the
  instruction at the start of the range. The program is that instruction, the system call of x86_64.
\<close>

definition ref_loaded :: "(ref_state, unit) Machine \<Rightarrow> (ref_state, unit) Machine" where
  "ref_loaded m = m\<lparr>mc_vk := (mc_vk m)\<lparr>uc := (uc (mc_vk m))
     \<lparr>ref_regs := (ref_regs (uc (mc_vk m)))(RegisterX86.RAX := 12, RegisterX86.RDI := 0x710000)\<rparr>\<rparr>\<rparr>"

definition ref_exec :: "(ref_state, unit) engine_run" where
  "ref_exec a b t n st =
     (case dispatch_common (snd st) (ref_loaded (fst st)) HT_CODE (Trace a 2) of (r, m, hk) \<Rightarrow> (Inr (), (m, hk)))"

definition ref_events :: "(ref_state, unit) event_log" where
  "ref_events a b t n st = [(a, mc_vk (ref_loaded (fst st)))]"

lemma ref_exec_runs: "engine_runs ref_view ref_exec ref_events"
  unfolding engine_runs_def
proof (intro allI)
  fix a b t n and st :: "(ref_state, unit) emulator"
  obtain r m hk where d: "dispatch_common (snd st) (ref_loaded (fst st)) HT_CODE (Trace a 2) = (r, m, hk)" by (metis prod_cases3)
  have "engine_steps ref_view st [] (fst st, snd st)" by (simp add: engine_steps.start)
  then have "engine_steps ref_view st [] (ref_loaded (fst st), snd st)"
    unfolding ref_loaded_def by (rule engine_steps.exec) simp
  from engine_steps.code [OF this d] show "engine_steps ref_view st (ref_events a b t n st) (snd (ref_exec a b t n st))"
    by (simp add: ref_exec_def ref_events_def d)
qed

definition ref_linux_program :: ValkyrieConfig where
  "ref_linux_program = ref_program\<lparr>c_os := Linux, c_entry_point := 0x700000, c_baremetal_code := [0x0f, 0x05]\<rparr>"

abbreviation ref_construct_linux :: "(ref_state, unit) emulator vk_outcome" where
  "ref_construct_linux \<equiv> valkyrie_new ref_engine ref_hooks (\<lambda>_ _. None) (\<lambda>_ _. None) ref_open (\<lambda>_ _ u. (True, u))
     \<lparr>cr_uid = 0, cr_euid = 0, cr_gid = 0, cr_egid = 0\<rparr> fd_table_default () ref_linux_program"

lemma ref_reads: "uc_reg_read ref_engine r u = Inr (ref_regs u r)"
  by (simp add: ref_engine_def)

text \<open>Construction and preparation succeed, and the engine starts on the instruction.\<close>

lemma ref_started:
  "\<exists>st start stop s. ref_construct_linux = Ok st \<and> below_end (em_vk st) \<and> tls_addr_exit (vmem (em_vk st)) \<noteq> 0
    \<and> c_os (cfg (em_vk st)) = Linux \<and> \<not> c_disassemble (cfg (em_vk st))
    \<and> engine_start ref_engine ref_hooks io st = Some (start, stop, s) \<and> start = 0x700000
    \<and> rg_arch (vregs (em_vk s)) = X86_64 \<and> c_arch (cfg (em_vk s)) = X86_64
    \<and> ref_content (uc (em_vk s)) 0x700000 = 0x0f \<and> ref_content (uc (em_vk s)) 0x700001 = 0x05"
  apply (simp add: valkyrie_new_def vcs_new_def ref_linux_program_def ref_program_def ref_cfg_def defaults_for_arch_def ref_open_def
      vmemory_new_def select_os_def loader_run_def loader_blob_run_def fresh_def Let_def align_up_def PAGE_SIZE_def ref_map_step pages_def
      ref_fill_def mem_write_def uc_do_def ref_writes sp_register_def set_reg_def set_reg_x86_64_def varch_new_def vregs_new_def
      note_reg_update_def push_region_def after_load_def install_trace_if_def below_end_def vos_set_loader_info_def
      skip_exit_check_def os_set_loader_info_def os_new_def)
  apply (simp add: engine_start_def prepare_initial_run_def install_syscall_hook_def syscall_handler_for_def on_hooks_def hook_code_def
      ensure_code_dispatcher_def ensure_dispatcher_def hooks_new_def ref_hooks_def alloc_id_def Let_def reset_execution_state_def
      setup_trap_def write_exit_trap_def vos_skip_exit_trap_def on_vk_def)
  apply (simp add: vos_prepare_execution_def linux_prepare_execution_def setup_tls_minimal_def ref_map_step pages_def ref_fill_def
      Let_def set_reg_def set_reg_x86_64_def note_reg_update_def ref_writes uc_do_def)
  apply (simp add: setup_stack_def setup_stack_x86_64_def get_reg_def get_reg_x86_64_def ref_reads uc_write_def uc_do_def ref_writes
      guest_argv_def ascii_def append_auxv64_def Let_def set_reg_def set_reg_x86_64_def note_reg_update_def)
  done

lemma ref_loaded_trap:
  assumes "rg_arch (vregs (mc_vk m)) = X86_64" "ref_content (uc (mc_vk m)) 0x700000 = 0x0f" "ref_content (uc (mc_vk m)) 0x700001 = 0x05"
  shows "\<exists>args. x86_64_trap ref_engine 0x700000 (mc_vk (ref_loaded m)) 12 args"
    and "x86_64_trap ref_engine 0x700000 (mc_vk (ref_loaded m)) no args \<Longrightarrow> no = 12"
    and "\<not> x86_trap ref_engine 0x700000 (mc_vk (ref_loaded m)) no args"
proof -
  have g: "fst (get_reg ref_engine (VR_X86_64 r) (mc_vk (ref_loaded m))) = Ok (ref_regs (uc (mc_vk (ref_loaded m))) (to_uc_x86_64 r))" for r
    using assms(1) by (simp add: get_reg_def get_reg_x86_64_def ref_reads ref_loaded_def)
  have ar: "rg_arch (vregs (mc_vk (ref_loaded m))) = X86_64" using assms(1) by (simp add: ref_loaded_def)
  have a: "ref_regs (uc (mc_vk (ref_loaded m))) RegisterX86.RAX = 12" by (simp add: ref_loaded_def)
  have b: "mem_read ref_engine 0x700000 2 (mc_vk (ref_loaded m)) = (Ok [0x0f, 0x05], mc_vk (ref_loaded m))"
    using assms(2,3) by (simp add: mem_read_def ref_engine_def ref_loaded_def upt_rec)
  let ?r = "\<lambda>r. ref_regs (uc (mc_vk (ref_loaded m))) r"
  have "x86_64_trap ref_engine 0x700000 (mc_vk (ref_loaded m)) 12 (map ?r [RegisterX86.RDI, RegisterX86.RSI, RegisterX86.RDX,
      RegisterX86.R10, RegisterX86.R8, RegisterX86.R9])"
    by (simp add: x86_64_trap_def ar g a b)
  then show "\<exists>args. x86_64_trap ref_engine 0x700000 (mc_vk (ref_loaded m)) 12 args" ..
  show "x86_64_trap ref_engine 0x700000 (mc_vk (ref_loaded m)) no args \<Longrightarrow> no = 12"
    by (simp add: x86_64_trap_def g a)
  show "\<not> x86_trap ref_engine 0x700000 (mc_vk (ref_loaded m)) no args"
    by (simp add: x86_trap_def ar)
qed

theorem linux_life_keeps_sync_witness:
  "\<exists>st start stop s args. ref_construct_linux = Ok st
    \<and> engine_start ref_engine ref_hooks ref_io_handlers st = Some (start, stop, s)
    \<and> ref_events start stop 0 0 s = [(start, mc_vk (ref_loaded (fst s)))]
    \<and> x86_64_trap ref_engine start (mc_vk (ref_loaded (fst s))) 12 args
    \<and> in_sync ref_view (mc_vk (ref_loaded (fst s)))
    \<and> in_sync ref_view (em_vk (snd (run ref_engine ref_hooks ref_io_handlers ref_exec st)))"
proof -
  obtain st start stop s where st: "ref_construct_linux = Ok st" "below_end (em_vk st)" "tls_addr_exit (vmem (em_vk st)) \<noteq> 0"
    "c_os (cfg (em_vk st)) = Linux" "\<not> c_disassemble (cfg (em_vk st))"
    and e: "engine_start ref_engine ref_hooks ref_io_handlers st = Some (start, stop, s)" "start = 0x700000"
    and s: "rg_arch (vregs (mc_vk (fst s))) = X86_64" "c_arch (cfg (em_vk s)) = X86_64"
    "ref_content (uc (mc_vk (fst s))) 0x700000 = 0x0f" "ref_content (uc (mc_vk (fst s))) 0x700001 = 0x05"
    using ref_started [of ref_io_handlers] by metis
  note trap = ref_loaded_trap [OF s(1,3,4)]
  have "(12, ''brk'') \<in> set SYSCALL_TABLE_X86_64"
    by (simp add: syscall_table_defs)
  then have name: "syscall_name_from_no 12 X86_64 = Ok ''brk''"
    by (simp add: syscall_name_from_no_member)
  have "c_arch (cfg (mc_vk (ref_loaded (fst s)))) = X86_64" using s(2) by (simp add: ref_loaded_def)
  with trap(2,3) name have "trap_clear ref_engine start (mc_vk (ref_loaded (fst s)))"
    unfolding trap_clear_def e(2) call_clear_def by fastforce
  then have clear: "guest_clear ref_engine ref_hooks (host_handlers ref_engine idle_io idle_path idle_net) ref_events st"
    using e by (auto simp: guest_clear_def ref_events_def ref_io_handlers_def)
  have new: "\<forall>m u. ref_open m = Inr u \<longrightarrow> ref_view u = (\<lambda>_. None)" by (simp add: ref_open_def)
  have evs: "\<forall>start stop s. engine_start ref_engine ref_hooks ref_io_handlers st = Some (start, stop, s) \<longrightarrow>
      list_all (\<lambda>(addr, vk). in_sync ref_view vk) (ref_events start stop (c_timeout (cfg (em_vk s))) (c_count (cfg (em_vk s))) s)"
    and stays: "in_sync ref_view (em_vk (snd (run ref_engine ref_hooks ref_io_handlers ref_exec st)))"
    using linux_life_keeps_sync [OF ref_engine_maps ref_hook_keeps ref_exec_runs new _ st(1,4,5,2,3) clear]
    by (auto simp: ref_io_handlers_def)
  have "in_sync ref_view (mc_vk (ref_loaded (fst s)))"
    using evs [rule_format, OF e(1)] by (simp add: ref_events_def)
  moreover obtain args where "x86_64_trap ref_engine start (mc_vk (ref_loaded (fst s))) 12 args"
    using trap(1) e(2) by auto
  ultimately show ?thesis
    using st(1) e(1) stays by (intro exI conjI) (assumption | simp only: ref_events_def)+
qed

end
